(* ===== verification/Vault_Prelude.thy ===== *)
theory Vault_Prelude
  imports Main "HOL-Library.Word" "HOL-Library.Char_ord" "HOL-Library.List_Lexorder"
begin

text \<open>
  Shared material of the development: the collections its automation draws on, the machine
  integers of the Rust sources, byte strings, and results.

  \<^item> \<open>i32\<close> and \<open>i64\<close> are integers whose operations write their width out
    (\<open>wrap_i64\<close> is two's complement wrap-around, the release build's \<open>+\<close> and
    \<open>-\<close>; \<open>sat_add_i64\<close> is \<open>saturating_add\<close>; \<open>checked_add_i32\<close> is
    \<open>checked_add\<close>).
  \<^item> \<open>u8\<close>, \<open>u32\<close> and \<open>u64\<close> are words, so \<open>+\<close> wraps.
  \<^item> A Rust \<open>String\<close> is the list of its UTF-8 bytes, an Isabelle \<open>string\<close>;
    a \<open>Vec<u8>\<close> is a list of 8-bit words. Comparing two \<open>String\<close>s compares
    their bytes lexicographically, which is the order of \<open>List_Lexorder\<close>.
  \<^item> \<open>Result<T, E>\<close> is the sum \<open>'e + 't\<close>, \<open>Inl\<close> the error.
\<close>

section \<open>Collections\<close>

named_theorems table_simps \<open>lookup and well-formedness of ordered tables\<close>
named_theorems handler_defs \<open>definitions of the command handlers\<close>
named_theorems int_defs \<open>definitions of the sized integer operations\<close>

section \<open>Machine integers\<close>

type_synonym i32 = int
type_synonym i64 = int
type_synonym u8 = "8 word"
type_synonym u32 = "32 word"
type_synonym u64 = "64 word"
type_synonym bytes = "u8 list"

definition i32_max :: i32 where [int_defs]: "i32_max = 2147483647"
definition i32_min :: i32 where [int_defs]: "i32_min = - 2147483648"
definition i64_max :: i64 where [int_defs]: "i64_max = 9223372036854775807"
definition i64_min :: i64 where [int_defs]: "i64_min = - 9223372036854775808"

definition in_i32 :: "int \<Rightarrow> bool" where
  [int_defs]: "in_i32 x \<longleftrightarrow> i32_min \<le> x \<and> x \<le> i32_max"

definition in_i64 :: "int \<Rightarrow> bool" where
  [int_defs]: "in_i64 x \<longleftrightarrow> i64_min \<le> x \<and> x \<le> i64_max"

definition wrap_i64 :: "int \<Rightarrow> i64" where
  [int_defs]: "wrap_i64 x = (x + 9223372036854775808) mod 18446744073709551616 - 9223372036854775808"

definition sat_i64 :: "int \<Rightarrow> i64" where
  [int_defs]: "sat_i64 x = (if x < i64_min then i64_min else if i64_max < x then i64_max else x)"

definition sat_add_i64 :: "i64 \<Rightarrow> i64 \<Rightarrow> i64" where
  [int_defs]: "sat_add_i64 a b = sat_i64 (a + b)"

definition sat_sub_i64 :: "i64 \<Rightarrow> i64 \<Rightarrow> i64" where
  [int_defs]: "sat_sub_i64 a b = sat_i64 (a - b)"

definition checked_add_i32 :: "i32 \<Rightarrow> i32 \<Rightarrow> i32 option" where
  [int_defs]: "checked_add_i32 a b = (if in_i32 (a + b) then Some (a + b) else None)"

definition sat_add_u64 :: "u64 \<Rightarrow> u64 \<Rightarrow> u64" where
  [int_defs]: "sat_add_u64 a b = (if unat a + unat b < 18446744073709551616 then a + b else 18446744073709551615)"

definition checked_add_u64 :: "u64 \<Rightarrow> u64 \<Rightarrow> u64 option" where
  [int_defs]: "checked_add_u64 a b = (if unat a + unat b < 18446744073709551616 then Some (a + b) else None)"

lemma wrap_i64_range [simp]: "in_i64 (wrap_i64 x)"
  by (simp add: int_defs)

lemma wrap_i64_id [simp]: "in_i64 x \<Longrightarrow> wrap_i64 x = x"
  by (simp add: int_defs)

lemma sat_i64_range [simp]: "in_i64 (sat_i64 x)"
  by (simp add: int_defs)

lemma sat_i64_id [simp]: "in_i64 x \<Longrightarrow> sat_i64 x = x"
  by (simp add: int_defs)

lemma sat_add_i64_range [simp]: "in_i64 (sat_add_i64 a b)"
  by (simp add: sat_add_i64_def)

lemma checked_add_u64_Some:
  assumes "checked_add_u64 a b = Some c"
  shows "unat c = unat a + unat b"
  using assms by (auto simp: checked_add_u64_def unat_word_ariths split: if_splits)

lemma unat_sat_add_u64:
  "unat (sat_add_u64 a b) = min (unat a + unat b) 18446744073709551615"
  by (simp add: sat_add_u64_def unat_word_ariths min_def)

section \<open>Byte strings\<close>

definition as_bytes :: "string \<Rightarrow> bytes" where
  "as_bytes s = map (\<lambda>c. word_of_nat (of_char c)) s"

definition of_bytes :: "bytes \<Rightarrow> string" where
  "of_bytes bs = map (\<lambda>b. char_of (unat b)) bs"

lemma of_bytes_as_bytes [simp]: "of_bytes (as_bytes s) = s"
proof -
  have "char_of (unat (word_of_nat (of_char c) :: u8)) = c" for c
    using nat_of_char_less_256 [of c] by (simp add: unat_of_nat)
  then show ?thesis by (simp add: of_bytes_def as_bytes_def o_def)
qed

lemma as_bytes_inject [simp]: "as_bytes s = as_bytes t \<longleftrightarrow> s = t"
  by (metis of_bytes_as_bytes)

lemma as_bytes_append [simp]: "as_bytes (s @ t) = as_bytes s @ as_bytes t"
  by (simp add: as_bytes_def)

lemma length_as_bytes [simp]: "length (as_bytes s) = length s"
  by (simp add: as_bytes_def)

section \<open>Results\<close>

definition ok_or :: "'e \<Rightarrow> 'a option \<Rightarrow> 'e + 'a" where
  "ok_or e x = (case x of None \<Rightarrow> Inl e | Some v \<Rightarrow> Inr v)"

definition is_ok :: "'e + 'a \<Rightarrow> bool" where
  "is_ok r = (case r of Inl _ \<Rightarrow> False | Inr _ \<Rightarrow> True)"

lemma is_ok_simps [simp]: "is_ok (Inr x)" "\<not> is_ok (Inl e)"
  by (simp_all add: is_ok_def)

lemma ok_or_eq_Inr [simp]: "ok_or e x = Inr v \<longleftrightarrow> x = Some v"
  by (auto simp: ok_or_def split: option.splits)

lemma ok_or_simps [simp]: "ok_or e None = Inl e" "ok_or e (Some v) = Inr v"
  by (simp_all add: ok_or_def)

end
