(* ===== verification/Rust_Strings.thy ===== *)
theory Rust_Strings
  imports Vault_Prelude "HOL-Library.Sublist"
begin

text \<open>
  The operations of Rust's \<open>str\<close> the sources use, on byte strings: prefixes, splitting,
  trimming, ASCII case, decimal printing and parsing of integers. They are standard library
  functions, so they have no lines of their own in the repository; each is written as the
  standard library documents it.

  \<open>char::is_whitespace\<close> is the Unicode property White\_Space. Its code points are listed
  by their UTF-8 encodings in \<open>ws_encodings\<close>; trimming removes any of them from an end.
\<close>

section \<open>Prefixes, suffixes and splitting\<close>

definition starts_with :: "string \<Rightarrow> string \<Rightarrow> bool" where
  "starts_with p s \<longleftrightarrow> take (length p) s = p"

definition strip_prefix :: "string \<Rightarrow> string \<Rightarrow> string option" where
  "strip_prefix p s = (if starts_with p s then Some (drop (length p) s) else None)"

definition strip_suffix :: "string \<Rightarrow> string \<Rightarrow> string option" where
  "strip_suffix p s = map_option rev (strip_prefix (rev p) (rev s))"

lemma strip_prefix_Some: "strip_prefix p s = Some t \<longleftrightarrow> s = p @ t"
proof
  assume "strip_prefix p s = Some t"
  then have "take (length p) s = p" "t = drop (length p) s"
    by (auto simp: strip_prefix_def starts_with_def split: if_splits)
  then show "s = p @ t" using append_take_drop_id [of "length p" s] by simp
qed (simp add: strip_prefix_def starts_with_def)

lemma starts_with_iff: "starts_with p s \<longleftrightarrow> (\<exists>t. s = p @ t)"
  by (simp add: strip_prefix_Some [symmetric] strip_prefix_def)

lemma strip_suffix_Some: "strip_suffix p s = Some t \<longleftrightarrow> s = t @ p"
proof -
  have "strip_suffix p s = Some t \<longleftrightarrow> strip_prefix (rev p) (rev s) = Some (rev t)"
    by (auto simp: strip_suffix_def)
  then show ?thesis by (simp add: strip_prefix_Some flip: rev_append)
qed

lemma strip_suffix_None: "strip_suffix p s = None \<longleftrightarrow> (\<nexists>t. s = t @ p)"
  by (simp add: strip_suffix_Some [symmetric])

fun split_once :: "char \<Rightarrow> string \<Rightarrow> (string \<times> string) option" where
  "split_once c [] = None"
| "split_once c (x # xs) =
     (if x = c then Some ([], xs)
      else map_option (\<lambda>(a, b). (x # a, b)) (split_once c xs))"

definition rsplit_once :: "char \<Rightarrow> string \<Rightarrow> (string \<times> string) option" where
  "rsplit_once c s = map_option (\<lambda>(a, b). (rev b, rev a)) (split_once c (rev s))"

fun split_on :: "char \<Rightarrow> string \<Rightarrow> string list" where
  "split_on c [] = [[]]"
| "split_on c (x # xs) =
     (if x = c then [] # split_on c xs
      else (x # hd (split_on c xs)) # tl (split_on c xs))"

lemma split_once_Some:
  "split_once c s = Some (a, b) \<longleftrightarrow> s = a @ c # b \<and> c \<notin> set a"
proof (induction s arbitrary: a)
  case (Cons x xs)
  then show ?case by (cases a) auto
qed simp

lemma split_once_None: "split_once c s = None \<longleftrightarrow> c \<notin> set s"
  by (induction s) auto

lemma rsplit_once_Some:
  "rsplit_once c s = Some (a, b) \<longleftrightarrow> s = a @ c # b \<and> c \<notin> set b"
proof -
  have "rsplit_once c s = Some (a, b) \<longleftrightarrow> split_once c (rev s) = Some (rev b, rev a)"
    by (auto simp: rsplit_once_def)
  also have "\<dots> \<longleftrightarrow> s = a @ c # b \<and> c \<notin> set b"
    by (auto simp: split_once_Some rev_swap)
  finally show ?thesis .
qed

lemma rsplit_once_None: "rsplit_once c s = None \<longleftrightarrow> c \<notin> set s"
  by (simp add: rsplit_once_def split_once_None)

lemma split_on_nonempty [simp]: "split_on c s \<noteq> []"
  by (cases s) auto

lemma split_on_no_sep: "seg \<in> set (split_on c s) \<Longrightarrow> c \<notin> set seg"
proof (induction s arbitrary: seg)
  case (Cons x xs)
  then show ?case
    by (cases "split_on c xs") (auto split: if_splits)
qed simp

lemma split_on_append_sep: "split_on c (a @ c # b) = split_on c a @ split_on c b"
  by (induction a) (auto simp: hd_append)

lemma split_on_single: "c \<notin> set s \<Longrightarrow> split_on c s = [s]"
  by (induction s) auto

lemma set_split_on: "x \<in> set seg \<Longrightarrow> seg \<in> set (split_on c s) \<Longrightarrow> x \<in> set s"
proof (induction s arbitrary: seg)
  case (Cons y ys)
  then show ?case
    by (cases "split_on c ys") (fastforce split: if_splits)+
qed simp

section \<open>Trimming and ASCII case\<close>

definition ws_encodings :: "string list" where
  "ws_encodings =
     [[CHR 0x09], [CHR 0x0A], [CHR 0x0B], [CHR 0x0C], [CHR 0x0D], [CHR 0x20],
      [CHR 0xC2, CHR 0x85], [CHR 0xC2, CHR 0xA0], [CHR 0xE1, CHR 0x9A, CHR 0x80],
      [CHR 0xE2, CHR 0x80, CHR 0x80], [CHR 0xE2, CHR 0x80, CHR 0x81],
      [CHR 0xE2, CHR 0x80, CHR 0x82], [CHR 0xE2, CHR 0x80, CHR 0x83],
      [CHR 0xE2, CHR 0x80, CHR 0x84], [CHR 0xE2, CHR 0x80, CHR 0x85],
      [CHR 0xE2, CHR 0x80, CHR 0x86], [CHR 0xE2, CHR 0x80, CHR 0x87],
      [CHR 0xE2, CHR 0x80, CHR 0x88], [CHR 0xE2, CHR 0x80, CHR 0x89],
      [CHR 0xE2, CHR 0x80, CHR 0x8A], [CHR 0xE2, CHR 0x80, CHR 0xA8],
      [CHR 0xE2, CHR 0x80, CHR 0xA9], [CHR 0xE2, CHR 0x80, CHR 0xAF],
      [CHR 0xE2, CHR 0x81, CHR 0x9F], [CHR 0xE3, CHR 0x80, CHR 0x80]]"

definition strip_one :: "string list \<Rightarrow> string \<Rightarrow> string option" where
  "strip_one es s = (case filter (\<lambda>e. starts_with e s) es of
     [] \<Rightarrow> None | e # _ \<Rightarrow> Some (drop (length e) s))"

lemma strip_one_shorter:
  assumes "strip_one es s = Some t" and "[] \<notin> set es"
  shows "length t < length s"
proof -
  obtain e r where f: "filter (\<lambda>e. starts_with e s) es = e # r" and t: "t = drop (length e) s"
    using assms(1) by (auto simp: strip_one_def split: list.splits)
  then have "e \<in> set es" "starts_with e s"
    by (auto dest: filter_eq_ConsD)
  with assms(2) t show ?thesis by (auto simp: starts_with_iff)
qed

lemma ws_encodings_proper: "[] \<notin> set ws_encodings" "[] \<notin> set (map rev ws_encodings)"
  by (simp_all add: ws_encodings_def)

function trim_start :: "string \<Rightarrow> string" where
  "trim_start s = (case strip_one ws_encodings s of None \<Rightarrow> s | Some t \<Rightarrow> trim_start t)"
  by pat_completeness auto
termination
  by (relation "measure length") (simp_all add: strip_one_shorter [OF _ ws_encodings_proper(1)])

function trim_end_rev :: "string \<Rightarrow> string" where
  "trim_end_rev s =
     (case strip_one (map rev ws_encodings) s of None \<Rightarrow> s | Some t \<Rightarrow> trim_end_rev t)"
  by pat_completeness auto
termination
  by (relation "measure length") (simp_all add: strip_one_shorter [OF _ ws_encodings_proper(2)])

declare trim_start.simps [simp del] trim_end_rev.simps [simp del]

definition trim :: "string \<Rightarrow> string" where
  "trim s = rev (trim_end_rev (rev (trim_start s)))"

definition to_ascii_lower_char :: "char \<Rightarrow> char" where
  "to_ascii_lower_char c =
     (if CHR ''A'' \<le> c \<and> c \<le> CHR ''Z'' then char_of (of_char c + 32 :: nat) else c)"

definition to_ascii_lowercase :: "string \<Rightarrow> string" where
  "to_ascii_lowercase s = map to_ascii_lower_char s"

section \<open>Decimal integers\<close>

definition digit_char :: "nat \<Rightarrow> char" where
  "digit_char d = char_of (48 + d)"

definition is_ascii_digit :: "char \<Rightarrow> bool" where
  "is_ascii_digit c \<longleftrightarrow> CHR ''0'' \<le> c \<and> c \<le> CHR ''9''"

definition digit_val :: "char \<Rightarrow> nat" where
  "digit_val c = of_char c - 48"

fun show_nat :: "nat \<Rightarrow> string" where
  "show_nat n = (if n < 10 then [digit_char n] else show_nat (n div 10) @ [digit_char (n mod 10)])"

declare show_nat.simps [simp del]

definition digits_val :: "string \<Rightarrow> nat" where
  "digits_val ds = foldl (\<lambda>acc c. 10 * acc + digit_val c) 0 ds"

definition show_int :: "int \<Rightarrow> string" where
  "show_int i = (if i < 0 then CHR ''-'' # show_nat (nat (- i)) else show_nat (nat i))"

definition zero_pad :: "nat \<Rightarrow> string \<Rightarrow> string" where
  "zero_pad w ds = replicate (w - length ds) (CHR ''0'') @ ds"

text \<open>\<open>format!("{i:010}")\<close>: the sign first, then zeros up to ten characters in all.\<close>

definition show_int_pad :: "nat \<Rightarrow> int \<Rightarrow> string" where
  "show_int_pad w i =
     (if i < 0 then CHR ''-'' # zero_pad (w - 1) (show_nat (nat (- i)))
      else zero_pad w (show_nat (nat i)))"

text \<open>\<open>str::parse\<close> of an unsigned integer with maximum \<open>m\<close>: an optional leading
  plus, then digits only, at least one, without overflow.\<close>

definition parse_uint :: "nat \<Rightarrow> string \<Rightarrow> nat option" where
  "parse_uint m s =
     (let ds = (case s of CHR ''+'' # r \<Rightarrow> r | _ \<Rightarrow> s)
      in if ds \<noteq> [] \<and> list_all is_ascii_digit ds \<and> digits_val ds \<le> m
         then Some (digits_val ds) else None)"

text \<open>\<open>str::parse::<i32>\<close>.\<close>

definition parse_i32 :: "string \<Rightarrow> i32 option" where
  "parse_i32 s =
     (case s of
        CHR ''-'' # ds \<Rightarrow>
          (if ds \<noteq> [] \<and> list_all is_ascii_digit ds \<and> in_i32 (- int (digits_val ds))
           then Some (- int (digits_val ds)) else None)
      | _ \<Rightarrow> map_option int (parse_uint (nat i32_max) s))"

lemma digit_char_digit [simp]: "d < 10 \<Longrightarrow> is_ascii_digit (digit_char d)"
  by (simp add: is_ascii_digit_def digit_char_def less_eq_char_def)

lemma digit_val_digit_char [simp]: "d < 10 \<Longrightarrow> digit_val (digit_char d) = d"
  by (simp add: digit_val_def digit_char_def)

lemma digits_val_Nil [simp]: "digits_val [] = 0"
  by (simp add: digits_val_def)

lemma digits_val_snoc [simp]: "digits_val (ds @ [c]) = 10 * digits_val ds + digit_val c"
  by (simp add: digits_val_def)

lemma show_nat_digits: "list_all is_ascii_digit (show_nat n)"
proof (induction n rule: show_nat.induct)
  case (1 n)
  show ?case
    by (subst show_nat.simps) (simp add: 1)
qed

lemma show_nat_nonempty [simp]: "show_nat n \<noteq> []"
  by (subst show_nat.simps) simp

lemma digits_val_show_nat [simp]: "digits_val (show_nat n) = n"
proof (induction n rule: show_nat.induct)
  case (1 n)
  show ?case
    using 1 by (subst show_nat.simps) (auto simp: digits_val_snoc [of "[]", simplified])
qed

lemma show_nat_inject [simp]: "show_nat m = show_nat n \<longleftrightarrow> m = n"
  by (metis digits_val_show_nat)

lemma length_show_nat: "n < 10 ^ Suc k \<Longrightarrow> length (show_nat n) \<le> Suc k"
proof (induction k arbitrary: n)
  case 0
  then show ?case by (subst show_nat.simps) simp
next
  case (Suc k)
  then have "n div 10 < 10 ^ Suc k" by simp
  then have "length (show_nat (n div 10)) \<le> Suc k" by (rule Suc.IH)
  then show ?case by (subst show_nat.simps) simp
qed


lemma is_ascii_digit_iff: "is_ascii_digit c \<longleftrightarrow> 48 \<le> (of_char c :: nat) \<and> (of_char c :: nat) \<le> 57"
  by (simp add: is_ascii_digit_def less_eq_char_def)

lemma digit_val_bound: "is_ascii_digit c \<Longrightarrow> digit_val c < 10"
  by (auto simp: is_ascii_digit_iff digit_val_def)

lemma digit_val_less_iff:
  "is_ascii_digit c \<Longrightarrow> is_ascii_digit d \<Longrightarrow> c < d \<longleftrightarrow> digit_val c < digit_val d"
  by (auto simp: is_ascii_digit_iff digit_val_def less_char_def)

lemma digit_val_eq_iff:
  assumes "is_ascii_digit c" "is_ascii_digit d"
  shows "digit_val c = digit_val d \<longleftrightarrow> c = d"
  using digit_val_less_iff [OF assms] digit_val_less_iff [OF assms(2,1)]
  by (metis less_irrefl_nat linorder_neqE)

lemma not_digit [simp]:
  "\<not> is_ascii_digit (CHR ''-'')" "\<not> is_ascii_digit (CHR ''+'')" "\<not> is_ascii_digit (CHR '':'')"
  "\<not> is_ascii_digit (CHR 0x00)" "is_ascii_digit (CHR ''0'')"
  by (simp_all add: is_ascii_digit_iff)

lemma digits_val_Cons:
  "digits_val (c # ds) = digit_val c * 10 ^ length ds + digits_val ds"
proof (induction ds rule: rev_induct)
  case Nil
  then show ?case by (simp add: digits_val_def)
next
  case (snoc d ds)
  have "digits_val (c # ds @ [d]) = 10 * digits_val (c # ds) + digit_val d"
    using digits_val_snoc [of "c # ds" d] by simp
  with snoc show ?case by simp
qed

lemma digits_val_bound: "list_all is_ascii_digit ds \<Longrightarrow> digits_val ds < 10 ^ length ds"
proof (induction ds)
  case (Cons c ds)
  then have "digit_val c \<le> 9" "digits_val ds < 10 ^ length ds"
    using digit_val_bound [of c] by auto
  then have "digits_val (c # ds) < 9 * 10 ^ length ds + 10 ^ length ds"
    unfolding digits_val_Cons by (meson add_le_less_mono mult_le_mono1)
  then show ?case by simp
qed simp

text \<open>Digit strings of one length compare as the numbers they denote.\<close>

lemma digits_less_iff:
  assumes "length ds = length es" "list_all is_ascii_digit ds" "list_all is_ascii_digit es"
  shows "ds < es \<longleftrightarrow> digits_val ds < digits_val es"
  using assms
proof (induction ds es rule: list_induct2)
  case (Cons c ds d es)
  let ?p = "10 ^ length es :: nat"
  have c: "is_ascii_digit c" and d: "is_ascii_digit d"
    and b: "digits_val ds < ?p" "digits_val es < ?p"
    using Cons.prems Cons.hyps digits_val_bound [of ds] digits_val_bound [of es] by auto
  have IH: "ds < es \<longleftrightarrow> digits_val ds < digits_val es"
    using Cons by simp
  consider "digit_val c < digit_val d" | "digit_val c = digit_val d" | "digit_val d < digit_val c"
    by linarith
  then show ?case
  proof cases
    case 1
    then have "Suc (digit_val c) * ?p \<le> digit_val d * ?p" by (simp only: mult_le_mono1)
    then have "digits_val (c # ds) < digits_val (d # es)"
      using b by (simp add: digits_val_Cons Cons.hyps)
    with 1 show ?thesis by (simp add: digit_val_less_iff [OF c d])
  next
    case 2
    then show ?thesis using IH by (simp add: digits_val_Cons Cons.hyps digit_val_eq_iff [OF c d])
  next
    case 3
    then have "Suc (digit_val d) * ?p \<le> digit_val c * ?p" by (simp only: mult_le_mono1)
    then have "\<not> digits_val (c # ds) < digits_val (d # es)"
      using b by (simp add: digits_val_Cons Cons.hyps)
    moreover have "\<not> c < d" "c \<noteq> d"
      using 3 digit_val_less_iff [OF c d] by auto
    ultimately show ?thesis by simp
  qed
qed simp

lemma length_zero_pad [simp]: "length ds \<le> w \<Longrightarrow> length (zero_pad w ds) = w"
  by (simp add: zero_pad_def)

lemma digits_val_zero_pad [simp]: "digits_val (zero_pad w ds) = digits_val ds"
proof -
  have "digits_val (replicate k (CHR ''0'') @ ds) = digits_val ds" for k
    by (induction k) (simp_all add: digits_val_Cons digit_val_def)
  then show ?thesis by (simp add: zero_pad_def)
qed

lemma zero_pad_digits [simp]:
  "list_all is_ascii_digit ds \<Longrightarrow> list_all is_ascii_digit (zero_pad w ds)"
  by (auto simp: zero_pad_def list_all_iff)

lemma show_int_chars: "list_all (\<lambda>c. is_ascii_digit c \<or> c = CHR ''-'') (show_int i)"
  using show_nat_digits by (auto simp: show_int_def list_all_iff)

lemma show_int_inject [simp]: "show_int i = show_int j \<longleftrightarrow> i = j"
proof -
  have d: "hd (show_nat n) \<noteq> CHR ''-''" for n
    using show_nat_digits [of n] hd_in_set [OF show_nat_nonempty, of n]
    by (metis list_all_iff not_digit(1))
  show ?thesis
    using d [of "nat i"] d [of "nat j"] by (auto simp: show_int_def) (metis list.sel(1))+
qed

text \<open>A digit string of ten characters that fits an \<open>i32\<close> parses to its value.\<close>

lemma parse_i32_digits:
  assumes "ds \<noteq> []" "list_all is_ascii_digit ds"
  shows "parse_i32 ds = (if int (digits_val ds) \<le> i32_max then Some (int (digits_val ds)) else None)"
proof -
  obtain c r where cr: "ds = c # r" using assms(1) by (cases ds) auto
  then have "is_ascii_digit c" using assms(2) by simp
  then have c: "c \<noteq> CHR ''-''" "c \<noteq> CHR ''+''" by auto
  have "parse_i32 ds = map_option int (parse_uint (nat i32_max) ds)"
    unfolding parse_i32_def cr using c(1) by (auto split: char.splits bool.splits)
  moreover have "parse_uint (nat i32_max) ds =
      (if digits_val ds \<le> nat i32_max then Some (digits_val ds) else None)"
    unfolding parse_uint_def cr using c(2) assms
    by (auto simp: cr Let_def split: char.splits bool.splits)
  ultimately show ?thesis by (auto simp: i32_max_def)
qed

section \<open>Trimming\<close>

text \<open>Strings of visible ASCII characters have nothing to trim.\<close>

definition graphic :: "char \<Rightarrow> bool" where
  "graphic c \<longleftrightarrow> 33 \<le> (of_char c :: nat) \<and> (of_char c :: nat) \<le> 126"

lemma strip_one_graphic:
  assumes "list_all graphic s" "list_all (\<lambda>e. e \<noteq> [] \<and> \<not> graphic (hd e)) es"
  shows "strip_one es s = None"
proof -
  have "\<not> starts_with e s" if "e \<in> set es" for e
  proof
    assume "starts_with e s"
    then obtain t where "s = e @ t" by (auto simp: starts_with_iff)
    with that assms show False by (cases e) (auto simp: list_all_iff)
  qed
  then have "filter (\<lambda>e. starts_with e s) es = []" by (simp add: filter_empty_conv)
  then show ?thesis by (simp add: strip_one_def)
qed

lemma trim_graphic:
  assumes "list_all graphic s"
  shows "trim s = s"
proof -
  have "strip_one ws_encodings s = None" "strip_one (map rev ws_encodings) (rev s) = None"
    using assms by (auto intro!: strip_one_graphic simp: ws_encodings_def graphic_def)
  then show ?thesis by (simp add: trim_def trim_start.simps [of s] trim_end_rev.simps [of "rev s"])
qed

lemma strip_one_prefix: "strip_one es (s @ t) = None \<Longrightarrow> strip_one es s = None"
proof -
  have none: "strip_one es s = None \<longleftrightarrow> (\<forall>e \<in> set es. \<not> starts_with e s)" for s
    by (cases "filter (\<lambda>e. starts_with e s) es") (auto simp: strip_one_def filter_empty_conv dest: filter_eq_ConsD)
  assume "strip_one es (s @ t) = None"
  then show ?thesis unfolding none by (auto simp: starts_with_iff)
qed

lemma strip_one_trim_start: "strip_one ws_encodings (trim_start s) = None"
proof (induction s rule: trim_start.induct)
  case (1 s)
  then show ?case by (cases "strip_one ws_encodings s") (simp_all add: trim_start.simps [of s])
qed

lemma trim_end_rev_props:
  "strip_one (map rev ws_encodings) (trim_end_rev s) = None \<and> (\<exists>t. s = t @ trim_end_rev s)"
proof (induction s rule: trim_end_rev.induct)
  case (1 s)
  show ?case
  proof (cases "strip_one (map rev ws_encodings) s")
    case None
    then show ?thesis by (simp add: trim_end_rev.simps [of s])
  next
    case (Some t)
    then have "\<exists>e. s = e @ t"
      by (auto simp: strip_one_def starts_with_iff filter_eq_Cons_iff split: list.splits)
    moreover obtain t' where "t = t' @ trim_end_rev t" using 1 [OF Some] by blast
    ultimately have "\<exists>e. s = e @ trim_end_rev t" by (metis append.assoc)
    then show ?thesis using 1 [OF Some] Some by (simp add: trim_end_rev.simps [of s])
  qed
qed

lemma trim_trim [simp]: "trim (trim s) = trim s"
proof -
  let ?u = "trim_end_rev (rev (trim_start s))"
  obtain t where "rev (trim_start s) = t @ ?u" using trim_end_rev_props [of "rev (trim_start s)"] by blast
  then have "trim_start s = rev ?u @ rev t" by (metis rev_append rev_rev_ident)
  then have "strip_one ws_encodings (rev ?u) = None" using strip_one_trim_start [of s] strip_one_prefix by metis
  then have "trim_start (trim s) = trim s" by (simp add: trim_def trim_start.simps [of "rev ?u"])
  moreover have "trim_end_rev ?u = ?u"
    using trim_end_rev_props [of "rev (trim_start s)"] by (simp add: trim_end_rev.simps [of ?u])
  ultimately show ?thesis by (simp add: trim_def)
qed

end
