(* ===== verification/Core_Types.thy ===== *)
theory Core_Types
  imports Rust_Strings
begin

text \<open>
  \<open>hyperion-vault-core/src/types.rs\<close>: secret kinds and formats with their textual forms,
  the rules for secret names and version numbers, and the associated data that binds a
  ciphertext to the name and version it was sealed for.
\<close>

section \<open>Kinds and formats\<close>

datatype SecretKind = Manual | Automatic

fun SecretKind_as_str :: "SecretKind \<Rightarrow> string" where
  "SecretKind_as_str Manual = ''manual''"
| "SecretKind_as_str Automatic = ''automatic''"

definition SecretKind_parse :: "string \<Rightarrow> SecretKind option" where
  "SecretKind_parse value =
     (if value = ''manual'' then Some Manual
      else if value = ''automatic'' then Some Automatic
      else None)"

datatype SecretFormat = Opaque | Userpass

fun SecretFormat_as_str :: "SecretFormat \<Rightarrow> string" where
  "SecretFormat_as_str Opaque = ''opaque''"
| "SecretFormat_as_str Userpass = ''userpass''"

definition SecretFormat_parse :: "string \<Rightarrow> SecretFormat option" where
  "SecretFormat_parse value =
     (if value = ''opaque'' then Some Opaque
      else if value = ''userpass'' then Some Userpass
      else None)"

lemma SecretKind_parse_iff: "SecretKind_parse s = Some k \<longleftrightarrow> s = SecretKind_as_str k"
  by (cases k) (auto simp: SecretKind_parse_def)

lemma SecretFormat_parse_iff: "SecretFormat_parse s = Some f \<longleftrightarrow> s = SecretFormat_as_str f"
  by (cases f) (auto simp: SecretFormat_parse_def)

section \<open>Names and versions\<close>

definition MAX_SECRET_NAME_LEN :: nat where "MAX_SECRET_NAME_LEN = 255"
definition MIN_SECRET_VERSION :: i32 where "MIN_SECRET_VERSION = 1"

definition is_ascii_alphanumeric :: "char \<Rightarrow> bool" where
  "is_ascii_alphanumeric c \<longleftrightarrow>
     (CHR ''A'' \<le> c \<and> c \<le> CHR ''Z'') \<or> (CHR ''a'' \<le> c \<and> c \<le> CHR ''z'') \<or> is_ascii_digit c"

text \<open>
  The sources test every Unicode character of the name. A byte of a multi-byte character is
  at least 128 and never satisfies \<open>secret_name_char\<close>, so testing every byte of the UTF-8
  form accepts the same names.
\<close>

definition secret_name_char :: "char \<Rightarrow> bool" where
  "secret_name_char c \<longleftrightarrow>
     is_ascii_alphanumeric c \<or> c = CHR ''-'' \<or> c = CHR ''_'' \<or> c = CHR ''/'' \<or> c = CHR ''.''"

definition is_valid_secret_name :: "string \<Rightarrow> bool" where
  "is_valid_secret_name name \<longleftrightarrow>
     name \<noteq> [] \<and> length name \<le> MAX_SECRET_NAME_LEN \<and> list_all secret_name_char name"

definition is_valid_secret_version :: "i32 \<Rightarrow> bool" where
  "is_valid_secret_version version \<longleftrightarrow> MIN_SECRET_VERSION \<le> version"

definition is_normalized_secret_name :: "string \<Rightarrow> bool" where
  "is_normalized_secret_name name \<longleftrightarrow>
     is_valid_secret_name name
     \<and> \<not> starts_with ''/'' name
     \<and> strip_suffix ''/'' name = None
     \<and> list_all (\<lambda>segment. segment \<noteq> [] \<and> segment \<noteq> ''.'' \<and> segment \<noteq> ''..'')
         (split_on (CHR ''/'') name)"

definition aad_for :: "string \<Rightarrow> i32 \<Rightarrow> bytes" where
  "aad_for name version = as_bytes name @ as_bytes '':'' @ as_bytes (show_int version)"

section \<open>Facts\<close>

lemma secret_name_char_not_sep [simp]:
  "\<not> secret_name_char (CHR 0x00)" "\<not> secret_name_char (CHR 0x01)" "\<not> secret_name_char (CHR '':'')"
  by (simp_all add: secret_name_char_def is_ascii_alphanumeric_def is_ascii_digit_iff less_eq_char_def)

lemma valid_name_no_nul: "is_valid_secret_name name \<Longrightarrow> CHR 0x00 \<notin> set name"
  by (auto simp: is_valid_secret_name_def list_all_iff)

lemma valid_name_no_colon: "is_valid_secret_name name \<Longrightarrow> CHR '':'' \<notin> set name"
  by (auto simp: is_valid_secret_name_def list_all_iff)

text \<open>
  The associated data determines the secret name and the version, for every name and
  every version number: no two secret versions share it. The last colon separates, because a
  decimal number contains none.
\<close>

theorem aad_for_inject:
  "aad_for name version = aad_for name' version' \<longleftrightarrow> name = name' \<and> version = version'"
proof
  assume "aad_for name version = aad_for name' version'"
  then have eq: "name @ CHR '':'' # show_int version = name' @ CHR '':'' # show_int version'"
    unfolding aad_for_def by (simp flip: as_bytes_append)
  have no_colon: "CHR '':'' \<notin> set (show_int i)" for i
    using show_int_chars [of i] by (auto simp: list_all_iff)
  have split: "rsplit_once (CHR '':'') (n @ CHR '':'' # show_int v) = Some (n, show_int v)" for n v
    unfolding rsplit_once_Some using no_colon by blast
  have "Some (name, show_int version) = Some (name', show_int version')"
    unfolding split [symmetric] by (simp only: eq)
  then show "name = name' \<and> version = version'" by simp
qed simp

fun join_with :: "char \<Rightarrow> string list \<Rightarrow> string" where
  "join_with c [] = []"
| "join_with c [seg] = seg"
| "join_with c (seg # segs) = seg @ c # join_with c segs"

lemma join_split_on: "join_with c (split_on c s) = s"
proof (induction s)
  case IH: (Cons x xs)
  show ?case
  proof (cases "split_on c xs")
    case (Cons seg segs)
    with IH show ?thesis by (cases segs) auto
  qed simp
qed simp

lemma split_join_with:
  "segs \<noteq> [] \<Longrightarrow> \<forall>seg \<in> set segs. c \<notin> set seg \<Longrightarrow> split_on c (join_with c segs) = segs"
  by (induction c segs rule: join_with.induct) (auto simp: split_on_single split_on_append_sep)


definition name_segment :: "string \<Rightarrow> bool" where
  "name_segment seg \<longleftrightarrow> seg \<noteq> [] \<and> seg \<noteq> ''.'' \<and> seg \<noteq> ''..'' \<and>
     list_all (\<lambda>c. secret_name_char c \<and> c \<noteq> CHR ''/'') seg"

lemma join_with_chars:
  "set (join_with c segs) \<subseteq> insert c (\<Union> (set ` set segs))"
  by (induction c segs rule: join_with.induct) auto

lemma split_on_hd_Nil: "starts_with [c] s \<Longrightarrow> [] \<in> set (split_on c s)"
  by (cases s) (auto simp: starts_with_iff)

lemma split_on_last_Nil: "strip_suffix [c] s \<noteq> None \<Longrightarrow> [] \<in> set (split_on c s)"
  by (auto simp: strip_suffix_None split_on_append_sep [of c _ "[]"])

text \<open>
  The names \<open>validate_name\<close> lets through are exactly the slash-joined sequences of one
  or more segments, each a non-empty word over the allowed characters other than the slash
  and neither a single nor a double dot, of at most 255 bytes in all.
\<close>

theorem normalized_secret_name_iff:
  "is_normalized_secret_name name \<longleftrightarrow>
     length name \<le> 255 \<and>
     (\<exists>segs. segs \<noteq> [] \<and> list_all name_segment segs \<and> name = join_with (CHR ''/'') segs)"
proof
  assume norm: "is_normalized_secret_name name"
  let ?segs = "split_on (CHR ''/'') name"
  have "name_segment seg" if "seg \<in> set ?segs" for seg
    using norm that split_on_no_sep [OF that] set_split_on [OF _ that]
    by (auto simp: is_normalized_secret_name_def is_valid_secret_name_def name_segment_def list_all_iff)
  then have "?segs \<noteq> [] \<and> list_all name_segment ?segs \<and> name = join_with (CHR ''/'') ?segs"
    by (simp add: list_all_iff join_split_on)
  moreover have "length name \<le> 255"
    using norm by (simp add: is_normalized_secret_name_def is_valid_secret_name_def MAX_SECRET_NAME_LEN_def)
  ultimately show "length name \<le> 255 \<and>
      (\<exists>segs. segs \<noteq> [] \<and> list_all name_segment segs \<and> name = join_with (CHR ''/'') segs)" by blast
next
  assume "length name \<le> 255 \<and>
      (\<exists>segs. segs \<noteq> [] \<and> list_all name_segment segs \<and> name = join_with (CHR ''/'') segs)"
  then obtain segs where len: "length name \<le> 255" and ne: "segs \<noteq> []"
    and ok: "\<forall>seg \<in> set segs. name_segment seg" and name: "name = join_with (CHR ''/'') segs"
    by (auto simp: list_all_iff)
  have segs: "split_on (CHR ''/'') name = segs"
    using ok unfolding name
    by (intro split_join_with ne) (auto simp: name_segment_def list_all_iff)
  have Nil: "[] \<notin> set segs" using ok by (auto simp: name_segment_def)
  then have "name \<noteq> []" using segs by (cases name) (simp_all, metis list.set_intros(1))
  moreover have "list_all secret_name_char name"
    using join_with_chars [of "CHR ''/''" segs] ok unfolding name
    by (fastforce simp: list_all_iff name_segment_def secret_name_char_def)
  moreover have "\<not> starts_with ''/'' name" "strip_suffix ''/'' name = None"
    using Nil split_on_hd_Nil [of "CHR ''/''" name] split_on_last_Nil [of "CHR ''/''" name]
    unfolding segs by blast+
  moreover have "list_all (\<lambda>seg. seg \<noteq> [] \<and> seg \<noteq> ''.'' \<and> seg \<noteq> ''..'') segs"
    using ok by (auto simp: list_all_iff name_segment_def)
  ultimately show "is_normalized_secret_name name"
    using len unfolding is_normalized_secret_name_def is_valid_secret_name_def MAX_SECRET_NAME_LEN_def segs
    by blast
qed

text \<open>
  Printing and parsing of secret kinds and of secret formats are inverse to each other,
  and nothing but a printed value parses.
\<close>

theorem kind_format_roundtrip:
  "(SecretKind_parse s = Some k \<longleftrightarrow> s = SecretKind_as_str k) \<and>
   (SecretFormat_parse s = Some f \<longleftrightarrow> s = SecretFormat_as_str f)"
  by (simp add: SecretKind_parse_iff SecretFormat_parse_iff)

end
