(* ===== verification/Ordered_Table.thy ===== *)
theory Ordered_Table
  imports Vault_Prelude
begin

text \<open>
  The tables of the embedded key-value store. A redb table maps keys to values, iterates in
  ascending key order and answers half-open range scans; a table is represented here by the
  strictly sorted list of its rows, which is all its interface exposes. The interface itself
  is the locale \<open>ordered_table\<close>; the components' facts about clearing, refilling and
  scanning a table are proved in it once and used through its interpretation on the row lists.
\<close>

section \<open>The interface\<close>

locale ordered_table =
  fixes get :: "'t \<Rightarrow> 'k::linorder \<Rightarrow> 'v option"
    and ins :: "'k \<Rightarrow> 'v \<Rightarrow> 't \<Rightarrow> 't"
    and del :: "'k \<Rightarrow> 't \<Rightarrow> 't"
    and rows :: "'t \<Rightarrow> ('k \<times> 'v) list"
    and wf :: "'t \<Rightarrow> bool"
  assumes get_ins: "wf t \<Longrightarrow> get (ins k v t) = (get t)(k \<mapsto> v)"
    and get_del: "wf t \<Longrightarrow> get (del k t) = (get t)(k := None)"
    and wf_ins: "wf t \<Longrightarrow> wf (ins k v t)"
    and wf_del: "wf t \<Longrightarrow> wf (del k t)"
    and get_rows: "wf t \<Longrightarrow> map_of (rows t) = get t"
    and sorted_rows: "wf t \<Longrightarrow> sorted_wrt (<) (map fst (rows t))"
    and rows_inj: "wf t \<Longrightarrow> wf u \<Longrightarrow> rows t = rows u \<Longrightarrow> t = u"
begin

definition del_all :: "'k list \<Rightarrow> 't \<Rightarrow> 't" where
  "del_all ks t = fold del ks t"

definition ins_all :: "('k \<times> 'v) list \<Rightarrow> 't \<Rightarrow> 't" where
  "ins_all kvs t = fold (\<lambda>(k, v). ins k v) kvs t"

lemma wf_del_all: "wf t \<Longrightarrow> wf (del_all ks t)"
  unfolding del_all_def by (induction ks arbitrary: t) (auto simp: wf_del)

lemma get_del_all: "wf t \<Longrightarrow> get (del_all ks t) k = (if k \<in> set ks then None else get t k)"
  unfolding del_all_def by (induction ks arbitrary: t) (auto simp: wf_del get_del)

lemma wf_ins_all: "wf t \<Longrightarrow> wf (ins_all kvs t)"
  unfolding ins_all_def by (induction kvs arbitrary: t) (auto simp: wf_ins)

lemma get_ins_all: "wf t \<Longrightarrow> get (ins_all kvs t) = get t ++ map_of (rev kvs)"
proof (induction kvs arbitrary: t rule: rev_induct)
  case Nil
  then show ?case by (simp add: ins_all_def)
next
  case (snoc kv kvs)
  obtain k v where "kv = (k, v)" by (cases kv)
  then show ?case
    using snoc wf_ins_all [of t kvs]
    by (simp add: ins_all_def get_ins map_add_def fun_eq_iff)
qed

lemma keys_get: "wf t \<Longrightarrow> k \<in> set (map fst (rows t)) \<longleftrightarrow> get t k \<noteq> None"
  by (simp add: get_rows [symmetric] map_of_eq_None_iff image_iff)

lemma get_clear: "wf t \<Longrightarrow> get (del_all (map fst (rows t)) t) = Map.empty"
  using keys_get by (fastforce simp: get_del_all)

lemma distinct_rows: "wf t \<Longrightarrow> distinct (map fst (rows t))"
  using sorted_rows strict_sorted_iff by blast

lemma in_rows: "wf t \<Longrightarrow> (k, v) \<in> set (rows t) \<longleftrightarrow> get t k = Some v"
  by (simp add: get_rows [symmetric] distinct_rows)

text \<open>Two tables with the same contents are the same table.\<close>

lemma table_eqI:
  assumes "wf t" "wf u" "get t = get u"
  shows "t = u"
proof -
  have "set (rows t) = set (rows u)"
    using assms in_rows [OF assms(1)] in_rows [OF assms(2)] by auto
  then have "map fst (rows t) = map fst (rows u)"
    using sorted_rows [OF assms(1)] sorted_rows [OF assms(2)]
    by (metis list.set_map strict_sorted_equal strict_sorted_iff)
  moreover have "rows v = map (\<lambda>k. (k, the (get v k))) (map fst (rows v))" if "wf v" for v
    using in_rows [OF that] by (auto simp: o_def intro!: map_idI [symmetric])
  ultimately have "rows t = rows u"
    using assms by metis
  then show ?thesis by (rule rows_inj [OF assms(1,2)])
qed

lemma map_of_rev_rows: "wf u \<Longrightarrow> map_of (rev (rows u)) = get u"
proof -
  assume u: "wf u"
  have "map_of (rev (rows u)) k = Some v \<longleftrightarrow> get u k = Some v" for k v
    using distinct_rows [OF u] by (simp add: in_rows [OF u, symmetric] rev_map [symmetric])
  then show ?thesis by (metis ext not_Some_eq)
qed

text \<open>Clearing a table and inserting the rows of another copies it.\<close>

lemma refill:
  assumes "wf t" "wf u"
  shows "ins_all (rows u) (del_all (map fst (rows t)) t) = u"
proof (rule table_eqI)
  show "get (ins_all (rows u) (del_all (map fst (rows t)) t)) = get u"
    using assms by (simp add: get_ins_all wf_del_all get_clear map_of_rev_rows)
qed (use assms in \<open>simp_all add: wf_ins_all wf_del_all\<close>)

lemma ins_same: "wf t \<Longrightarrow> get t k = Some v \<Longrightarrow> ins k v t = t"
  by (rule table_eqI) (auto simp: wf_ins get_ins)

lemma del_absent: "wf t \<Longrightarrow> get t k = None \<Longrightarrow> del k t = t"
  by (rule table_eqI) (auto simp: wf_del get_del)

end

section \<open>Row lists\<close>

type_synonym ('k, 'v) table = "('k \<times> 'v) list"

definition twf :: "('k::linorder, 'v) table \<Rightarrow> bool" where
  "twf t \<longleftrightarrow> sorted_wrt (<) (map fst t)"

definition tget :: "('k, 'v) table \<Rightarrow> 'k \<Rightarrow> 'v option" where
  "tget t k = map_of t k"

fun tinsert :: "'k::linorder \<Rightarrow> 'v \<Rightarrow> ('k, 'v) table \<Rightarrow> ('k, 'v) table" where
  "tinsert k v [] = [(k, v)]"
| "tinsert k v (row # t) =
     (if k < fst row then (k, v) # row # t
      else if k = fst row then (k, v) # t
      else row # tinsert k v t)"

definition tremove :: "'k \<Rightarrow> ('k, 'v) table \<Rightarrow> ('k, 'v) table" where
  "tremove k t = filter (\<lambda>row. fst row \<noteq> k) t"

definition tkeys :: "('k, 'v) table \<Rightarrow> 'k list" where
  "tkeys t = map fst t"

definition trange :: "('k::linorder \<Rightarrow> bool) \<Rightarrow> ('k, 'v) table \<Rightarrow> ('k, 'v) table" where
  "trange p t = filter (\<lambda>row. p (fst row)) t"

definition tremove_all :: "'k list \<Rightarrow> ('k, 'v) table \<Rightarrow> ('k, 'v) table" where
  "tremove_all ks t = fold tremove ks t"

definition tinsert_all :: "('k::linorder \<times> 'v) list \<Rightarrow> ('k, 'v) table \<Rightarrow> ('k, 'v) table" where
  "tinsert_all kvs t = fold (\<lambda>(k, v). tinsert k v) kvs t"

lemma set_tinsert: "fst ` set (tinsert k v t) = insert k (fst ` set t)"
  by (induction t) auto

lemma twf_tinsert: "twf t \<Longrightarrow> twf (tinsert k v t)"
  unfolding twf_def
proof (induction t)
  case (Cons row t)
  then have "\<forall>x \<in> fst ` set (tinsert k v t). fst row < x" if "\<not> k < fst row" "k \<noteq> fst row"
    using that by (auto simp: set_tinsert)
  then show ?case using Cons by (force intro: less_trans)
qed simp

lemma map_of_tinsert: "twf t \<Longrightarrow> map_of (tinsert k v t) = (map_of t)(k \<mapsto> v)"
  by (induction t) (auto simp: twf_def fun_eq_iff)

lemma map_of_tremove: "map_of (tremove k t) = (map_of t)(k := None)"
  by (induction t) (auto simp: tremove_def fun_eq_iff)

lemma sorted_wrt_map_filter: "sorted_wrt r (map f xs) \<Longrightarrow> sorted_wrt r (map f (filter p xs))"
  by (induction xs) auto

interpretation tbl: ordered_table tget tinsert tremove "\<lambda>t. t" twf
proof
  fix t :: "('a, 'b) table" and k v
  assume "twf t"
  then show "tget (tinsert k v t) = (tget t)(k \<mapsto> v)"
    by (simp add: tget_def [abs_def] map_of_tinsert)
  show "tget (tremove k t) = (tget t)(k := None)"
    by (simp add: tget_def [abs_def] map_of_tremove)
  show "twf (tinsert k v t)" by (rule twf_tinsert) fact
  show "twf (tremove k t)"
    using \<open>twf t\<close> unfolding twf_def tremove_def by (rule sorted_wrt_map_filter)
  show "map_of t = tget t" by (simp add: tget_def [abs_def])
  show "sorted_wrt (<) (map fst t)" using \<open>twf t\<close> by (simp add: twf_def)
qed auto

lemma tremove_all_eq: "tremove_all = tbl.del_all"
  by (simp add: fun_eq_iff tremove_all_def tbl.del_all_def)

lemma tinsert_all_eq: "tinsert_all = tbl.ins_all"
  by (simp add: fun_eq_iff tinsert_all_def tbl.ins_all_def)

lemma tget_Nil [simp]: "tget [] = Map.empty"
  by (simp add: tget_def [abs_def])

lemma twf_Nil [simp]: "twf []"
  by (simp add: twf_def)

lemma twf_trange [simp]: "twf t \<Longrightarrow> twf (trange p t)"
  unfolding twf_def trange_def by (rule sorted_wrt_map_filter)

lemma tget_trange: "tget (trange p t) k = (if p k then tget t k else None)"
  by (induction t) (auto simp: trange_def tget_def)

lemma tkeys_get: "twf t \<Longrightarrow> k \<in> set (tkeys t) \<longleftrightarrow> tget t k \<noteq> None"
  unfolding tkeys_def by (rule tbl.keys_get)

lemmas table_laws [table_simps] =
  tbl.get_ins tbl.get_del tbl.wf_ins tbl.wf_del
  tbl.get_del_all [folded tremove_all_eq] tbl.wf_del_all [folded tremove_all_eq]
  tbl.get_ins_all [folded tinsert_all_eq] tbl.wf_ins_all [folded tinsert_all_eq]

lemmas trefill = tbl.refill [folded tremove_all_eq tinsert_all_eq]
lemmas ttable_eqI = tbl.table_eqI
lemmas tin_rows = tbl.in_rows
lemmas tdistinct = tbl.distinct_rows
lemmas tins_same = tbl.ins_same
lemmas tdel_absent = tbl.del_absent

end
