(* ===== verification/Store_Model.thy ===== *)
theory Store_Model
  imports Core_Types Ordered_Table
begin

text \<open>
  \<open>store/model.rs\<close>, \<open>store/codec.rs\<close>, and the table definitions of
  \<open>store/engine.rs\<close>: the stored records, the commands, the errors, and the database.

  Rows are stored as JSON bytes. The JSON library is a parameter: \<open>'b\<close> is the type of
  encoded rows and a \<open>'b codec\<close> holds the encoder and the decoder of each record type;
  a decoder returns None on bytes that are not an encoding. \<open>codec_ok\<close> is what the code
  relies on: a decoder returns the record that was encoded.

  Error values keep the call site and the values it formats instead of the rendered text.
\<close>

section \<open>Records\<close>

record PgRoleTarget =
  pg_hosts :: "string list"
  pg_database :: string
  pg_role :: "string option"
  pg_login_secret :: "string option"

datatype RotationTarget = PgReplica PgRoleTarget

definition default_pg_database :: string where
  "default_pg_database = ''postgres''"

record SecretRecord =
  sr_name :: string
  sr_kind :: SecretKind
  sr_format :: SecretFormat
  sr_description :: "string option"
  sr_rotation_interval_secs :: "i64 option"
  sr_grace_secs :: i64
  sr_current_version :: i32
  sr_next_rotation_at :: "i64 option"
  sr_created_at :: i64
  sr_updated_at :: i64
  sr_target :: "RotationTarget option"

record VersionRecord =
  vr_version :: i32
  vr_kms_key_id :: string
  vr_wrapped_dek :: bytes
  vr_nonce :: bytes
  vr_ciphertext :: bytes
  vr_aad :: bytes
  vr_created_at :: i64
  vr_expires_at :: "i64 option"
  vr_wrapped_rotation_at :: "i64 option"

record RoleRecord =
  rr_name :: string
  rr_description :: "string option"
  rr_is_admin :: bool
  rr_permissions :: "(string \<times> string) list"
  rr_created_at :: i64

record TokenRecord =
  tr_name :: string
  tr_role :: "string option"
  tr_fingerprint :: bytes
  tr_created_at :: i64
  tr_last_used_at :: "i64 option"
  tr_revoked_at :: "i64 option"

record LockoutRecord =
  lr_failures :: u32
  lr_window_start :: i64
  lr_locked_until :: "i64 option"

record AuditEntry =
  ae_at :: i64
  ae_actor :: "string option"
  ae_client_ip :: "string option"
  ae_action :: string
  ae_secret_name :: "string option"
  ae_outcome :: string
  ae_node_id :: u64

record KmsRewrapState =
  ks_last_completed_rotation_at :: i64
  ks_last_swept_at :: i64
  ks_updated_at :: i64

datatype NextRotation = Keep | Set "i64 option"

record 'b BackupData =
  bd_version :: u32
  bd_secrets :: "(string \<times> 'b) list"
  bd_versions :: "(string \<times> 'b) list"
  bd_roles :: "(string \<times> 'b) list"
  bd_tokens :: "(bytes \<times> 'b) list"
  bd_tokens_by_name :: "(string \<times> bytes) list"
  bd_audit :: "(u64 \<times> 'b) list"
  bd_kms_rewrap :: "(string \<times> 'b) list"

section \<open>Commands and errors\<close>

datatype 'b Command =
    CreateSecret SecretRecord VersionRecord
  | PutVersion (pv_name: string) (pv_expected_current: i32) (pv_version: VersionRecord)
      (pv_supersede_expires_at: "i64 option") (pv_set_description: "string option")
      (pv_set_rotation_interval_secs: "i64 option") (pv_set_grace_secs: "i64 option")
      (pv_next_rotation_at: NextRotation) (pv_updated_at: i64)
  | UpdateMeta (um_name: string) (um_expected_current: i32) (um_set_description: "string option")
      (um_set_rotation_interval_secs: "i64 option") (um_set_grace_secs: "i64 option")
      (um_next_rotation_at: NextRotation) (um_updated_at: i64)
  | DeleteSecret string
  | CreateRole RoleRecord
  | SetPermissions string "(string \<times> string) list"
  | DeleteRole string
  | AddToken TokenRecord
  | RevokeToken string i64
  | TouchToken bytes i64
  | ExpireGraceVersions i64
  | RewrapVersion string i32 string bytes i64
  | SetKmsRewrapState KmsRewrapState
  | AppendAudit AuditEntry
  | RestoreDatabase "'b BackupData"
  | RecordAuthFailure string i64 u32 i64 i64

definition is_local :: "'b Command \<Rightarrow> bool" where
  "is_local command =
     (case command of AppendAudit _ \<Rightarrow> True | RecordAuthFailure _ _ _ _ _ \<Rightarrow> True | _ \<Rightarrow> False)"

datatype restore_error =
    UnsupportedBackupVersion u32
  | BackupInvalidName string
  | BackupInvalidVersionKey string
  | BackupAuditKeyTooLarge u64

datatype conflict =
    VersionBelowMinimum i32
  | NameOutsideCharset string
  | SecretExists string
  | RoleExists string
  | RoleStillHasTokens string
  | FingerprintExists
  | TokenExists string
  | AuditKeySpaceExhausted
  | RestoreRefused restore_error

datatype internal = DecodeFailed | RestoreFailed restore_error | NoLeader | RaftFailed | ForwardFailed | LeaderRejected nat

datatype StoreError =
    NotFound
  | Conflict conflict
  | VersionConflict
  | Internal internal

type_synonym 'a StoreResult = "StoreError + 'a"

section \<open>Encoded rows\<close>

record 'b codec =
  enc_secret :: "SecretRecord \<Rightarrow> 'b"
  dec_secret :: "'b \<Rightarrow> SecretRecord option"
  enc_version :: "VersionRecord \<Rightarrow> 'b"
  dec_version :: "'b \<Rightarrow> VersionRecord option"
  enc_role :: "RoleRecord \<Rightarrow> 'b"
  dec_role :: "'b \<Rightarrow> RoleRecord option"
  enc_token :: "TokenRecord \<Rightarrow> 'b"
  dec_token :: "'b \<Rightarrow> TokenRecord option"
  enc_lockout :: "LockoutRecord \<Rightarrow> 'b"
  dec_lockout :: "'b \<Rightarrow> LockoutRecord option"
  enc_audit :: "AuditEntry \<Rightarrow> 'b"
  dec_audit :: "'b \<Rightarrow> AuditEntry option"
  enc_kms :: "KmsRewrapState \<Rightarrow> 'b"
  dec_kms :: "'b \<Rightarrow> KmsRewrapState option"

definition codec_ok :: "'b codec \<Rightarrow> bool" where
  "codec_ok cd \<longleftrightarrow>
     (\<forall>x. dec_secret cd (enc_secret cd x) = Some x) \<and>
     (\<forall>x. dec_version cd (enc_version cd x) = Some x) \<and>
     (\<forall>x. dec_role cd (enc_role cd x) = Some x) \<and>
     (\<forall>x. dec_token cd (enc_token cd x) = Some x) \<and>
     (\<forall>x. dec_lockout cd (enc_lockout cd x) = Some x) \<and>
     (\<forall>x. dec_audit cd (enc_audit cd x) = Some x) \<and>
     (\<forall>x. dec_kms cd (enc_kms cd x) = Some x)"

lemma codec_okD:
  assumes "codec_ok cd"
  shows "dec_secret cd (enc_secret cd s) = Some s" "dec_version cd (enc_version cd v) = Some v"
    "dec_role cd (enc_role cd r) = Some r" "dec_token cd (enc_token cd t) = Some t"
    "dec_lockout cd (enc_lockout cd l) = Some l" "dec_audit cd (enc_audit cd a) = Some a"
    "dec_kms cd (enc_kms cd k) = Some k"
  using assms by (simp_all add: codec_ok_def)

section \<open>The database\<close>

record 'b db =
  SECRETS :: "(string, 'b) table"
  VERSIONS :: "(string, 'b) table"
  ROLES :: "(string, 'b) table"
  TOKENS :: "(bytes, 'b) table"
  TOKENS_BY_NAME :: "(string, bytes) table"
  LOCKOUTS :: "(string, 'b) table"
  AUDIT :: "(u64, 'b) table"
  KMS_REWRAP :: "(string, 'b) table"

definition KMS_REWRAP_STATE_KEY :: string where
  "KMS_REWRAP_STATE_KEY = ''state''"

definition MAX_AUDIT_KEY :: u64 where
  "MAX_AUDIT_KEY = push_bit 52 1"

definition empty_db :: "'b db" where
  "empty_db = \<lparr>SECRETS = [], VERSIONS = [], ROLES = [], TOKENS = [], TOKENS_BY_NAME = [],
               LOCKOUTS = [], AUDIT = [], KMS_REWRAP = []\<rparr>"

text \<open>Every table of a database holds its rows in key order, without duplicates.\<close>

definition db_wf :: "'b db \<Rightarrow> bool" where
  "db_wf d \<longleftrightarrow> twf (SECRETS d) \<and> twf (VERSIONS d) \<and> twf (ROLES d) \<and> twf (TOKENS d) \<and>
     twf (TOKENS_BY_NAME d) \<and> twf (LOCKOUTS d) \<and> twf (AUDIT d) \<and> twf (KMS_REWRAP d)"

lemma db_wfD [dest]:
  assumes "db_wf d"
  shows "twf (SECRETS d)" "twf (VERSIONS d)" "twf (ROLES d)" "twf (TOKENS d)"
    "twf (TOKENS_BY_NAME d)" "twf (LOCKOUTS d)" "twf (AUDIT d)" "twf (KMS_REWRAP d)"
  using assms by (simp_all add: db_wf_def)

lemma db_wf_empty [simp]: "db_wf empty_db"
  by (simp add: db_wf_def empty_db_def)

text \<open>A concrete row type and codec, one constructor per record type.\<close>

datatype row =
    RowSecret SecretRecord
  | RowVersion VersionRecord
  | RowRole RoleRecord
  | RowToken TokenRecord
  | RowLockout LockoutRecord
  | RowAudit AuditEntry
  | RowKms KmsRewrapState
  | RowGarbage

definition row_codec :: "row codec" where
  "row_codec =
     \<lparr>enc_secret = RowSecret, dec_secret = (\<lambda>r. case r of RowSecret x \<Rightarrow> Some x | _ \<Rightarrow> None),
      enc_version = RowVersion, dec_version = (\<lambda>r. case r of RowVersion x \<Rightarrow> Some x | _ \<Rightarrow> None),
      enc_role = RowRole, dec_role = (\<lambda>r. case r of RowRole x \<Rightarrow> Some x | _ \<Rightarrow> None),
      enc_token = RowToken, dec_token = (\<lambda>r. case r of RowToken x \<Rightarrow> Some x | _ \<Rightarrow> None),
      enc_lockout = RowLockout, dec_lockout = (\<lambda>r. case r of RowLockout x \<Rightarrow> Some x | _ \<Rightarrow> None),
      enc_audit = RowAudit, dec_audit = (\<lambda>r. case r of RowAudit x \<Rightarrow> Some x | _ \<Rightarrow> None),
      enc_kms = RowKms, dec_kms = (\<lambda>r. case r of RowKms x \<Rightarrow> Some x | _ \<Rightarrow> None)\<rparr>"

lemma row_codec_simps [simp]:
  "enc_secret row_codec = RowSecret" "dec_secret row_codec (RowSecret s) = Some s"
  "enc_version row_codec = RowVersion" "dec_version row_codec (RowVersion v) = Some v"
  "enc_role row_codec = RowRole" "dec_role row_codec (RowRole r) = Some r"
  "enc_token row_codec = RowToken" "dec_token row_codec (RowToken t) = Some t"
  "enc_lockout row_codec = RowLockout" "dec_lockout row_codec (RowLockout l) = Some l"
  "enc_audit row_codec = RowAudit" "dec_audit row_codec (RowAudit a) = Some a"
  "enc_kms row_codec = RowKms" "dec_kms row_codec (RowKms k) = Some k"
  by (simp_all add: row_codec_def)

lemma row_codec_ok [simp]: "codec_ok row_codec"
  by (simp add: codec_ok_def)

end
