(* ===== verification/Store_Keys.thy ===== *)
theory Store_Keys
  imports Store_Model
begin

text \<open>
  The version keys of \<open>store/engine.rs\<close>: the version table holds the rows of all secrets
  under \<open>name NUL version\<close> with the version in ten digits, and the rows of one secret are
  found by a byte range scan that re-parses every key.
\<close>

section \<open>Keys\<close>

definition VERSION_FIELD_WIDTH :: nat where "VERSION_FIELD_WIDTH = 10"

definition version_key :: "string \<Rightarrow> i32 \<Rightarrow> string" where
  "version_key name version = name @ [CHR 0x00] @ show_int_pad 10 version"

definition version_lower :: "string \<Rightarrow> string" where
  "version_lower name = name @ [CHR 0x00]"

definition version_upper :: "string \<Rightarrow> string" where
  "version_upper name = name @ [CHR 0x01]"

definition split_version_key :: "string \<Rightarrow> (string \<times> i32) option" where
  "split_version_key key =
     (case split_once (CHR 0x00) key of
        None \<Rightarrow> None
      | Some (name, rest) \<Rightarrow>
          (if length rest \<noteq> VERSION_FIELD_WIDTH \<or> \<not> list_all is_ascii_digit rest then None
           else (case parse_i32 rest of None \<Rightarrow> None | Some version \<Rightarrow> Some (name, version))))"

definition version_from_key :: "string \<Rightarrow> string \<Rightarrow> i32 option" where
  "version_from_key name key =
     (case split_version_key key of
        None \<Rightarrow> None
      | Some (parsed, version) \<Rightarrow> (if parsed = name then Some version else None))"

definition in_version_range :: "string \<Rightarrow> string \<Rightarrow> bool" where
  "in_version_range name key \<longleftrightarrow> version_lower name \<le> key \<and> key < version_upper name"

section \<open>Parsing inverts printing\<close>

lemma show_int_pad_version:
  assumes "0 \<le> v" "v \<le> i32_max"
  shows "length (show_int_pad 10 v) = 10" "list_all is_ascii_digit (show_int_pad 10 v)"
    "digits_val (show_int_pad 10 v) = nat v"
proof -
  have "length (show_nat (nat v)) \<le> Suc 9"
    using assms by (intro length_show_nat) (simp add: i32_max_def nat_less_iff)
  then show "length (show_int_pad 10 v) = 10" using assms by (simp add: show_int_pad_def)
qed (use assms in \<open>simp_all add: show_int_pad_def show_nat_digits\<close>)

lemma digits_unique:
  assumes "length ds = length es" "list_all is_ascii_digit ds" "list_all is_ascii_digit es"
    and "digits_val ds = digits_val es"
  shows "ds = es"
  using digits_less_iff [OF assms(1-3)] digits_less_iff [OF assms(1)[symmetric] assms(3,2)] assms(4)
  by (metis less_irrefl_nat linorder_neqE)

lemma split_version_key_iff:
  "split_version_key key = Some (name, v) \<longleftrightarrow>
     CHR 0x00 \<notin> set name \<and> 0 \<le> v \<and> v \<le> i32_max \<and> key = version_key name v"
proof
  assume "split_version_key key = Some (name, v)"
  then obtain rest where k: "key = name @ CHR 0x00 # rest" "CHR 0x00 \<notin> set name"
    and r: "length rest = 10" "list_all is_ascii_digit rest" "parse_i32 rest = Some v"
    by (auto simp: split_version_key_def VERSION_FIELD_WIDTH_def split_once_Some
        split: option.splits if_splits)
  have "rest \<noteq> []" using r(1) by auto
  then have v: "v = int (digits_val rest)" "v \<le> i32_max"
    using r(2,3) by (auto simp: parse_i32_digits split: if_splits)
  then have "0 \<le> v" by simp
  moreover have "show_int_pad 10 v = rest"
    using show_int_pad_version [OF \<open>0 \<le> v\<close> v(2)] r(1,2) v(1)
    by (intro digits_unique) simp_all
  ultimately show "CHR 0x00 \<notin> set name \<and> 0 \<le> v \<and> v \<le> i32_max \<and> key = version_key name v"
    using k v(2) by (simp add: version_key_def)
next
  assume a: "CHR 0x00 \<notin> set name \<and> 0 \<le> v \<and> v \<le> i32_max \<and> key = version_key name v"
  let ?rest = "show_int_pad 10 v"
  have split: "split_once (CHR 0x00) key = Some (name, ?rest)"
    using a by (simp add: split_once_Some version_key_def)
  have rest: "length ?rest = 10" "list_all is_ascii_digit ?rest" "digits_val ?rest = nat v"
    using a show_int_pad_version by blast+
  then have "?rest \<noteq> []" by auto
  with rest have "parse_i32 ?rest = Some v" using a by (simp add: parse_i32_digits)
  with split rest show "split_version_key key = Some (name, v)"
    by (simp add: split_version_key_def VERSION_FIELD_WIDTH_def)
qed

lemma version_from_key_iff:
  "version_from_key name key = Some v \<longleftrightarrow>
     CHR 0x00 \<notin> set name \<and> 0 \<le> v \<and> v \<le> i32_max \<and> key = version_key name v"
  unfolding split_version_key_iff [symmetric]
  by (auto simp: version_from_key_def split: option.splits)

lemma version_key_inject:
  assumes "CHR 0x00 \<notin> set n" "CHR 0x00 \<notin> set m"
  shows "version_key n v = version_key m w \<Longrightarrow> n = m"
proof -
  assume "version_key n v = version_key m w"
  moreover have "split_once (CHR 0x00) (version_key k u) = Some (k, show_int_pad 10 u)"
    if "CHR 0x00 \<notin> set k" for k u
    using that by (simp add: split_once_Some version_key_def)
  ultimately show "n = m" using assms by (metis option.inject prod.inject)
qed

section \<open>Key order\<close>

lemma append_less_iff: "(p @ xs < p @ ys) \<longleftrightarrow> xs < (ys :: string)"
  by (induction p) auto

lemma append_le_iff: "(p @ xs \<le> p @ ys) \<longleftrightarrow> xs \<le> (ys :: string)"
  by (induction p) auto

lemma version_key_less_iff:
  assumes "0 \<le> v" "v \<le> i32_max" "0 \<le> w" "w \<le> i32_max"
  shows "version_key name v < version_key name w \<longleftrightarrow> v < w"
  using digits_less_iff [of "show_int_pad 10 v" "show_int_pad 10 w"]
    show_int_pad_version [OF assms(1,2)] show_int_pad_version [OF assms(3,4)] assms
  by (auto simp: version_key_def append_less_iff)

lemma version_key_in_range: "in_version_range name (version_key name v)"
proof -
  have "CHR 0x00 < (CHR 0x01 :: char)" by (simp add: less_char_def)
  then show ?thesis
    by (simp add: in_version_range_def version_lower_def version_upper_def version_key_def
        append_le_iff append_less_iff)
qed

section \<open>The scan interface\<close>

text \<open>
  What the readers and writers of the version table rely on: keys of well-formed versions
  parse back, a parsed key is the key of that secret and version, it lies in the range that
  is scanned for the secret, and it parses for no other secret.
\<close>

locale version_scan =
  fixes key :: "string \<Rightarrow> i32 \<Rightarrow> string"
    and parse :: "string \<Rightarrow> string \<Rightarrow> i32 option"
    and in_scan :: "string \<Rightarrow> string \<Rightarrow> bool"
    and good :: "string \<Rightarrow> i32 \<Rightarrow> bool"
  assumes parse_key: "good n v \<Longrightarrow> parse n (key n v) = Some v"
    and parse_sound: "parse n k = Some v \<Longrightarrow> k = key n v \<and> good n v"
    and parse_in_scan: "parse n k = Some v \<Longrightarrow> in_scan n k"
    and parse_owner: "parse n k = Some v \<Longrightarrow> parse m k = Some w \<Longrightarrow> n = m"
begin

definition own_rows :: "string \<Rightarrow> (string, 'r) table \<Rightarrow> (string, 'r) table" where
  "own_rows n t = filter (\<lambda>row. parse n (fst row) \<noteq> None) (trange (in_scan n) t)"

lemma own_rows_filter: "own_rows n t = filter (\<lambda>row. parse n (fst row) \<noteq> None) t"
  unfolding own_rows_def trange_def filter_filter
  by (rule filter_cong) (auto dest: parse_in_scan)

lemma in_own_rows:
  "twf t \<Longrightarrow> (k, r) \<in> set (own_rows n t) \<longleftrightarrow> tget t k = Some r \<and> (\<exists>v. good n v \<and> k = key n v)"
  by (auto simp: own_rows_filter tin_rows dest: parse_sound parse_key)

lemma tget_remove_own:
  "twf t \<Longrightarrow> tget (tremove_all (map fst (own_rows n t)) t) k =
     (if parse n k = None then tget t k else None)"
proof -
  assume t: "twf t"
  have "k \<in> set (map fst (own_rows n t)) \<longleftrightarrow> parse n k \<noteq> None \<and> tget t k \<noteq> None"
    by (force simp: own_rows_filter tin_rows [OF t, symmetric] image_iff)
  then show ?thesis by (auto simp: table_simps t)
qed

lemma remove_own_frame:
  assumes "twf t" "good m v" "m \<noteq> n"
  shows "tget (tremove_all (map fst (own_rows n t)) t) (key m v) = tget t (key m v)"
  using parse_owner [OF parse_key [OF assms(2)]] assms by (auto simp: tget_remove_own)

lemma remove_own_gone:
  assumes "twf t" "good n v"
  shows "tget (tremove_all (map fst (own_rows n t)) t) (key n v) = None"
  using parse_key [OF assms(2)] assms(1) by (simp add: tget_remove_own)

end

definition good_version :: "string \<Rightarrow> i32 \<Rightarrow> bool" where
  "good_version name v \<longleftrightarrow> CHR 0x00 \<notin> set name \<and> 0 \<le> v \<and> v \<le> i32_max"

interpretation vs: version_scan version_key version_from_key in_version_range good_version
proof
  fix n k v
  assume "version_from_key n k = Some v"
  then show "k = version_key n v \<and> good_version n v"
    by (simp add: version_from_key_iff good_version_def)
  then show "in_version_range n k" by (simp add: version_key_in_range)
next
  fix n m k v w
  assume "version_from_key n k = Some v" "version_from_key m k = Some w"
  then show "n = m" by (auto simp: version_from_key_iff dest: version_key_inject)
qed (simp add: version_from_key_iff good_version_def)

lemma good_versionI:
  "is_valid_secret_name name \<Longrightarrow> is_valid_secret_version v \<Longrightarrow> v \<le> i32_max \<Longrightarrow> good_version name v"
  by (simp add: good_version_def valid_name_no_nul is_valid_secret_version_def MIN_SECRET_VERSION_def)

text \<open>
  The version key is an order isomorphism on the version numbers of a secret and parses
  back to the secret and the version; and a key parses only if it is the key of the name and
  version it parses to. So every row of the version table belongs to at most one secret.
\<close>

theorem version_key_roundtrip:
  assumes "is_valid_secret_name name" "is_valid_secret_version v" "v \<le> i32_max"
    and "is_valid_secret_version w" "w \<le> i32_max"
  shows "split_version_key (version_key name v) = Some (name, v) \<and>
         (version_key name v < version_key name w \<longleftrightarrow> v < w) \<and>
         (split_version_key key = Some (name', v') \<longrightarrow> key = version_key name' v')"
  using assms good_versionI [of name v] version_key_less_iff [of v w name]
  by (auto simp: split_version_key_iff good_version_def is_valid_secret_version_def MIN_SECRET_VERSION_def)

theorem version_key_roundtrip_witness:
  "split_version_key (version_key ''db/password'' 7) = Some (''db/password'', 7) \<and>
   version_key ''db/password'' 7 < version_key ''db/password'' 10"
  using version_key_roundtrip [of "''db/password''" 7 10 "version_key ''db/password'' 7" "''db/password''" 7]
  by (simp add: is_valid_secret_name_def MAX_SECRET_NAME_LEN_def secret_name_char_def
       is_ascii_alphanumeric_def is_ascii_digit_iff less_eq_char_def
       is_valid_secret_version_def MIN_SECRET_VERSION_def i32_max_def)

end
