(* ===== verification/Store_Backup.thy ===== *)
theory Store_Backup
  imports Store_Keys
begin

text \<open>
  \<open>store/backup.rs\<close>: dumping the replicated tables into a backup, validating a backup, and
  replacing the tables by the rows of a backup. The lockout table is in no backup.
\<close>

section \<open>Definitions\<close>

definition BACKUP_VERSION :: u32 where "BACKUP_VERSION = 1"

definition dump_str :: "(string, 'v) table \<Rightarrow> (string \<times> 'v) list" where
  "dump_str table = map (\<lambda>(key, value). (key, value)) table"

definition dump_bytes :: "(bytes, 'v) table \<Rightarrow> (bytes \<times> 'v) list" where
  "dump_bytes table = map (\<lambda>(key, value). (key, value)) table"

definition dump_u64 :: "(u64, 'v) table \<Rightarrow> (u64 \<times> 'v) list" where
  "dump_u64 table = map (\<lambda>(key, value). (key, value)) table"

definition dump_database :: "'b db \<Rightarrow> 'b BackupData" where
  "dump_database d =
     \<lparr>bd_version = BACKUP_VERSION,
      bd_secrets = dump_str (SECRETS d),
      bd_versions = dump_str (VERSIONS d),
      bd_roles = dump_str (ROLES d),
      bd_tokens = dump_bytes (TOKENS d),
      bd_tokens_by_name = dump_str (TOKENS_BY_NAME d),
      bd_audit = dump_u64 (AUDIT d),
      bd_kms_rewrap = dump_str (KMS_REWRAP d)\<rparr>"

text \<open>A restore removes every key the table has, then inserts the rows in order.\<close>

definition restore_str :: "(string \<times> 'v) list \<Rightarrow> (string, 'v) table \<Rightarrow> (string, 'v) table" where
  "restore_str rows table = tinsert_all rows (tremove_all (tkeys table) table)"

definition restore_bytes :: "(bytes \<times> 'v) list \<Rightarrow> (bytes, 'v) table \<Rightarrow> (bytes, 'v) table" where
  "restore_bytes rows table = tinsert_all rows (tremove_all (tkeys table) table)"

definition restore_u64 :: "(u64 \<times> 'v) list \<Rightarrow> (u64, 'v) table \<Rightarrow> (u64, 'v) table" where
  "restore_u64 rows table = tinsert_all rows (tremove_all (tkeys table) table)"

fun check_backup_names :: "(string \<times> 'v) list \<Rightarrow> restore_error + unit" where
  "check_backup_names [] = Inr ()"
| "check_backup_names ((name, _) # rows) =
     (if \<not> is_valid_secret_name name then Inl (BackupInvalidName name)
      else check_backup_names rows)"

fun check_backup_version_keys :: "(string \<times> 'v) list \<Rightarrow> restore_error + unit" where
  "check_backup_version_keys [] = Inr ()"
| "check_backup_version_keys ((key, _) # rows) =
     (case split_version_key key of
        Some (name, version) \<Rightarrow>
          (if is_valid_secret_name name \<and> is_valid_secret_version version
           then check_backup_version_keys rows else Inl (BackupInvalidVersionKey key))
      | None \<Rightarrow> Inl (BackupInvalidVersionKey key))"

fun check_backup_audit_keys :: "(u64 \<times> 'v) list \<Rightarrow> restore_error + unit" where
  "check_backup_audit_keys [] = Inr ()"
| "check_backup_audit_keys ((key, _) # rows) =
     (if key > MAX_AUDIT_KEY then Inl (BackupAuditKeyTooLarge key)
      else check_backup_audit_keys rows)"

definition check_secret_rows :: "'b BackupData \<Rightarrow> restore_error + unit" where
  "check_secret_rows data =
     (case check_backup_names (bd_secrets data) of
        Inl e \<Rightarrow> Inl e
      | Inr _ \<Rightarrow>
          (case check_backup_version_keys (bd_versions data) of
             Inl e \<Rightarrow> Inl e
           | Inr _ \<Rightarrow> check_backup_audit_keys (bd_audit data)))"

definition restore_tables :: "'b BackupData \<Rightarrow> 'b db \<Rightarrow> (restore_error + unit) \<times> 'b db" where
  "restore_tables data d =
     (if bd_version data \<noteq> BACKUP_VERSION
      then (Inl (UnsupportedBackupVersion (bd_version data)), d)
      else
        (case check_secret_rows data of
           Inl e \<Rightarrow> (Inl e, d)
         | Inr _ \<Rightarrow>
             (Inr (),
              d\<lparr>SECRETS := restore_str (bd_secrets data) (SECRETS d),
                VERSIONS := restore_str (bd_versions data) (VERSIONS d),
                ROLES := restore_str (bd_roles data) (ROLES d),
                TOKENS_BY_NAME := restore_str (bd_tokens_by_name data) (TOKENS_BY_NAME d),
                TOKENS := restore_bytes (bd_tokens data) (TOKENS d),
                AUDIT := restore_u64 (bd_audit data) (AUDIT d),
                KMS_REWRAP := restore_str (bd_kms_rewrap data) (KMS_REWRAP d)\<rparr>)))"

text \<open>The write transaction is committed only when the restore succeeded.\<close>

definition restore_database :: "'b BackupData \<Rightarrow> 'b db \<Rightarrow> (restore_error + unit) \<times> 'b db" where
  "restore_database data d =
     (case restore_tables data d of (Inl e, _) \<Rightarrow> (Inl e, d) | (Inr _, d') \<Rightarrow> (Inr (), d'))"

section \<open>Validation\<close>

text \<open>
  What the secret, version and audit tables must look like for a backup of them to be accepted.
\<close>

definition secret_keys_ok :: "string list \<Rightarrow> bool" where
  "secret_keys_ok ks \<longleftrightarrow> list_all is_valid_secret_name ks"

definition version_keys_ok :: "string list \<Rightarrow> bool" where
  "version_keys_ok ks \<longleftrightarrow>
     list_all (\<lambda>k. case split_version_key k of
        Some (n, v) \<Rightarrow> is_valid_secret_name n \<and> is_valid_secret_version v | None \<Rightarrow> False) ks"

definition audit_keys_ok :: "u64 list \<Rightarrow> bool" where
  "audit_keys_ok ks \<longleftrightarrow> list_all (\<lambda>k. k \<le> MAX_AUDIT_KEY) ks"

definition keys_ok :: "'b db \<Rightarrow> bool" where
  "keys_ok d \<longleftrightarrow> secret_keys_ok (tkeys (SECRETS d)) \<and> version_keys_ok (tkeys (VERSIONS d)) \<and>
     audit_keys_ok (tkeys (AUDIT d))"

lemma check_backup_names_ok:
  "check_backup_names rows = Inr () \<longleftrightarrow> secret_keys_ok (map fst rows)"
  by (induction rows rule: check_backup_names.induct) (auto simp: secret_keys_ok_def)

lemma check_backup_version_keys_ok:
  "check_backup_version_keys rows = Inr () \<longleftrightarrow> version_keys_ok (map fst rows)"
  by (induction rows rule: check_backup_version_keys.induct)
     (auto simp: version_keys_ok_def split: option.splits)

lemma check_backup_audit_keys_ok:
  "check_backup_audit_keys rows = Inr () \<longleftrightarrow> audit_keys_ok (map fst rows)"
  by (induction rows rule: check_backup_audit_keys.induct) (auto simp: audit_keys_ok_def not_less)

lemma check_secret_rows_ok:
  "check_secret_rows data = Inr () \<longleftrightarrow>
     secret_keys_ok (map fst (bd_secrets data)) \<and> version_keys_ok (map fst (bd_versions data)) \<and>
     audit_keys_ok (map fst (bd_audit data))"
  by (auto simp: check_secret_rows_def check_backup_names_ok [symmetric]
      check_backup_version_keys_ok [symmetric] check_backup_audit_keys_ok [symmetric]
      split: sum.splits)

lemma dump_id [simp]: "dump_str t = t" "dump_bytes u = u" "dump_u64 w = w"
  by (simp_all add: dump_str_def dump_bytes_def dump_u64_def)

lemmas restore_defs = restore_str_def restore_bytes_def restore_u64_def

lemma restore_refill [simp]:
  "twf t \<Longrightarrow> twf u \<Longrightarrow> restore_str u t = u"
  "twf a \<Longrightarrow> twf b \<Longrightarrow> restore_bytes b a = b"
  "twf w \<Longrightarrow> twf x \<Longrightarrow> restore_u64 x w = x"
  by (simp_all add: restore_defs tkeys_def trefill)

lemma twf_restore [table_simps]:
  "twf t \<Longrightarrow> twf (restore_str rows t)"
  "twf a \<Longrightarrow> twf (restore_bytes brows a)"
  "twf w \<Longrightarrow> twf (restore_u64 urows w)"
  by (simp_all add: restore_defs table_simps)

lemma keys_restore:
  "twf t \<Longrightarrow> set (tkeys (restore_str rows t)) = fst ` set rows"
  "twf w \<Longrightarrow> set (tkeys (restore_u64 urows w)) = fst ` set urows"
proof -
  have gen: "set (tkeys (tinsert_all r (tremove_all (tkeys s) s))) = fst ` set r"
    if "twf s" for r :: "('k::linorder, 'x) table" and s
  proof (rule set_eqI)
    fix k
    have "tget (tremove_all (tkeys s) s) = Map.empty"
      using that tkeys_get [OF that] by (auto simp: table_simps fun_eq_iff)
    then have "tget (tinsert_all r (tremove_all (tkeys s) s)) k = map_of (rev r) k"
      using that by (simp add: table_simps)
    then show "k \<in> set (tkeys (tinsert_all r (tremove_all (tkeys s) s))) \<longleftrightarrow> k \<in> fst ` set r"
      using that by (simp add: tkeys_get table_simps map_of_eq_None_iff)
  qed
  show "twf t \<Longrightarrow> set (tkeys (restore_str rows t)) = fst ` set rows"
    "twf w \<Longrightarrow> set (tkeys (restore_u64 urows w)) = fst ` set urows"
    by (simp_all add: restore_defs gen)
qed

lemma restore_tables_Inl: "restore_tables data d = (Inl e, d') \<Longrightarrow> d' = d"
  by (auto simp: restore_tables_def split: if_splits sum.splits)

lemma restore_tables_wf: "db_wf d \<Longrightarrow> db_wf (snd (restore_tables data d))"
  by (auto simp: restore_tables_def db_wf_def table_simps split: sum.splits)

text \<open>Whatever a restore writes passes the checks again.\<close>

lemma restore_tables_keys_ok:
  assumes "db_wf d" "restore_tables data d = (Inr (), d')"
  shows "keys_ok d'"
proof -
  have "check_secret_rows data = Inr ()" and
    keys: "SECRETS d' = restore_str (bd_secrets data) (SECRETS d)"
    "VERSIONS d' = restore_str (bd_versions data) (VERSIONS d)"
    "AUDIT d' = restore_u64 (bd_audit data) (AUDIT d)"
    using assms(2) by (auto simp: restore_tables_def split: if_splits sum.splits)
  then show ?thesis
    using assms(1)
    by (simp add: keys_ok_def check_secret_rows_ok secret_keys_ok_def
        version_keys_ok_def audit_keys_ok_def list.pred_set keys_restore db_wfD)
qed

section \<open>Properties\<close>

text \<open>
  C33: restoring a backup of a database \<open>d\<close> into any database gives back every replicated table of
  \<open>d\<close> and leaves the node's lockout table alone, provided that the keys of \<open>d\<close> are such
  as the validation accepts.
\<close>

theorem backup_restore_roundtrip:
  assumes "db_wf d" "db_wf e" "keys_ok d"
  shows "restore_database (dump_database d) e = (Inr (), d\<lparr>LOCKOUTS := LOCKOUTS e\<rparr>)"
proof -
  have "check_secret_rows (dump_database d) = Inr ()"
    using assms(3) by (simp add: check_secret_rows_ok dump_database_def keys_ok_def tkeys_def)
  then show ?thesis
    using assms by (simp add: restore_database_def restore_tables_def dump_database_def db_wfD)
qed

definition sample_db :: "row db" where
  "sample_db = empty_db\<lparr>SECRETS := [(''a'', RowGarbage)],
     VERSIONS := [(version_key ''a'' 1, RowGarbage), (version_key ''a'' 2, RowGarbage)],
     AUDIT := [(0, RowGarbage), (4, RowGarbage)]\<rparr>"

lemma valid_name_a: "is_valid_secret_name ''a''"
  by (simp add: is_valid_secret_name_def MAX_SECRET_NAME_LEN_def secret_name_char_def
      is_ascii_alphanumeric_def less_eq_char_def)

lemma split_version_key_a:
  "0 \<le> v \<Longrightarrow> v \<le> i32_max \<Longrightarrow> split_version_key (version_key ''a'' v) = Some (''a'', v)"
  by (simp add: split_version_key_iff)

lemma sample_db_ok: "db_wf sample_db" "keys_ok sample_db"
  by (simp_all add: sample_db_def db_wf_def keys_ok_def empty_db_def twf_def tkeys_def secret_keys_ok_def
      version_keys_ok_def audit_keys_ok_def valid_name_a split_version_key_a i32_max_def
      is_valid_secret_version_def MIN_SECRET_VERSION_def MAX_AUDIT_KEY_def version_key_less_iff)

theorem backup_restore_roundtrip_witness:
  "restore_database (dump_database sample_db) (empty_db\<lparr>LOCKOUTS := [(''ip'', RowGarbage)]\<rparr>) =
     (Inr (), sample_db\<lparr>LOCKOUTS := [(''ip'', RowGarbage)]\<rparr>)"
  using backup_restore_roundtrip [of sample_db "empty_db\<lparr>LOCKOUTS := [(''ip'', RowGarbage)]\<rparr>"]
  by (simp add: sample_db_ok) (simp add: db_wf_def empty_db_def twf_def)

text \<open>
  A restore replaces the tables exactly when the backup has the supported version and all its
  secret names, version keys and audit keys are valid; otherwise the database stays as it was.
\<close>

theorem restore_database_validates:
  "(fst (restore_database data d) = Inr () \<longleftrightarrow>
      bd_version data = BACKUP_VERSION \<and> secret_keys_ok (map fst (bd_secrets data)) \<and>
      version_keys_ok (map fst (bd_versions data)) \<and> audit_keys_ok (map fst (bd_audit data))) \<and>
   (fst (restore_database data d) = Inr () \<or> snd (restore_database data d) = d)"
  using check_secret_rows_ok [of data]
  by (auto simp: restore_database_def restore_tables_def split: sum.splits)

end
