(* ===== verification/Store_Apply.thy ===== *)
theory Store_Apply
  imports Store_Backup
begin

text \<open>
  \<open>store/apply.rs\<close>: the state machine of the store. Every write of the program is a
  command, and \<open>apply_command\<close> executes a command in an open write transaction; there is one
  definition per arm of its match. A handler returns its result together with the contents
  of the transaction, also when it fails: the replicated state machine commits the
  transaction after a refused command, the single-node store and a storage error abort it.
\<close>

section \<open>Row checks and metadata\<close>

definition check_secret_name :: "string \<Rightarrow> unit StoreResult" where
  "check_secret_name name =
     (if is_valid_secret_name name then Inr () else Inl (Conflict (NameOutsideCharset name)))"

definition check_secret_row :: "string \<Rightarrow> i32 \<Rightarrow> unit StoreResult" where
  "check_secret_row name version =
     (case check_secret_name name of
        Inl e \<Rightarrow> Inl e
      | Inr _ \<Rightarrow>
          (if \<not> is_valid_secret_version version then Inl (Conflict (VersionBelowMinimum version))
           else Inr ()))"

definition apply_meta ::
  "string option \<Rightarrow> i64 option \<Rightarrow> i64 option \<Rightarrow> NextRotation \<Rightarrow> i64 \<Rightarrow> SecretRecord \<Rightarrow> SecretRecord" where
  "apply_meta set_description set_rotation_interval_secs set_grace_secs next_rotation_at updated_at secret =
     (let s1 = (case set_description of
                  Some description \<Rightarrow> secret\<lparr>sr_description := Some description\<rparr> | None \<Rightarrow> secret);
          s2 = (case set_rotation_interval_secs of
                  Some interval \<Rightarrow> s1\<lparr>sr_rotation_interval_secs := Some interval\<rparr> | None \<Rightarrow> s1);
          s3 = (case set_grace_secs of Some grace \<Rightarrow> s2\<lparr>sr_grace_secs := grace\<rparr> | None \<Rightarrow> s2);
          s4 = (case next_rotation_at of Set value \<Rightarrow> s3\<lparr>sr_next_rotation_at := value\<rparr> | Keep \<Rightarrow> s3)
      in s4\<lparr>sr_updated_at := updated_at\<rparr>)"

section \<open>The command handlers\<close>

type_synonym 'b step = "'b db \<Rightarrow> unit StoreResult \<times> 'b db"

definition apply_create_secret :: "'b codec \<Rightarrow> SecretRecord \<Rightarrow> VersionRecord \<Rightarrow> 'b step" where
  "apply_create_secret cd secret version d =
     (case check_secret_row (sr_name secret) (vr_version version) of
        Inl e \<Rightarrow> (Inl e, d)
      | Inr _ \<Rightarrow>
          (if tget (SECRETS d) (sr_name secret) \<noteq> None
           then (Inl (Conflict (SecretExists (sr_name secret))), d)
           else
             (let d1 = d\<lparr>SECRETS := tinsert (sr_name secret) (enc_secret cd secret) (SECRETS d)\<rparr>
              in (Inr (), d1\<lparr>VERSIONS := tinsert (version_key (sr_name secret) (vr_version version))
                                   (enc_version cd version) (VERSIONS d1)\<rparr>))))"

text \<open>Marking the superseded version with the end of its grace period.\<close>

definition supersede :: "'b codec \<Rightarrow> string \<Rightarrow> i32 \<Rightarrow> i64 option \<Rightarrow> 'b step" where
  "supersede cd name expected_current supersede_expires_at d =
     (case supersede_expires_at of
        None \<Rightarrow> (Inr (), d)
      | Some expiry \<Rightarrow>
          (let prev_key = version_key name expected_current in
           case tget (VERSIONS d) prev_key of
             None \<Rightarrow> (Inr (), d)
           | Some value \<Rightarrow>
               (case dec_version cd value of
                  None \<Rightarrow> (Inl (Internal DecodeFailed), d)
                | Some prev \<Rightarrow>
                    (if vr_expires_at prev = None
                     then (Inr (), d\<lparr>VERSIONS := tinsert prev_key
                             (enc_version cd (prev\<lparr>vr_expires_at := Some expiry\<rparr>)) (VERSIONS d)\<rparr>)
                     else (Inr (), d)))))"

definition apply_put_version ::
  "'b codec \<Rightarrow> string \<Rightarrow> i32 \<Rightarrow> VersionRecord \<Rightarrow> i64 option \<Rightarrow> string option \<Rightarrow> i64 option \<Rightarrow>
   i64 option \<Rightarrow> NextRotation \<Rightarrow> i64 \<Rightarrow> 'b step" where
  "apply_put_version cd name expected_current version supersede_expires_at set_description
     set_rotation_interval_secs set_grace_secs next_rotation_at updated_at d =
     (case check_secret_row name (vr_version version) of
        Inl e \<Rightarrow> (Inl e, d)
      | Inr _ \<Rightarrow>
     (case tget (SECRETS d) name of
        None \<Rightarrow> (Inl NotFound, d)
      | Some value \<Rightarrow>
     (case dec_secret cd value of
        None \<Rightarrow> (Inl (Internal DecodeFailed), d)
      | Some secret \<Rightarrow>
          (if sr_current_version secret \<noteq> expected_current then (Inl VersionConflict, d)
           else
             (let d1 = d\<lparr>VERSIONS := tinsert (version_key name (vr_version version))
                           (enc_version cd version) (VERSIONS d)\<rparr>
              in case supersede cd name expected_current supersede_expires_at d1 of
                   (Inl e, d2) \<Rightarrow> (Inl e, d2)
                 | (Inr _, d2) \<Rightarrow>
                     (let secret' = apply_meta set_description set_rotation_interval_secs
                            set_grace_secs next_rotation_at updated_at
                            (secret\<lparr>sr_current_version := vr_version version\<rparr>)
                      in (Inr (), d2\<lparr>SECRETS := tinsert name (enc_secret cd secret') (SECRETS d2)\<rparr>)))))))"

definition apply_update_meta ::
  "'b codec \<Rightarrow> string \<Rightarrow> i32 \<Rightarrow> string option \<Rightarrow> i64 option \<Rightarrow> i64 option \<Rightarrow> NextRotation \<Rightarrow> i64 \<Rightarrow> 'b step" where
  "apply_update_meta cd name expected_current set_description set_rotation_interval_secs
     set_grace_secs next_rotation_at updated_at d =
     (case tget (SECRETS d) name of
        None \<Rightarrow> (Inl NotFound, d)
      | Some value \<Rightarrow>
     (case dec_secret cd value of
        None \<Rightarrow> (Inl (Internal DecodeFailed), d)
      | Some secret \<Rightarrow>
          (if sr_current_version secret \<noteq> expected_current then (Inl VersionConflict, d)
           else
             (let secret' = apply_meta set_description set_rotation_interval_secs set_grace_secs
                    next_rotation_at updated_at secret
              in (Inr (), d\<lparr>SECRETS := tinsert name (enc_secret cd secret') (SECRETS d)\<rparr>)))))"

definition apply_delete_secret :: "string \<Rightarrow> 'b step" where
  "apply_delete_secret name d =
     (let removed = tget (SECRETS d) name;
          d1 = d\<lparr>SECRETS := tremove name (SECRETS d)\<rparr>
      in if removed = None then (Inl NotFound, d1)
         else
           (let keys = map fst (filter (\<lambda>row. version_from_key name (fst row) \<noteq> None)
                         (trange (in_version_range name) (VERSIONS d1)))
            in (Inr (), d1\<lparr>VERSIONS := tremove_all keys (VERSIONS d1)\<rparr>)))"

definition apply_create_role :: "'b codec \<Rightarrow> RoleRecord \<Rightarrow> 'b step" where
  "apply_create_role cd role d =
     (if tget (ROLES d) (rr_name role) \<noteq> None then (Inl (Conflict (RoleExists (rr_name role))), d)
      else (Inr (), d\<lparr>ROLES := tinsert (rr_name role) (enc_role cd role) (ROLES d)\<rparr>))"

definition apply_set_permissions :: "'b codec \<Rightarrow> string \<Rightarrow> (string \<times> string) list \<Rightarrow> 'b step" where
  "apply_set_permissions cd name permissions d =
     (case tget (ROLES d) name of
        None \<Rightarrow> (Inl NotFound, d)
      | Some value \<Rightarrow>
     (case dec_role cd value of
        None \<Rightarrow> (Inl (Internal DecodeFailed), d)
      | Some role \<Rightarrow>
          (Inr (), d\<lparr>ROLES := tinsert name (enc_role cd (role\<lparr>rr_permissions := permissions\<rparr>)) (ROLES d)\<rparr>)))"

fun check_role_unused :: "'b codec \<Rightarrow> string \<Rightarrow> (bytes, 'b) table \<Rightarrow> unit StoreResult" where
  "check_role_unused cd name [] = Inr ()"
| "check_role_unused cd name ((_, value) # rows) =
     (case dec_token cd value of
        None \<Rightarrow> Inl (Internal DecodeFailed)
      | Some token \<Rightarrow>
          (if tr_role token = Some name then Inl (Conflict (RoleStillHasTokens name))
           else check_role_unused cd name rows))"

definition apply_delete_role :: "'b codec \<Rightarrow> string \<Rightarrow> 'b step" where
  "apply_delete_role cd name d =
     (case check_role_unused cd name (TOKENS d) of
        Inl e \<Rightarrow> (Inl e, d)
      | Inr _ \<Rightarrow>
          (let removed = tget (ROLES d) name;
               d1 = d\<lparr>ROLES := tremove name (ROLES d)\<rparr>
           in if removed = None then (Inl NotFound, d1) else (Inr (), d1)))"

definition apply_add_token :: "'b codec \<Rightarrow> TokenRecord \<Rightarrow> 'b step" where
  "apply_add_token cd token d =
     (if tget (TOKENS d) (tr_fingerprint token) \<noteq> None then (Inl (Conflict FingerprintExists), d)
      else if tget (TOKENS_BY_NAME d) (tr_name token) \<noteq> None
      then (Inl (Conflict (TokenExists (tr_name token))), d)
      else
        (let d1 = d\<lparr>TOKENS_BY_NAME := tinsert (tr_name token) (tr_fingerprint token) (TOKENS_BY_NAME d)\<rparr>
         in (Inr (), d1\<lparr>TOKENS := tinsert (tr_fingerprint token) (enc_token cd token) (TOKENS d1)\<rparr>)))"

definition apply_revoke_token :: "'b codec \<Rightarrow> string \<Rightarrow> i64 \<Rightarrow> 'b step" where
  "apply_revoke_token cd name revoked_at d =
     (case tget (TOKENS_BY_NAME d) name of
        None \<Rightarrow> (Inl NotFound, d)
      | Some fingerprint \<Rightarrow>
     (case tget (TOKENS d) fingerprint of
        None \<Rightarrow> (Inl NotFound, d)
      | Some value \<Rightarrow>
     (case dec_token cd value of
        None \<Rightarrow> (Inl (Internal DecodeFailed), d)
      | Some token \<Rightarrow>
          (if tr_revoked_at token \<noteq> None then (Inl NotFound, d)
           else (Inr (), d\<lparr>TOKENS := tinsert fingerprint
                   (enc_token cd (token\<lparr>tr_revoked_at := Some revoked_at\<rparr>)) (TOKENS d)\<rparr>)))))"

definition apply_touch_token :: "'b codec \<Rightarrow> bytes \<Rightarrow> i64 \<Rightarrow> 'b step" where
  "apply_touch_token cd fingerprint at d =
     (case tget (TOKENS d) fingerprint of
        None \<Rightarrow> (Inr (), d)
      | Some value \<Rightarrow>
     (case dec_token cd value of
        None \<Rightarrow> (Inl (Internal DecodeFailed), d)
      | Some token \<Rightarrow>
          (Inr (), d\<lparr>TOKENS := tinsert fingerprint
             (enc_token cd (token\<lparr>tr_last_used_at := Some at\<rparr>)) (TOKENS d)\<rparr>)))"

fun expired_keys :: "'b codec \<Rightarrow> i64 \<Rightarrow> (string, 'b) table \<Rightarrow> string list StoreResult" where
  "expired_keys cd now [] = Inr []"
| "expired_keys cd now ((key, value) # rows) =
     (case dec_version cd value of
        None \<Rightarrow> Inl (Internal DecodeFailed)
      | Some record \<Rightarrow>
          (case expired_keys cd now rows of
             Inl e \<Rightarrow> Inl e
           | Inr keys \<Rightarrow>
               (case vr_expires_at record of
                  Some expiry \<Rightarrow> Inr (if expiry \<le> now then key # keys else keys)
                | None \<Rightarrow> Inr keys)))"

definition apply_expire_grace_versions :: "'b codec \<Rightarrow> i64 \<Rightarrow> 'b step" where
  "apply_expire_grace_versions cd now d =
     (case expired_keys cd now (VERSIONS d) of
        Inl e \<Rightarrow> (Inl e, d)
      | Inr expired \<Rightarrow> (Inr (), d\<lparr>VERSIONS := tremove_all expired (VERSIONS d)\<rparr>))"

definition apply_rewrap_version ::
  "'b codec \<Rightarrow> string \<Rightarrow> i32 \<Rightarrow> string \<Rightarrow> bytes \<Rightarrow> i64 \<Rightarrow> 'b step" where
  "apply_rewrap_version cd name version kms_key_id wrapped_dek wrapped_rotation_at d =
     (let key = version_key name version in
      case tget (VERSIONS d) key of
        None \<Rightarrow> (Inr (), d)
      | Some value \<Rightarrow>
     (case dec_version cd value of
        None \<Rightarrow> (Inl (Internal DecodeFailed), d)
      | Some record \<Rightarrow>
          (if (case vr_wrapped_rotation_at record of
                 Some current \<Rightarrow> current \<ge> wrapped_rotation_at | None \<Rightarrow> False)
           then (Inr (), d)
           else (Inr (), d\<lparr>VERSIONS := tinsert key
                   (enc_version cd (record\<lparr>vr_kms_key_id := kms_key_id, vr_wrapped_dek := wrapped_dek,
                                           vr_wrapped_rotation_at := Some wrapped_rotation_at\<rparr>))
                   (VERSIONS d)\<rparr>))))"

definition apply_set_kms_rewrap_state :: "'b codec \<Rightarrow> KmsRewrapState \<Rightarrow> 'b step" where
  "apply_set_kms_rewrap_state cd state d =
     (Inr (), d\<lparr>KMS_REWRAP := tinsert KMS_REWRAP_STATE_KEY (enc_kms cd state) (KMS_REWRAP d)\<rparr>)"

definition last_audit_key :: "(u64, 'v) table \<Rightarrow> u64 option" where
  "last_audit_key audit =
     (let keys = tkeys (trange (\<lambda>k. k \<le> MAX_AUDIT_KEY) audit)
      in if keys = [] then None else Some (last keys))"

definition apply_append_audit :: "'b codec \<Rightarrow> u64 \<Rightarrow> AuditEntry \<Rightarrow> 'b step" where
  "apply_append_audit cd node_id entry d =
     (let next = (case last_audit_key (AUDIT d) of
                    Some key \<Rightarrow> ok_or (Conflict AuditKeySpaceExhausted) (checked_add_u64 key 1)
                  | None \<Rightarrow> Inr 0)
      in case next of
           Inl e \<Rightarrow> (Inl e, d)
         | Inr key \<Rightarrow>
             (Inr (), d\<lparr>AUDIT := tinsert key (enc_audit cd (entry\<lparr>ae_node_id := node_id\<rparr>)) (AUDIT d)\<rparr>))"

definition apply_restore_database :: "'b BackupData \<Rightarrow> 'b step" where
  "apply_restore_database data d =
     (case restore_tables data d of
        (Inl e, d') \<Rightarrow> (Inl (Conflict (RestoreRefused e)), d')
      | (Inr _, d') \<Rightarrow> (Inr (), d'))"

text \<open>The failure counter is a \<open>u32\<close> and the two time computations are on \<open>i64\<close>; both wrap.\<close>

definition bump_lockout :: "i64 \<Rightarrow> u32 \<Rightarrow> i64 \<Rightarrow> i64 \<Rightarrow> LockoutRecord \<Rightarrow> LockoutRecord" where
  "bump_lockout now max_failures window_secs lockout_secs record =
     (let r1 = (if wrap_i64 (now - lr_window_start record) \<ge> window_secs
                then record\<lparr>lr_failures := 0, lr_window_start := now\<rparr> else record);
          r2 = r1\<lparr>lr_failures := lr_failures r1 + 1\<rparr>
      in if lr_failures r2 \<ge> max_failures then r2\<lparr>lr_locked_until := Some (wrap_i64 (now + lockout_secs))\<rparr>
         else r2)"

definition apply_record_auth_failure ::
  "'b codec \<Rightarrow> string \<Rightarrow> i64 \<Rightarrow> u32 \<Rightarrow> i64 \<Rightarrow> i64 \<Rightarrow> 'b step" where
  "apply_record_auth_failure cd key now max_failures window_secs lockout_secs d =
     (case (case tget (LOCKOUTS d) key of
              Some value \<Rightarrow> ok_or (Internal DecodeFailed) (dec_lockout cd value)
            | None \<Rightarrow> Inr \<lparr>lr_failures = 0, lr_window_start = now, lr_locked_until = None\<rparr>) of
        Inl e \<Rightarrow> (Inl e, d)
      | Inr record \<Rightarrow>
          (Inr (), d\<lparr>LOCKOUTS := tinsert key
             (enc_lockout cd (bump_lockout now max_failures window_secs lockout_secs record)) (LOCKOUTS d)\<rparr>))"

fun apply_command :: "'b codec \<Rightarrow> u64 \<Rightarrow> 'b Command \<Rightarrow> 'b step" where
  "apply_command cd node_id (CreateSecret secret version) = apply_create_secret cd secret version"
| "apply_command cd node_id (PutVersion name expected version expiry desc intv grc nxt upd) =
     apply_put_version cd name expected version expiry desc intv grc nxt upd"
| "apply_command cd node_id (UpdateMeta name expected desc intv grc nxt upd) =
     apply_update_meta cd name expected desc intv grc nxt upd"
| "apply_command cd node_id (DeleteSecret name) = apply_delete_secret name"
| "apply_command cd node_id (CreateRole role) = apply_create_role cd role"
| "apply_command cd node_id (SetPermissions name permissions) = apply_set_permissions cd name permissions"
| "apply_command cd node_id (DeleteRole name) = apply_delete_role cd name"
| "apply_command cd node_id (AddToken token) = apply_add_token cd token"
| "apply_command cd node_id (RevokeToken name at) = apply_revoke_token cd name at"
| "apply_command cd node_id (TouchToken fingerprint at) = apply_touch_token cd fingerprint at"
| "apply_command cd node_id (ExpireGraceVersions now) = apply_expire_grace_versions cd now"
| "apply_command cd node_id (RewrapVersion name version kid wrapped at) =
     apply_rewrap_version cd name version kid wrapped at"
| "apply_command cd node_id (SetKmsRewrapState state) = apply_set_kms_rewrap_state cd state"
| "apply_command cd node_id (AppendAudit entry) = apply_append_audit cd node_id entry"
| "apply_command cd node_id (RestoreDatabase data) = apply_restore_database data"
| "apply_command cd node_id (RecordAuthFailure key now max_failures window lockout) =
     apply_record_auth_failure cd key now max_failures window lockout"

lemmas apply_defs [handler_defs] =
  apply_create_secret_def apply_put_version_def apply_update_meta_def apply_delete_secret_def
  apply_create_role_def apply_set_permissions_def apply_delete_role_def apply_add_token_def
  apply_revoke_token_def apply_touch_token_def apply_expire_grace_versions_def
  apply_rewrap_version_def apply_set_kms_rewrap_state_def apply_append_audit_def
  apply_restore_database_def apply_record_auth_failure_def supersede_def

section \<open>General laws\<close>

lemma tremove_none: "tget t k = None \<Longrightarrow> tremove k t = t"
  by (induction t) (auto simp: tget_def tremove_def split: if_splits)

lemma db_wf_updates [table_simps]:
  assumes "db_wf d"
  shows "twf a \<Longrightarrow> db_wf (d\<lparr>SECRETS := a\<rparr>)" "twf b \<Longrightarrow> db_wf (d\<lparr>VERSIONS := b\<rparr>)"
    "twf c \<Longrightarrow> db_wf (d\<lparr>ROLES := c\<rparr>)" "twf e \<Longrightarrow> db_wf (d\<lparr>TOKENS := e\<rparr>)"
    "twf f \<Longrightarrow> db_wf (d\<lparr>TOKENS_BY_NAME := f\<rparr>)" "twf g \<Longrightarrow> db_wf (d\<lparr>LOCKOUTS := g\<rparr>)"
    "twf h \<Longrightarrow> db_wf (d\<lparr>AUDIT := h\<rparr>)" "twf i \<Longrightarrow> db_wf (d\<lparr>KMS_REWRAP := i\<rparr>)"
  using assms by (simp_all add: db_wf_def)

lemma supersede_wf: "db_wf d \<Longrightarrow> db_wf (snd (supersede cd name v expiry d))"
  by (auto simp: supersede_def Let_def table_simps db_wfD split: option.split)

lemma apply_put_version_wf:
  "db_wf d \<Longrightarrow> db_wf (snd (apply_put_version cd name expected version expiry desc intv grc nxt upd d))"
  using supersede_wf [of "d\<lparr>VERSIONS := tinsert (version_key name (vr_version version))
                           (enc_version cd version) (VERSIONS d)\<rparr>" cd name expected expiry]
  by (auto simp: apply_put_version_def Let_def table_simps db_wfD split: sum.split option.split prod.split)

lemma apply_command_wf: "db_wf d \<Longrightarrow> db_wf (snd (apply_command cd node_id c d))"
proof (cases c)
  case (RestoreDatabase data)
  assume "db_wf d"
  then have "db_wf (snd (restore_tables data d))" by (rule restore_tables_wf)
  then show ?thesis
    by (auto simp: RestoreDatabase apply_restore_database_def split: prod.splits sum.splits)
qed (auto simp: apply_put_version_wf apply_create_secret_def apply_update_meta_def
    apply_delete_secret_def apply_create_role_def apply_set_permissions_def apply_delete_role_def
    apply_add_token_def apply_revoke_token_def apply_touch_token_def
    apply_expire_grace_versions_def apply_rewrap_version_def apply_set_kms_rewrap_state_def
    apply_append_audit_def apply_record_auth_failure_def
    Let_def table_simps db_wfD split: sum.split option.split)

end
