(* ===== verification/Core_Rotation.thy ===== *)
theory Core_Rotation
  imports Core_Types
begin

text \<open>
  \<open>hyperion-vault-core/src/rotation.rs\<close>: when a secret is due, when a superseded version
  stops being accepted, and the successor of a version number.
\<close>

definition MAX_ROTATION_INTERVAL_SECS :: i64 where
  "MAX_ROTATION_INTERVAL_SECS = 100 * 365 * 24 * 60 * 60"

definition MAX_GRACE_SECS :: i64 where
  "MAX_GRACE_SECS = MAX_ROTATION_INTERVAL_SECS"

definition next_rotation_unix :: "i64 \<Rightarrow> i64 \<Rightarrow> i64" where
  "next_rotation_unix from_unix interval_secs = sat_add_i64 from_unix interval_secs"

definition grace_expiry_unix :: "i64 \<Rightarrow> i64 \<Rightarrow> i64" where
  "grace_expiry_unix superseded_at_unix grace_secs = sat_add_i64 superseded_at_unix grace_secs"

definition next_version :: "i32 \<Rightarrow> i32 option" where
  "next_version current = checked_add_i32 current 1"

text \<open>\<open>Duration::as_secs\<close> is a \<open>u64\<close>; the cast to \<open>i64\<close> wraps.\<close>

record RotationPolicy =
  rp_interval :: u64
  rp_grace :: u64

definition policy_next_rotation_unix :: "RotationPolicy \<Rightarrow> i64 \<Rightarrow> i64" where
  "policy_next_rotation_unix pol from_unix = next_rotation_unix from_unix (sint (rp_interval pol))"

definition policy_grace_expiry_unix :: "RotationPolicy \<Rightarrow> i64 \<Rightarrow> i64" where
  "policy_grace_expiry_unix pol superseded_at_unix =
     grace_expiry_unix superseded_at_unix (sint (rp_grace pol))"

definition is_due :: "i64 \<Rightarrow> i64 \<Rightarrow> bool" where
  "is_due now_unix next_unix \<longleftrightarrow> next_unix \<le> now_unix"

definition version_active :: "i64 \<Rightarrow> i64 option \<Rightarrow> bool" where
  "version_active now_unix expires_at_unix =
     (case expires_at_unix of None \<Rightarrow> True | Some expiry \<Rightarrow> now_unix < expiry)"

lemma next_version_Some:
  "is_valid_secret_version v \<Longrightarrow> next_version v = Some w \<longleftrightarrow> w = v + 1 \<and> v < i32_max"
  by (auto simp: next_version_def int_defs is_valid_secret_version_def MIN_SECRET_VERSION_def)

lemma next_version_None: "is_valid_secret_version v \<Longrightarrow> next_version v = None \<longleftrightarrow> i32_max \<le> v"
  by (auto simp: next_version_def int_defs is_valid_secret_version_def MIN_SECRET_VERSION_def)

text \<open>
  For every interval and grace period the API accepts and every clock reading up to the
  year 290 billion, the computed times do not saturate: a rotated secret becomes due exactly
  when its interval has elapsed, and a superseded version is accepted exactly while less than
  the grace period has elapsed. In every case the results are representable.
\<close>

theorem rotation_times_exact:
  assumes "0 \<le> now" "now \<le> i64_max - MAX_ROTATION_INTERVAL_SECS"
    and "0 < secs" "secs \<le> MAX_ROTATION_INTERVAL_SECS"
    and "0 \<le> grace" "grace \<le> MAX_GRACE_SECS"
  shows "(is_due t (next_rotation_unix now secs) \<longleftrightarrow> secs \<le> t - now) \<and>
         (version_active t (Some (grace_expiry_unix now grace)) \<longleftrightarrow> t - now < grace) \<and>
         \<not> is_due now (next_rotation_unix now secs) \<and>
         in_i64 (next_rotation_unix now secs) \<and> in_i64 (grace_expiry_unix now grace)"
proof -
  have "in_i64 (now + secs)" "in_i64 (now + grace)"
    using assms by (auto simp: int_defs MAX_ROTATION_INTERVAL_SECS_def MAX_GRACE_SECS_def)
  then show ?thesis
    using assms(3) by (auto simp: next_rotation_unix_def grace_expiry_unix_def sat_add_i64_def
        is_due_def version_active_def)
qed

theorem rotation_times_exact_witness:
  "(is_due 1000 (next_rotation_unix 900 60) \<longleftrightarrow> 60 \<le> (1000::int) - 900) \<and>
   (version_active 1000 (Some (grace_expiry_unix 900 30)) \<longleftrightarrow> (1000::int) - 900 < 30) \<and>
   \<not> is_due 900 (next_rotation_unix 900 60) \<and>
   in_i64 (next_rotation_unix 900 60) \<and> in_i64 (grace_expiry_unix 900 30)"
  by (rule rotation_times_exact)
     (simp_all add: int_defs MAX_ROTATION_INTERVAL_SECS_def MAX_GRACE_SECS_def)

end
