(* ===== verification/Store_Laws.thy ===== *)
theory Store_Laws
  imports Store_Apply Core_Rotation
begin

text \<open>
  What the commands of the store do: their effect on every table, on every branch, and how
  commands that race on the same rows order themselves.
\<close>

section \<open>Refused commands\<close>

lemma supersede_Inl: "supersede cd name v ex d = (Inl e, d') \<Longrightarrow> e = Internal DecodeFailed"
  by (auto simp: supersede_def Let_def split: option.splits if_splits)

lemma check_role_unused_Inl:
  "check_role_unused cd name rows = Inl e \<Longrightarrow> e \<noteq> NotFound"
  by (induction rows rule: check_role_unused.induct) (auto split: option.splits if_splits)

lemma put_version_refused:
  assumes "apply_put_version cd name ec v ex desc intv grc nxt upd d = (Inl e, d')"
    and "\<forall>i. e \<noteq> Internal i"
  shows "d' = d"
  using assms by (auto simp: apply_put_version_def Let_def split: sum.splits option.splits if_splits
      prod.splits dest: supersede_Inl)

text \<open>
  A command that is refused, by a conflict, a missing row or a version conflict, leaves every table
  as it was, although the replicated state machine commits the transaction it ran in.
\<close>

theorem refused_command_unchanged:
  assumes "apply_command cd node_id c d = (Inl e, d')" and "\<forall>i. e \<noteq> Internal i"
  shows "d' = d"
proof (cases c)
  case (PutVersion name ec v ex desc intv grc nxt upd)
  with assms show ?thesis using put_version_refused by fastforce
next
  case (RestoreDatabase data)
  with assms show ?thesis
    by (auto simp: apply_restore_database_def split: prod.splits sum.splits dest: restore_tables_Inl)
qed (use assms in \<open>auto simp: apply_create_secret_def apply_update_meta_def
    apply_delete_secret_def apply_create_role_def apply_set_permissions_def apply_delete_role_def
    apply_add_token_def apply_revoke_token_def apply_touch_token_def
    apply_expire_grace_versions_def apply_rewrap_version_def apply_set_kms_rewrap_state_def
    apply_append_audit_def apply_record_auth_failure_def
    Let_def tremove_none split: sum.splits option.splits if_splits\<close>)

theorem refused_command_unchanged_witness:
  "snd (apply_command row_codec 1 (DeleteSecret ''a'') empty_db) = empty_db"
  using refused_command_unchanged [of row_codec 1 "DeleteSecret ''a''" empty_db NotFound
      "snd (apply_command row_codec 1 (DeleteSecret ''a'') empty_db)"]
  by (simp add: apply_delete_secret_def empty_db_def)

section \<open>Writing a version\<close>

text \<open>The superseded row: the expiry is set unless the row already has one.\<close>

definition superseded_row :: "'b codec \<Rightarrow> i64 option \<Rightarrow> 'b option \<Rightarrow> 'b option" where
  "superseded_row cd ex row =
     (case (ex, row) of
        (Some expiry, Some b) \<Rightarrow>
          (case dec_version cd b of
             Some r \<Rightarrow> (if vr_expires_at r = None
                        then Some (enc_version cd (r\<lparr>vr_expires_at := Some expiry\<rparr>)) else Some b)
           | None \<Rightarrow> Some b)
      | _ \<Rightarrow> row)"

lemma supersede_effect:
  assumes "db_wf d" "supersede cd name ec ex d = (Inr (), d')"
  shows "d' = d\<lparr>VERSIONS := VERSIONS d'\<rparr> \<and>
    tget (VERSIONS d') = (tget (VERSIONS d))
      (version_key name ec := superseded_row cd ex (tget (VERSIONS d) (version_key name ec)))"
  using assms by (auto simp: supersede_def superseded_row_def Let_def table_simps db_wfD fun_eq_iff
      split: option.splits if_splits)

lemma put_version_effect:
  assumes "db_wf d" and ne: "version_key name (vr_version v) \<noteq> version_key name ec"
    and ok: "apply_put_version cd name ec v ex desc intv grc nxt upd d = (Inr (), d')"
  shows "\<exists>b s. tget (SECRETS d) name = Some b \<and> dec_secret cd b = Some s \<and> sr_current_version s = ec \<and>
    d' = d\<lparr>SECRETS := SECRETS d', VERSIONS := VERSIONS d'\<rparr> \<and>
    tget (SECRETS d') = (tget (SECRETS d))(name \<mapsto> enc_secret cd
       (apply_meta desc intv grc nxt upd (s\<lparr>sr_current_version := vr_version v\<rparr>))) \<and>
    tget (VERSIONS d') = (tget (VERSIONS d))
      (version_key name ec := superseded_row cd ex (tget (VERSIONS d) (version_key name ec)),
       version_key name (vr_version v) \<mapsto> enc_version cd v)"
proof -
  let ?d1 = "d\<lparr>VERSIONS := tinsert (version_key name (vr_version v)) (enc_version cd v) (VERSIONS d)\<rparr>"
  obtain b s d2 where b: "tget (SECRETS d) name = Some b" "dec_secret cd b = Some s"
    "sr_current_version s = ec" and d2: "supersede cd name ec ex ?d1 = (Inr (), d2)"
    and d': "d' = d2\<lparr>SECRETS := tinsert name (enc_secret cd (apply_meta desc intv grc nxt upd
                   (s\<lparr>sr_current_version := vr_version v\<rparr>))) (SECRETS d2)\<rparr>"
    using ok by (auto simp: apply_put_version_def Let_def split: sum.splits option.splits if_splits prod.splits)
  have wf1: "db_wf ?d1" using assms(1) by (simp add: table_simps db_wfD)
  note eff = supersede_effect [OF wf1 d2]
  have v2: "tget (VERSIONS d2) = (tget (VERSIONS d))
      (version_key name ec := superseded_row cd ex (tget (VERSIONS d) (version_key name ec)),
       version_key name (vr_version v) \<mapsto> enc_version cd v)"
    using eff ne assms(1) by (simp add: table_simps db_wfD fun_upd_twist)
  have s2: "SECRETS d2 = SECRETS d" "d2 = d\<lparr>VERSIONS := VERSIONS d2\<rparr>"
    using conjunct1 [OF eff] by (cases d, cases d2; simp)+
  then show ?thesis
    using b v2 d' db_wfD(1) [OF assms(1)] by (cases d, cases d2) (simp add: table_simps)
qed

lemma version_key_neq:
  assumes "is_valid_secret_version v" "v \<le> i32_max" "is_valid_secret_version w" "w \<le> i32_max" "v \<noteq> w"
  shows "version_key name v \<noteq> version_key name w"
  using assms version_key_less_iff [of v w name] version_key_less_iff [of w v name]
  by (auto simp: is_valid_secret_version_def MIN_SECRET_VERSION_def)

lemma check_secret_row_ok:
  "check_secret_row name v = Inr () \<longleftrightarrow> is_valid_secret_name name \<and> is_valid_secret_version v"
  by (simp add: check_secret_row_def check_secret_name_def)

lemma put_version_valid:
  assumes "apply_put_version cd name ec v ex desc intv grc nxt upd d = (Inr (), d')"
  shows "is_valid_secret_name name \<and> is_valid_secret_version (vr_version v)"
  using assms unfolding check_secret_row_ok [symmetric]
  by (auto simp: apply_put_version_def split: sum.splits)

text \<open>
  C4: a successful write of a version was planned from the current version, makes the new version
  current, stores its row, gives the superseded row the end of its grace period unless it
  already has one, and touches no other row of any table.
\<close>

theorem put_version_ok:
  assumes "db_wf d"
    and "apply_command cd node_id (PutVersion name ec v ex desc intv grc nxt upd) d = (Inr (), d')"
    and "vr_version v \<le> i32_max"
    and "is_valid_secret_version ec" "ec \<le> i32_max" "vr_version v \<noteq> ec"
  shows "(\<exists>b s. tget (SECRETS d) name = Some b \<and> dec_secret cd b = Some s \<and> sr_current_version s = ec \<and>
      tget (SECRETS d') = (tget (SECRETS d))(name \<mapsto> enc_secret cd
        (apply_meta desc intv grc nxt upd (s\<lparr>sr_current_version := vr_version v\<rparr>)))) \<and>
    tget (VERSIONS d') = (tget (VERSIONS d))
      (version_key name ec := superseded_row cd ex (tget (VERSIONS d) (version_key name ec)),
       version_key name (vr_version v) \<mapsto> enc_version cd v) \<and>
    d' = d\<lparr>SECRETS := SECRETS d', VERSIONS := VERSIONS d'\<rparr>"
proof -
  have "version_key name (vr_version v) \<noteq> version_key name ec"
    using assms put_version_valid [OF assms(2) [simplified]] by (intro version_key_neq) auto
  with put_version_effect [OF assms(1) _ assms(2) [simplified]] show ?thesis by blast
qed

definition sample_secret :: SecretRecord where
  "sample_secret = \<lparr>sr_name = ''a'', sr_kind = Manual, sr_format = Opaque, sr_description = None,
     sr_rotation_interval_secs = None, sr_grace_secs = 60, sr_current_version = 1,
     sr_next_rotation_at = None, sr_created_at = 5, sr_updated_at = 5, sr_target = None\<rparr>"

definition sample_version :: "i32 \<Rightarrow> VersionRecord" where
  "sample_version v = \<lparr>vr_version = v, vr_kms_key_id = ''k'', vr_wrapped_dek = [], vr_nonce = [],
     vr_ciphertext = [], vr_aad = [], vr_created_at = 5, vr_expires_at = None,
     vr_wrapped_rotation_at = None\<rparr>"

definition one_secret_db :: "row db" where
  "one_secret_db = snd (apply_command row_codec 1 (CreateSecret sample_secret (sample_version 1)) empty_db)"

definition put_sample :: "i32 \<Rightarrow> i32 \<Rightarrow> row Command" where
  "put_sample ec v = PutVersion ''a'' ec (sample_version v) (Some 70) None None None Keep 10"

lemma one_secret_db_eq:
  "one_secret_db = empty_db\<lparr>SECRETS := [(''a'', RowSecret sample_secret)],
     VERSIONS := [(version_key ''a'' 1, RowVersion (sample_version 1))]\<rparr>"
  by (simp add: one_secret_db_def apply_create_secret_def check_secret_row_def check_secret_name_def
      valid_name_a is_valid_secret_version_def MIN_SECRET_VERSION_def Let_def empty_db_def
      sample_secret_def sample_version_def)

lemma one_secret_db_wf: "db_wf one_secret_db"
  unfolding one_secret_db_def by (rule apply_command_wf) simp

lemma sample_key_neq: "version_key ''a'' 1 \<noteq> version_key ''a'' 2"
  by (rule version_key_neq) (simp_all add: is_valid_secret_version_def MIN_SECRET_VERSION_def i32_max_def)

lemma put_sample_ok: "fst (apply_command row_codec 1 (put_sample 1 2) one_secret_db) = Inr ()"
  using sample_key_neq version_key_less_iff [of 2 1 "''a''"]
  by (simp add: put_sample_def apply_put_version_def supersede_def check_secret_row_def
      check_secret_name_def valid_name_a is_valid_secret_version_def MIN_SECRET_VERSION_def Let_def
      one_secret_db_eq empty_db_def sample_version_def sample_secret_def tget_def
      i32_max_def)

lemma put_sample_eq:
  "apply_command row_codec 1 (put_sample 1 2) one_secret_db =
     (Inr (), snd (apply_command row_codec 1 (put_sample 1 2) one_secret_db))"
  using put_sample_ok by (metis prod.collapse)

theorem put_version_ok_witness:
  "tget (VERSIONS (snd (apply_command row_codec 1 (put_sample 1 2) one_secret_db))) (version_key ''a'' 1) =
     Some (RowVersion ((sample_version 1)\<lparr>vr_expires_at := Some 70\<rparr>))"
  using put_version_ok [OF one_secret_db_wf put_sample_eq [unfolded put_sample_def]] sample_key_neq
  by (simp add: put_sample_def sample_version_def is_valid_secret_version_def MIN_SECRET_VERSION_def
      i32_max_def superseded_row_def one_secret_db_eq tget_def)

lemma apply_meta_current [simp]:
  "sr_current_version (apply_meta desc intv grc nxt upd s) = sr_current_version s"
  "sr_name (apply_meta desc intv grc nxt upd s) = sr_name s"
  by (simp_all add: apply_meta_def Let_def split: option.split NextRotation.split)

text \<open>
  Of the writers that planned from the same current version only the first one wins. Once a
  version has been written over version \<open>ec\<close>, a second write and a metadata update that
  still expect \<open>ec\<close> are refused with a version conflict and change nothing.
\<close>

theorem put_version_wins_once:
  assumes "codec_ok cd" "db_wf d"
    and "apply_command cd n (PutVersion name ec v ex desc intv grc nxt upd) d = (Inr (), d')"
    and "vr_version v \<le> i32_max" "is_valid_secret_version ec" "ec \<le> i32_max" "vr_version v \<noteq> ec"
    and "is_valid_secret_version (vr_version v2)"
  shows "apply_command cd n (PutVersion name ec v2 ex2 desc2 intv2 grc2 nxt2 upd2) d' = (Inl VersionConflict, d') \<and>
         apply_command cd n (UpdateMeta name ec desc2 intv2 grc2 nxt2 upd2) d' = (Inl VersionConflict, d')"
proof -
  have valid: "is_valid_secret_name name \<and> is_valid_secret_version (vr_version v)"
    using assms(3) put_version_valid by simp
  then have "version_key name (vr_version v) \<noteq> version_key name ec"
    using assms by (intro version_key_neq) auto
  from put_version_effect [OF assms(2) this assms(3) [simplified]]
  obtain s where s: "tget (SECRETS d') name = Some (enc_secret cd s)" "sr_current_version s = vr_version v"
    by fastforce
  have "check_secret_row name (vr_version v2) = Inr ()"
    using valid assms(8) by (simp add: check_secret_row_ok)
  with s show ?thesis
    using assms(7) by (simp add: apply_put_version_def apply_update_meta_def codec_okD [OF assms(1)])
qed

theorem put_version_wins_once_witness:
  "let d' = snd (apply_command row_codec 1 (put_sample 1 2) one_secret_db)
   in apply_command row_codec 1 (put_sample 1 3) d' = (Inl VersionConflict, d')"
  using put_version_wins_once [OF row_codec_ok one_secret_db_wf put_sample_eq [unfolded put_sample_def], of "sample_version 3"]
  by (simp add: put_sample_def Let_def sample_version_def is_valid_secret_version_def
      MIN_SECRET_VERSION_def i32_max_def)

section \<open>Deleting a secret\<close>

lemma delete_secret_eq:
  "tget (SECRETS d) name \<noteq> None \<Longrightarrow> apply_delete_secret name d =
     (Inr (), d\<lparr>SECRETS := tremove name (SECRETS d),
               VERSIONS := tremove_all (map fst (vs.own_rows name (VERSIONS d))) (VERSIONS d)\<rparr>)"
  by (auto simp: apply_delete_secret_def vs.own_rows_def Let_def)

text \<open>
  C32: deleting an existing secret removes its row and every version row of it, and no row of any
  other secret, also when another secret's name extends the deleted one's.
\<close>

theorem delete_secret_exact:
  assumes "db_wf d" "tget (SECRETS d) name \<noteq> None" "is_valid_secret_name name"
  shows "\<exists>d'. apply_command cd node_id (DeleteSecret name) d = (Inr (), d') \<and>
     tget (SECRETS d') = (tget (SECRETS d))(name := None) \<and>
     (\<forall>v. good_version name v \<longrightarrow> tget (VERSIONS d') (version_key name v) = None) \<and>
     (\<forall>m v. good_version m v \<and> m \<noteq> name \<longrightarrow>
        tget (VERSIONS d') (version_key m v) = tget (VERSIONS d) (version_key m v)) \<and>
     d' = d\<lparr>SECRETS := SECRETS d', VERSIONS := VERSIONS d'\<rparr>"
proof -
  note versions = vs.remove_own_gone [OF db_wfD(2) [OF assms(1)]] vs.remove_own_frame [OF db_wfD(2) [OF assms(1)]]
  show ?thesis
    unfolding apply_command.simps delete_secret_eq [OF assms(2)]
    using versions tbl.get_del [OF db_wfD(1) [OF assms(1)]] by (intro exI conjI) (rule refl | simp)+
qed

theorem delete_secret_exact_witness:
  "\<exists>d'. apply_command row_codec 1 (DeleteSecret ''a'') one_secret_db = (Inr (), d') \<and>
     tget (VERSIONS d') (version_key ''a'' 1) = None"
proof -
  have "tget (SECRETS one_secret_db) ''a'' \<noteq> None" by (simp add: one_secret_db_eq tget_def)
  moreover have "good_version ''a'' 1" by (simp add: good_version_def i32_max_def)
  ultimately show ?thesis
    using delete_secret_exact [OF one_secret_db_wf _ valid_name_a, of row_codec 1] by blast
qed

section \<open>Expiring superseded versions\<close>

definition decodable_versions :: "'b codec \<Rightarrow> 'b db \<Rightarrow> bool" where
  "decodable_versions cd d \<longleftrightarrow> list_all (\<lambda>row. dec_version cd (snd row) \<noteq> None) (VERSIONS d)"

definition expired_row :: "'b codec \<Rightarrow> i64 \<Rightarrow> 'b \<Rightarrow> bool" where
  "expired_row cd now b =
     (case dec_version cd b of Some r \<Rightarrow> \<not> version_active now (vr_expires_at r) | None \<Rightarrow> False)"

lemma expired_keys_filter:
  "list_all (\<lambda>row. dec_version cd (snd row) \<noteq> None) rows \<Longrightarrow>
   expired_keys cd now rows = Inr (map fst (filter (\<lambda>row. expired_row cd now (snd row)) rows))"
  by (induction cd now rows rule: expired_keys.induct)
     (auto simp: expired_row_def version_active_def not_less split: option.split)

lemma expired_keys_undecodable:
  "\<not> list_all (\<lambda>row. dec_version cd (snd row) \<noteq> None) rows \<Longrightarrow>
   expired_keys cd now rows = Inl (Internal DecodeFailed)"
  by (induction cd now rows rule: expired_keys.induct) (auto split: option.splits sum.splits)

lemma expire_sweep:
  assumes "db_wf d" "decodable_versions cd d"
  shows "\<exists>d'. apply_expire_grace_versions cd now d = (Inr (), d') \<and>
           d' = d\<lparr>VERSIONS := VERSIONS d'\<rparr> \<and> twf (VERSIONS d') \<and>
           (\<forall>k b. tget (VERSIONS d') k = Some b \<longleftrightarrow>
              tget (VERSIONS d) k = Some b \<and>
              (\<exists>r. dec_version cd b = Some r \<and> version_active now (vr_expires_at r)))"
proof -
  let ?ks = "map fst (filter (\<lambda>row. expired_row cd now (snd row)) (VERSIONS d))"
  note rows = tin_rows [OF db_wfD(2) [OF assms(1)]]
  have app: "apply_expire_grace_versions cd now d =
      (Inr (), d\<lparr>VERSIONS := tremove_all ?ks (VERSIONS d)\<rparr>)"
    using expired_keys_filter [OF assms(2) [unfolded decodable_versions_def], of now]
    by (simp add: apply_expire_grace_versions_def)
  have ks: "k \<in> set ?ks \<longleftrightarrow> (\<exists>b. tget (VERSIONS d) k = Some b \<and> expired_row cd now b)" for k
    using rows by force
  have dec: "tget (VERSIONS d) k = Some b \<Longrightarrow>
      expired_row cd now b \<longleftrightarrow> \<not> (\<exists>r. dec_version cd b = Some r \<and> version_active now (vr_expires_at r))" for k b
    using assms(2) rows by (fastforce simp: decodable_versions_def list.pred_set expired_row_def split: option.split)
  have "tget (tremove_all ?ks (VERSIONS d)) k = Some b \<longleftrightarrow> tget (VERSIONS d) k = Some b \<and>
      (\<exists>r. dec_version cd b = Some r \<and> version_active now (vr_expires_at r))" for k b
    using ks [of k] dec [of k b] tbl.get_del_all [folded tremove_all_eq, OF db_wfD(2) [OF assms(1)], of ?ks k]
    by auto
  then show ?thesis using app assms(1) by (auto simp: table_simps db_wfD)
qed

text \<open>
  A sweep at time \<open>now\<close> removes exactly the version rows whose grace period has ended, by the test
  \<open>version_active\<close> the readers use, and nothing else; it fails only on a row that does not
  decode, and then removes nothing.
\<close>

theorem expire_grace_exact:
  assumes "db_wf d"
  shows "if decodable_versions cd d
    then \<exists>d'. apply_command cd node_id (ExpireGraceVersions now) d = (Inr (), d') \<and>
           d' = d\<lparr>VERSIONS := VERSIONS d'\<rparr> \<and>
           (\<forall>k b. tget (VERSIONS d') k = Some b \<longleftrightarrow>
              tget (VERSIONS d) k = Some b \<and>
              (\<exists>r. dec_version cd b = Some r \<and> version_active now (vr_expires_at r)))
    else apply_command cd node_id (ExpireGraceVersions now) d = (Inl (Internal DecodeFailed), d)"
  using expire_sweep [OF assms, of cd now] expired_keys_undecodable [of cd "VERSIONS d" now]
  by (auto simp: apply_expire_grace_versions_def decodable_versions_def)

theorem expire_grace_exact_witness:
  "\<exists>d'. apply_command row_codec 1 (ExpireGraceVersions 5) one_secret_db = (Inr (), d') \<and>
     tget (VERSIONS d') (version_key ''a'' 1) = Some (RowVersion (sample_version 1))"
  using expire_grace_exact [OF one_secret_db_wf, of row_codec 1 5]
  by (auto simp: decodable_versions_def one_secret_db_eq tget_def sample_version_def
      version_active_def)

section \<open>Rewrapping a data key\<close>

lemma rewrap_row:
  assumes "codec_ok cd" "db_wf d" "tget (VERSIONS d) (version_key name ver) = Some b"
    and "dec_version cd b = Some r"
  shows "apply_rewrap_version cd name ver kid w t d =
    (Inr (), if (\<exists>c. vr_wrapped_rotation_at r = Some c \<and> t \<le> c) then d
             else d\<lparr>VERSIONS := tinsert (version_key name ver) (enc_version cd
                (r\<lparr>vr_kms_key_id := kid, vr_wrapped_dek := w, vr_wrapped_rotation_at := Some t\<rparr>))
                (VERSIONS d)\<rparr>)"
  using assms by (auto simp: apply_rewrap_version_def split: option.split)

lemma tins_twice: "twf t \<Longrightarrow> tinsert k v (tinsert k u t) = tinsert k v t"
  by (rule ttable_eqI) (simp_all add: table_simps)

text \<open>
  Rewraps of a version converge on the latest one. A rewrap for an older or the same rotation of
  the key encryption key changes nothing, and one for a newer rotation overrides the older
  one completely, whatever the order of arrival; only the key id, the wrapped key and the
  rotation time of the row ever change.
\<close>

theorem rewrap_latest_wins:
  assumes "codec_ok cd" "db_wf d" "tget (VERSIONS d) (version_key name ver) = Some b"
    and "dec_version cd b = Some r" "t1 \<le> t2"
  shows "let rw1 = (\<lambda>d. snd (apply_command cd n (RewrapVersion name ver kid1 w1 t1) d));
             rw2 = (\<lambda>d. snd (apply_command cd n (RewrapVersion name ver kid2 w2 t2) d))
         in rw1 (rw2 d) = rw2 d \<and> (t1 < t2 \<longrightarrow> rw2 (rw1 d) = rw2 d) \<and>
            (\<exists>b' r'. tget (VERSIONS (rw2 d)) (version_key name ver) = Some b' \<and> dec_version cd b' = Some r' \<and>
               r' = r\<lparr>vr_kms_key_id := vr_kms_key_id r', vr_wrapped_dek := vr_wrapped_dek r',
                      vr_wrapped_rotation_at := vr_wrapped_rotation_at r'\<rparr> \<and>
               (\<exists>c. vr_wrapped_rotation_at r' = Some c \<and> t2 \<le> c))"
proof -
  let ?k = "version_key name ver"
  let ?put = "\<lambda>kid w t. d\<lparr>VERSIONS := tinsert ?k (enc_version cd
     (r\<lparr>vr_kms_key_id := kid, vr_wrapped_dek := w, vr_wrapped_rotation_at := Some t\<rparr>)) (VERSIONS d)\<rparr>"
  have again: "apply_rewrap_version cd name ver kid w t (?put kid' w' t') =
      (Inr (), if t \<le> t' then ?put kid' w' t' else ?put kid w t)" for kid w t kid' w' t'
    using assms(1,2)
    by (simp add: apply_rewrap_version_def table_simps db_wfD codec_okD tins_twice)
  show ?thesis
    using assms(3-5) by (auto simp: Let_def rewrap_row [OF assms(1-4)] again table_simps
        codec_okD [OF assms(1)] db_wfD [OF assms(2)])
qed

theorem rewrap_latest_wins_witness:
  "snd (apply_command row_codec 1 (RewrapVersion ''a'' 1 ''old'' [1] 3)
     (snd (apply_command row_codec 1 (RewrapVersion ''a'' 1 ''new'' [2] 9) one_secret_db))) =
   snd (apply_command row_codec 1 (RewrapVersion ''a'' 1 ''new'' [2] 9) one_secret_db)"
  using rewrap_latest_wins [OF row_codec_ok one_secret_db_wf, of "''a''" 1 "RowVersion (sample_version 1)"
      "sample_version 1" 3 9 1 "''old''" "[1]" "''new''" "[2]"]
  by (simp add: one_secret_db_eq tget_def Let_def)

end
