(* ===== verification/Store_Access.thy ===== *)
theory Store_Access
  imports Store_Apply
begin

text \<open>
  The commands behind access control: tokens and roles, the audit log, and the counters of
  failed authentications.
\<close>

section \<open>Tokens and roles\<close>

text \<open>
  A token that was added can be revoked by its name, and once: the second revocation reports
  that there is no such token, and the token keeps the time of the first. No other token changes.
\<close>

theorem token_revoked_once:
  assumes "codec_ok cd" "db_wf d" "tr_revoked_at token = None"
    and "apply_command cd n (AddToken token) d = (Inr (), d1)"
  shows "\<exists>d2. apply_command cd n (RevokeToken (tr_name token) at) d1 = (Inr (), d2) \<and>
     tget (TOKENS d2) = (tget (TOKENS d))
       (tr_fingerprint token \<mapsto> enc_token cd (token\<lparr>tr_revoked_at := Some at\<rparr>)) \<and>
     apply_command cd n (RevokeToken (tr_name token) at') d2 = (Inl NotFound, d2)"
  using assms
  by (auto simp: apply_add_token_def apply_revoke_token_def Let_def table_simps db_wfD codec_okD
      split: if_splits)

definition sample_token :: TokenRecord where
  "sample_token = \<lparr>tr_name = ''ci'', tr_role = Some ''ops'', tr_fingerprint = [1, 2],
     tr_created_at = 1, tr_last_used_at = None, tr_revoked_at = None\<rparr>"

theorem token_revoked_once_witness:
  "\<exists>d1 d2. apply_command row_codec 1 (AddToken sample_token) empty_db = (Inr (), d1) \<and>
     apply_command row_codec 1 (RevokeToken ''ci'' 7) d1 = (Inr (), d2) \<and>
     apply_command row_codec 1 (RevokeToken ''ci'' 9) d2 = (Inl NotFound, d2)"
proof -
  let ?r = "apply_command row_codec 1 (AddToken sample_token) empty_db"
  have r: "?r = (Inr (), snd ?r)" by (simp add: apply_add_token_def empty_db_def Let_def)
  have "tr_revoked_at sample_token = None" "tr_name sample_token = ''ci''"
    by (simp_all add: sample_token_def)
  then show ?thesis
    using token_revoked_once [OF row_codec_ok db_wf_empty _ r, of 7 9] r by auto
qed

lemma check_role_unused_iff:
  "list_all (\<lambda>row. dec_token cd (snd row) \<noteq> None) rows \<Longrightarrow>
   check_role_unused cd name rows =
     (if \<exists>k b t. (k, b) \<in> set rows \<and> dec_token cd b = Some t \<and> tr_role t = Some name
      then Inl (Conflict (RoleStillHasTokens name)) else Inr ())"
proof (induction cd name rows rule: check_role_unused.induct)
  case (2 cd name k b rows)
  then obtain t where "dec_token cd b = Some t" by auto
  with 2 show ?case by (cases "tr_role t = Some name") auto
qed simp

text \<open>
  Where all token rows decode, a role is deleted exactly if it exists and no token, revoked or
  not, is bound to it; so no accepted deletion leaves a token with a role that is gone.
\<close>

theorem delete_role_iff_unused:
  assumes "db_wf d" "list_all (\<lambda>row. dec_token cd (snd row) \<noteq> None) (TOKENS d)"
  shows "(fst (apply_command cd n (DeleteRole name) d) = Inr () \<longleftrightarrow>
            tget (ROLES d) name \<noteq> None \<and>
            \<not> (\<exists>k b t. tget (TOKENS d) k = Some b \<and> dec_token cd b = Some t \<and> tr_role t = Some name)) \<and>
         (fst (apply_command cd n (DeleteRole name) d) = Inr () \<longrightarrow>
            tget (ROLES (snd (apply_command cd n (DeleteRole name) d))) = (tget (ROLES d))(name := None))"
  using assms
  by (auto simp: apply_delete_role_def check_role_unused_iff Let_def tin_rows [OF db_wfD(4) [OF assms(1)]]
      table_simps db_wfD)

definition sample_role :: RoleRecord where
  "sample_role = \<lparr>rr_name = ''ops'', rr_description = None, rr_is_admin = False,
     rr_permissions = [], rr_created_at = 1\<rparr>"

theorem delete_role_iff_unused_witness:
  "let d = empty_db\<lparr>ROLES := [(''ops'', RowRole sample_role)], TOKENS := [([1, 2], RowToken sample_token)]\<rparr>
   in fst (apply_command row_codec 1 (DeleteRole ''ops'') d) \<noteq> Inr ()"
proof -
  let ?d = "empty_db\<lparr>ROLES := [(''ops'', RowRole sample_role)], TOKENS := [([1, 2], RowToken sample_token)]\<rparr>"
  have wf: "db_wf ?d" by (simp add: db_wf_def empty_db_def twf_def)
  have "list_all (\<lambda>row. dec_token row_codec (snd row) \<noteq> None) (TOKENS ?d)"
    by (simp add:)
  from delete_role_iff_unused [OF wf this, of 1 "''ops''"] show ?thesis
    by (simp add: Let_def tget_def row_codec_def sample_token_def)
qed

section \<open>The audit log\<close>

lemma sorted_le_last: "sorted xs \<Longrightarrow> x \<in> set xs \<Longrightarrow> x \<le> last xs"
  by (induction xs rule: rev_induct) (auto simp: sorted_append)

lemma last_audit_key_Some:
  assumes "twf t" "last_audit_key t = Some k"
  shows "k \<le> MAX_AUDIT_KEY \<and> tget t k \<noteq> None \<and> (\<forall>j \<le> MAX_AUDIT_KEY. tget t j \<noteq> None \<longrightarrow> j \<le> k)"
proof -
  let ?ks = "tkeys (trange (\<lambda>k. k \<le> MAX_AUDIT_KEY) t)"
  have k: "?ks \<noteq> []" "k = last ?ks"
    using assms(2) by (auto simp: last_audit_key_def Let_def split: if_splits)
  have mem: "j \<in> set ?ks \<longleftrightarrow> j \<le> MAX_AUDIT_KEY \<and> tget t j \<noteq> None" for j
    using assms(1) by (simp add: tkeys_get tget_trange)
  have "sorted ?ks"
    using twf_trange [OF assms(1)] strict_sorted_iff by (auto simp: twf_def tkeys_def)
  then have "j \<le> k" if "j \<in> set ?ks" for j
    using that k(2) sorted_le_last by blast
  then show ?thesis using k mem last_in_set by metis
qed

lemma last_audit_key_None:
  assumes "twf t" "last_audit_key t = None"
  shows "\<forall>j \<le> MAX_AUDIT_KEY. tget t j = None"
proof -
  let ?t = "trange (\<lambda>k. k \<le> MAX_AUDIT_KEY) t"
  have "tkeys ?t = []" using assms(2) by (auto simp: last_audit_key_def Let_def split: if_splits)
  then have "tget ?t j = None" for j
    using tkeys_get [OF twf_trange [OF assms(1), of "\<lambda>k. k \<le> MAX_AUDIT_KEY"], of j] by simp
  then show ?thesis by (metis tget_trange)
qed

lemma audit_step_fresh:
  fixes k :: u64
  assumes "k < MAX_AUDIT_KEY"
  shows "checked_add_u64 k 1 = Some (k + 1)" "k < k + 1" "k + 1 \<le> MAX_AUDIT_KEY"
proof -
  have lt: "unat k < 4503599627370496"
    using assms by (simp add: MAX_AUDIT_KEY_def word_less_nat_alt)
  then have un: "unat (k + 1) = unat k + 1"
    by (simp add: unat_word_ariths)
  show "checked_add_u64 k 1 = Some (k + 1)" "k < k + 1" "k + 1 \<le> MAX_AUDIT_KEY"
    using lt un by (simp_all add: checked_add_u64_def word_less_nat_alt word_le_nat_alt MAX_AUDIT_KEY_def)
qed

text \<open>
  While the highest key of the audit log is not in use, appending never fails and never
  overwrites: the new row takes a key that no row has, above all rows in the plausible range,
  it carries the node that applies it, and every earlier row is still there.
\<close>

theorem append_audit_fresh:
  assumes "db_wf d" "tget (AUDIT d) MAX_AUDIT_KEY = None"
  shows "\<exists>d' k. apply_command cd n (AppendAudit entry) d = (Inr (), d') \<and>
     tget (AUDIT d) k = None \<and> k \<le> MAX_AUDIT_KEY \<and>
     (\<forall>j \<le> MAX_AUDIT_KEY. tget (AUDIT d) j \<noteq> None \<longrightarrow> j < k) \<and>
     tget (AUDIT d') = (tget (AUDIT d))(k \<mapsto> enc_audit cd (entry\<lparr>ae_node_id := n\<rparr>)) \<and>
     d' = d\<lparr>AUDIT := AUDIT d'\<rparr>"
proof (cases "last_audit_key (AUDIT d)")
  case None
  then show ?thesis
    using last_audit_key_None [OF db_wfD(7) [OF assms(1)] None] assms(1)
    by (intro exI [of _ "snd (apply_append_audit cd n entry d)"] exI [of _ 0])
       (auto simp: apply_append_audit_def table_simps db_wfD)
next
  case (Some k)
  note l = last_audit_key_Some [OF db_wfD(7) [OF assms(1)] Some]
  with assms(2) have "k < MAX_AUDIT_KEY" by (auto simp: order_less_le)
  note f = audit_step_fresh [OF this]
  have "tget (AUDIT d) (k + 1) = None" using l f(2,3) by (meson leD)
  moreover have "\<forall>j \<le> MAX_AUDIT_KEY. tget (AUDIT d) j \<noteq> None \<longrightarrow> j < k + 1"
    using l f(2) by (meson le_less_trans)
  ultimately show ?thesis
    using Some f assms(1)
    by (intro exI [of _ "snd (apply_append_audit cd n entry d)"] exI [of _ "k + 1"])
       (auto simp: apply_append_audit_def table_simps db_wfD)
qed

definition sample_entry :: AuditEntry where
  "sample_entry = \<lparr>ae_at = 3, ae_actor = None, ae_client_ip = None, ae_action = ''read'',
     ae_secret_name = None, ae_outcome = ''ok'', ae_node_id = 0\<rparr>"

theorem append_audit_fresh_witness:
  "\<exists>d' k. apply_command row_codec 4 (AppendAudit sample_entry) sample_db = (Inr (), d') \<and>
     tget (AUDIT d') k = Some (RowAudit (sample_entry\<lparr>ae_node_id := 4\<rparr>)) \<and> 4 < k"
proof -
  have "tget (AUDIT sample_db) MAX_AUDIT_KEY = None" "tget (AUDIT sample_db) 4 \<noteq> None" "4 \<le> MAX_AUDIT_KEY"
    by (simp_all add: sample_db_def tget_def MAX_AUDIT_KEY_def)
  with append_audit_fresh [OF sample_db_ok(1), of row_codec 4 sample_entry] show ?thesis
    by (metis fun_upd_same row_codec_simps(11))
qed

text \<open>
  C35: once a row has the highest plausible key, which a restored backup may contain, all further appends
  write the same key: of two entries appended one after the other only the second is kept.
\<close>

theorem append_audit_overwrites_at_limit:
  assumes "db_wf d" "tget (AUDIT d) MAX_AUDIT_KEY \<noteq> None"
  shows "snd (apply_command cd n (AppendAudit e2) (snd (apply_command cd n (AppendAudit e1) d))) =
         snd (apply_command cd n (AppendAudit e2) d) \<and>
         fst (apply_command cd n (AppendAudit e1) d) = Inr ()"
proof -
  have last: "last_audit_key t = Some MAX_AUDIT_KEY" if "twf t" "tget t MAX_AUDIT_KEY \<noteq> None" for t :: "(u64, 'a) table"
  proof (cases "last_audit_key t")
    case None
    then show ?thesis using last_audit_key_None [OF that(1)] that(2) by auto
  next
    case (Some k)
    then show ?thesis using last_audit_key_Some [OF that(1) Some] that(2) by (auto intro: antisym)
  qed
  have add: "checked_add_u64 MAX_AUDIT_KEY 1 = Some (MAX_AUDIT_KEY + 1)"
    by (simp add: checked_add_u64_def MAX_AUDIT_KEY_def)
  have app: "apply_append_audit cd n e t = (Inr (), t\<lparr>AUDIT := tinsert (MAX_AUDIT_KEY + 1)
      (enc_audit cd (e\<lparr>ae_node_id := n\<rparr>)) (AUDIT t)\<rparr>)"
    if "db_wf t" "tget (AUDIT t) MAX_AUDIT_KEY \<noteq> None" for e t
    using last [of "AUDIT t"] that add by (simp add: apply_append_audit_def db_wfD)
  let ?d1 = "snd (apply_append_audit cd n e1 d)"
  have "db_wf ?d1" "tget (AUDIT ?d1) MAX_AUDIT_KEY \<noteq> None"
    using assms by (simp_all add: app table_simps db_wfD)
  from app [OF this, of e2] show ?thesis
    using assms app [OF assms]
    by simp (rule arg_cong [where f = "\<lambda>x. d\<lparr>AUDIT := x\<rparr>"], rule ttable_eqI, simp_all add: table_simps db_wfD)
qed

theorem append_audit_overwrites_at_limit_witness:
  "let d = empty_db\<lparr>AUDIT := [(MAX_AUDIT_KEY, RowGarbage)]\<rparr>
   in snd (apply_command row_codec 1 (AppendAudit (sample_entry\<lparr>ae_at := 9\<rparr>))
        (snd (apply_command row_codec 1 (AppendAudit sample_entry) d))) =
      snd (apply_command row_codec 1 (AppendAudit (sample_entry\<lparr>ae_at := 9\<rparr>)) d)"
  using append_audit_overwrites_at_limit [of "empty_db\<lparr>AUDIT := [(MAX_AUDIT_KEY, RowGarbage)]\<rparr>" row_codec 1
      "sample_entry\<lparr>ae_at := 9\<rparr>" sample_entry]
  by (simp add: Let_def tget_def) (simp add: db_wf_def empty_db_def twf_def)

section \<open>Authentication failures\<close>

definition record_failures :: "'b codec \<Rightarrow> u64 \<Rightarrow> string \<Rightarrow> u32 \<Rightarrow> i64 \<Rightarrow> i64 \<Rightarrow> i64 list \<Rightarrow> 'b db \<Rightarrow> 'b db" where
  "record_failures cd n key mx window lockout ts d =
     fold (\<lambda>t d. snd (apply_command cd n (RecordAuthFailure key t mx window lockout) d)) ts d"

definition lockout_after :: "nat \<Rightarrow> u32 \<Rightarrow> i64 \<Rightarrow> i64 \<Rightarrow> i64 \<Rightarrow> LockoutRecord" where
  "lockout_after k mx start latest lockout =
     \<lparr>lr_failures = of_nat k, lr_window_start = start,
      lr_locked_until = (if unat mx \<le> k then Some (latest + lockout) else None)\<rparr>"

lemma bump_lockout_after:
  assumes "Suc k < 2 ^ 32" "start \<le> t" "t - start < window" "in_i64 (t + lockout)"
    and "0 \<le> start" "t \<le> i64_max" "in_i64 (prev + lockout)"
  shows "bump_lockout t mx window lockout (lockout_after k mx start prev lockout) =
         lockout_after (Suc k) mx start t lockout"
proof -
  have un: "unat (of_nat (Suc k) :: u32) = Suc k"
    using assms(1) by (subst unat_of_nat) simp
  have "in_i64 (t - start)" using assms(2,5,6) by (simp add: int_defs)
  then have "wrap_i64 (t - start) = t - start" "wrap_i64 (t + lockout) = t + lockout"
    using assms(4) by simp_all
  then show ?thesis
    using assms(3) un by (auto simp: bump_lockout_def lockout_after_def Let_def word_le_nat_alt add.commute)
qed

lemma record_failures_step:
  assumes "codec_ok cd" "db_wf d" "tget (LOCKOUTS d) key = Some (enc_lockout cd (lockout_after k mx start prev lockout))"
    and "k + length ts < 2 ^ 32" "0 \<le> start" "in_i64 (prev + lockout)"
    and "\<forall>t \<in> set ts. start \<le> t \<and> t - start < window \<and> t \<le> i64_max \<and> in_i64 (t + lockout)"
  shows "tget (LOCKOUTS (record_failures cd n key mx window lockout ts d)) key =
    Some (enc_lockout cd (lockout_after (k + length ts) mx start (last (prev # ts)) lockout))"
  using assms(2-4,6,7)
proof (induction ts arbitrary: k prev d)
  case Nil
  then show ?case by (simp add: record_failures_def)
next
  case (Cons t ts)
  let ?d = "snd (apply_record_auth_failure cd key t mx window lockout d)"
  have "bump_lockout t mx window lockout (lockout_after k mx start prev lockout) =
      lockout_after (Suc k) mx start t lockout"
    using Cons.prems assms(5) by (intro bump_lockout_after) auto
  then have "tget (LOCKOUTS ?d) key = Some (enc_lockout cd (lockout_after (Suc k) mx start t lockout))"
    using Cons.prems assms(1) by (simp add: apply_record_auth_failure_def table_simps db_wfD codec_okD)
  moreover have "db_wf ?d"
    using apply_command_wf [OF Cons.prems(1), of cd n "RecordAuthFailure key t mx window lockout"] by simp
  ultimately show ?case
    using Cons.IH [of ?d "Suc k" t] Cons.prems by (simp add: record_failures_def)
qed

text \<open>
  C36: a peer with no record is locked out exactly by the failure that reaches the limit. After
  failures at the times \<open>t # ts\<close>, all within the window that the first one opens, the record
  counts all of them, and holds a lockout, from the latest failure on, if and only if there
  are at least \<open>mx\<close> of them.
\<close>

theorem lockout_at_limit:
  assumes "codec_ok cd" "db_wf d" "tget (LOCKOUTS d) key = None"
    and "Suc (length ts) < 2 ^ 32" "0 \<le> t" "0 < window" "t \<le> i64_max" "in_i64 (t + lockout)"
    and "\<forall>u \<in> set ts. t \<le> u \<and> u - t < window \<and> u \<le> i64_max \<and> in_i64 (u + lockout)"
  shows "tget (LOCKOUTS (record_failures cd n key mx window lockout (t # ts) d)) key =
    Some (enc_lockout cd
      \<lparr>lr_failures = of_nat (Suc (length ts)), lr_window_start = t,
       lr_locked_until = (if unat mx \<le> Suc (length ts) then Some (last (t # ts) + lockout) else None)\<rparr>)"
proof -
  let ?d = "snd (apply_record_auth_failure cd key t mx window lockout d)"
  let ?new = "\<lparr>lr_failures = 0, lr_window_start = t, lr_locked_until = None\<rparr>"
  have "unat mx \<le> 1 \<longleftrightarrow> mx \<le> 1" by (simp add: word_le_nat_alt)
  then have "bump_lockout t mx window lockout ?new = lockout_after 1 mx t t lockout"
    using assms(6,8) by (simp add: bump_lockout_def lockout_after_def Let_def)
  then have "tget (LOCKOUTS ?d) key = Some (enc_lockout cd (lockout_after 1 mx t t lockout))"
    using assms(2,3) by (simp add: apply_record_auth_failure_def table_simps db_wfD)
  moreover have "db_wf ?d"
    using apply_command_wf [OF assms(2), of cd n "RecordAuthFailure key t mx window lockout"] by simp
  ultimately show ?thesis
    using record_failures_step [of cd ?d key 1 mx t t lockout ts window n] assms
    by (simp add: record_failures_def lockout_after_def)
qed

theorem lockout_at_limit_witness:
  "tget (LOCKOUTS (record_failures row_codec 1 ''10.0.0.1'' 3 300 900 [100, 110, 200] empty_db)) ''10.0.0.1'' =
     Some (RowLockout \<lparr>lr_failures = 3, lr_window_start = 100, lr_locked_until = Some 1100\<rparr>)"
  using lockout_at_limit [OF row_codec_ok db_wf_empty, of "''10.0.0.1''" "[110, 200]" 100 300 900 1 3]
  by (simp add: int_defs) (simp add: empty_db_def)

end
