(* ===== verification/Store_Invariant.thy ===== *)
theory Store_Invariant
  imports Store_Laws Store_Access
begin

text \<open>
  The invariant of the store. Every row decodes; a secret's row is stored under its name, its
  current version exists and never expires, and no version row is an orphan or ahead of the
  current version; the token table and the index of token names are inverse to each other.
  The commands that the services issue preserve it (\<open>command_ok\<close> says what they
  guarantee of a command), so that no command of theirs ever fails on a stored row.
\<close>

section \<open>The invariant\<close>

definition secret_row_ok :: "string \<Rightarrow> SecretRecord \<Rightarrow> bool" where
  "secret_row_ok n s \<longleftrightarrow> sr_name s = n \<and> is_valid_secret_name n \<and>
     is_valid_secret_version (sr_current_version s) \<and> sr_current_version s \<le> i32_max"

definition current_row_ok :: "'b codec \<Rightarrow> (string \<rightharpoonup> 'b) \<Rightarrow> string \<Rightarrow> SecretRecord \<Rightarrow> bool" where
  "current_row_ok cd V n s \<longleftrightarrow>
     (\<exists>c r. V (version_key n (sr_current_version s)) = Some c \<and> dec_version cd c = Some r \<and>
        vr_expires_at r = None)"

definition version_row_ok :: "'b codec \<Rightarrow> (string \<rightharpoonup> 'b) \<Rightarrow> string \<Rightarrow> 'b \<Rightarrow> bool" where
  "version_row_ok cd S k c \<longleftrightarrow>
     (\<exists>n b s r. k = version_key n (vr_version r) \<and> dec_version cd c = Some r \<and> S n = Some b \<and>
        dec_secret cd b = Some s \<and> is_valid_secret_version (vr_version r) \<and>
        vr_version r \<le> sr_current_version s)"

definition secrets_inv :: "'b codec \<Rightarrow> (string \<rightharpoonup> 'b) \<Rightarrow> (string \<rightharpoonup> 'b) \<Rightarrow> bool" where
  "secrets_inv cd S V \<longleftrightarrow>
     (\<forall>n b. S n = Some b \<longrightarrow>
        (\<exists>s. dec_secret cd b = Some s \<and> secret_row_ok n s \<and> current_row_ok cd V n s)) \<and>
     (\<forall>k c. V k = Some c \<longrightarrow> version_row_ok cd S k c)"

definition tokens_inv :: "'b codec \<Rightarrow> (bytes \<rightharpoonup> 'b) \<Rightarrow> (string \<rightharpoonup> bytes) \<Rightarrow> bool" where
  "tokens_inv cd T N \<longleftrightarrow>
     (\<forall>f b. T f = Some b \<longrightarrow>
        (\<exists>t. dec_token cd b = Some t \<and> tr_fingerprint t = f \<and> N (tr_name t) = Some f)) \<and>
     (\<forall>n f. N n = Some f \<longrightarrow> (\<exists>b t. T f = Some b \<and> dec_token cd b = Some t \<and> tr_name t = n))"

definition rows_inv :: "'b codec \<Rightarrow> 'b db \<Rightarrow> bool" where
  "rows_inv cd d \<longleftrightarrow>
     (\<forall>k b. tget (ROLES d) k = Some b \<longrightarrow> (\<exists>r. dec_role cd b = Some r \<and> rr_name r = k)) \<and>
     (\<forall>k b. tget (LOCKOUTS d) k = Some b \<longrightarrow> dec_lockout cd b \<noteq> None) \<and>
     (\<forall>k b. tget (AUDIT d) k = Some b \<longrightarrow> dec_audit cd b \<noteq> None) \<and>
     (\<forall>k b. tget (KMS_REWRAP d) k = Some b \<longrightarrow> dec_kms cd b \<noteq> None)"

definition vault_inv :: "'b codec \<Rightarrow> 'b db \<Rightarrow> bool" where
  "vault_inv cd d \<longleftrightarrow> db_wf d \<and> secrets_inv cd (tget (SECRETS d)) (tget (VERSIONS d)) \<and>
     tokens_inv cd (tget (TOKENS d)) (tget (TOKENS_BY_NAME d)) \<and> rows_inv cd d"

definition command_ok :: "'b codec \<Rightarrow> 'b Command \<Rightarrow> bool" where
  "command_ok cd c =
     (case c of
        CreateSecret s v \<Rightarrow> sr_current_version s = vr_version v \<and> vr_version v \<le> i32_max \<and> vr_expires_at v = None
      | PutVersion name ec v ex desc intv grc nxt upd \<Rightarrow>
          next_version ec = Some (vr_version v) \<and> vr_expires_at v = None
      | RestoreDatabase data \<Rightarrow> (\<exists>e. vault_inv cd e \<and> data = dump_database e)
      | _ \<Rightarrow> True)"

lemma vault_inv_empty: "vault_inv cd empty_db"
  by (simp add: vault_inv_def secrets_inv_def tokens_inv_def rows_inv_def) (simp add: empty_db_def)

section \<open>Secrets and versions\<close>

lemma secrets_invI:
  assumes "\<And>n b. S n = Some b \<Longrightarrow>
      \<exists>s. dec_secret cd b = Some s \<and> secret_row_ok n s \<and> current_row_ok cd V n s"
    and "\<And>k c. V k = Some c \<Longrightarrow> version_row_ok cd S k c"
  shows "secrets_inv cd S V"
  using assms by (simp add: secrets_inv_def)

lemma secrets_inv_secret:
  assumes "secrets_inv cd S V" "S n = Some b"
  obtains s where "dec_secret cd b = Some s" "secret_row_ok n s" "current_row_ok cd V n s"
  using assms unfolding secrets_inv_def by blast

lemma secrets_inv_version:
  assumes "secrets_inv cd S V" "V k = Some c"
  obtains n b s r where "k = version_key n (vr_version r)" "dec_version cd c = Some r" "S n = Some b"
    "dec_secret cd b = Some s" "secret_row_ok n s" "good_version n (vr_version r)"
    "is_valid_secret_version (vr_version r)" "vr_version r \<le> sr_current_version s"
proof -
  from assms obtain n b s r where k: "k = version_key n (vr_version r)" "dec_version cd c = Some r" "S n = Some b"
    "dec_secret cd b = Some s" "is_valid_secret_version (vr_version r)" "vr_version r \<le> sr_current_version s"
    unfolding secrets_inv_def version_row_ok_def by blast
  from assms(1) k(3,4) have "secret_row_ok n s" by (metis option.inject secrets_inv_secret)
  then have "good_version n (vr_version r)"
    using k(5,6) by (intro good_versionI) (auto simp: secret_row_ok_def)
  with k \<open>secret_row_ok n s\<close> show thesis by (intro that)
qed

lemma secret_row_good: "secret_row_ok n s \<Longrightarrow> good_version n (sr_current_version s)"
  unfolding secret_row_ok_def by (intro good_versionI) auto

lemma version_key_eq_iff:
  assumes "good_version n v" "good_version m w"
  shows "version_key n v = version_key m w \<longleftrightarrow> n = m \<and> v = w"
  using vs.parse_key [OF assms(1)] vs.parse_key [OF assms(2)] vs.parse_owner by (metis option.inject)

lemma current_row_ok_upd:
  assumes "codec_ok cd" "current_row_ok cd V n s" "vr_expires_at v = None"
  shows "current_row_ok cd (V(k \<mapsto> enc_version cd v)) n s"
  using assms codec_okD [OF assms(1)] by (auto simp: current_row_ok_def)

lemma secrets_inv_create:
  assumes inv: "secrets_inv cd S V" and cd: "codec_ok cd" and new: "S (sr_name s) = None"
    and s: "secret_row_ok (sr_name s) s" "sr_current_version s = vr_version v" "vr_expires_at v = None"
  shows "secrets_inv cd (S(sr_name s \<mapsto> enc_secret cd s))
           (V(version_key (sr_name s) (vr_version v) \<mapsto> enc_version cd v))"
  unfolding secrets_inv_def
proof (intro conjI allI impI)
  fix n b assume "(S(sr_name s \<mapsto> enc_secret cd s)) n = Some b"
  then show "\<exists>s'. dec_secret cd b = Some s' \<and> secret_row_ok n s' \<and>
      current_row_ok cd (V(version_key (sr_name s) (vr_version v) \<mapsto> enc_version cd v)) n s'"
  proof (cases "n = sr_name s")
    case True
    with \<open>(S(sr_name s \<mapsto> enc_secret cd s)) n = Some b\<close> show ?thesis
      using s codec_okD [OF cd] by (auto simp: current_row_ok_def)
  next
    case False
    with \<open>(S(sr_name s \<mapsto> enc_secret cd s)) n = Some b\<close> show ?thesis
      using secrets_inv_secret [OF inv, of n b] current_row_ok_upd [OF cd _ s(3)] by (metis fun_upd_other)
  qed
next
  fix k c assume k: "(V(version_key (sr_name s) (vr_version v) \<mapsto> enc_version cd v)) k = Some c"
  show "version_row_ok cd (S(sr_name s \<mapsto> enc_secret cd s)) k c"
  proof (cases "k = version_key (sr_name s) (vr_version v)")
    case True
    then show ?thesis using k s codec_okD [OF cd] by (auto simp: version_row_ok_def secret_row_ok_def)
  next
    case False
    with k have "V k = Some c" by simp
    then obtain n b t r where "k = version_key n (vr_version r)" "dec_version cd c = Some r" "S n = Some b"
      "dec_secret cd b = Some t" "is_valid_secret_version (vr_version r)" "vr_version r \<le> sr_current_version t"
      by (rule secrets_inv_version [OF inv])
    moreover from this new have "n \<noteq> sr_name s" by auto
    ultimately show ?thesis by (auto simp: version_row_ok_def)
  qed
qed

lemma version_row_ok_upd:
  assumes "codec_ok cd" "version_row_ok cd S k c" "S n = Some b" "dec_secret cd b = Some s"
    and "sr_current_version s \<le> sr_current_version s'"
  shows "version_row_ok cd (S(n \<mapsto> enc_secret cd s')) k c"
proof -
  from assms(2) obtain m b' t r where r: "k = version_key m (vr_version r)" "dec_version cd c = Some r"
    "S m = Some b'" "dec_secret cd b' = Some t" "is_valid_secret_version (vr_version r)"
    "vr_version r \<le> sr_current_version t"
    unfolding version_row_ok_def by blast
  show ?thesis
  proof (cases "m = n")
    case True
    with r assms(3,4) have "t = s" by simp
    with r True assms(5) codec_okD(1) [OF assms(1)] show ?thesis
      unfolding version_row_ok_def
      by (intro exI [of _ n] exI [of _ "enc_secret cd s'"] exI [of _ s'] exI [of _ r]) simp
  next
    case False
    with r show ?thesis unfolding version_row_ok_def
      by (intro exI [of _ m] exI [of _ b'] exI [of _ t] exI [of _ r]) simp
  qed
qed

lemma version_row_ok_rewrite:
  assumes "codec_ok cd" "version_row_ok cd S k c" "dec_version cd c = Some r" "vr_version r' = vr_version r"
  shows "version_row_ok cd S k (enc_version cd r')"
proof -
  from assms(2,3) obtain m b t where "k = version_key m (vr_version r)"
    "S m = Some b" "dec_secret cd b = Some t" "is_valid_secret_version (vr_version r)"
    "vr_version r \<le> sr_current_version t"
    unfolding version_row_ok_def by auto
  with assms(4) codec_okD(2) [OF assms(1)] show ?thesis
    unfolding version_row_ok_def
    by (intro exI [of _ m] exI [of _ b] exI [of _ t] exI [of _ r']) simp
qed

text \<open>Rewriting rows in place: the secret keeps its name and version, versions keep number and expiry.\<close>

lemma secrets_inv_meta:
  assumes inv: "secrets_inv cd S V" and cd: "codec_ok cd" and b: "S n = Some b" "dec_secret cd b = Some s"
    and s': "sr_name s' = sr_name s" "sr_current_version s' = sr_current_version s"
  shows "secrets_inv cd (S(n \<mapsto> enc_secret cd s')) V"
proof -
  have "secret_row_ok n s'" "current_row_ok cd V n s'"
    using secrets_inv_secret [OF inv b(1)] b(2) s' by (auto simp: secret_row_ok_def current_row_ok_def)
  moreover have "version_row_ok cd (S(n \<mapsto> enc_secret cd s')) k c" if "V k = Some c" for k c
    using version_row_ok_upd [where S = S and n = n, OF cd _ b] inv that s'(2) by (simp add: secrets_inv_def)
  ultimately show ?thesis
    using inv codec_okD(1) [OF cd] unfolding secrets_inv_def by simp
qed

lemma secrets_inv_rewrap:
  assumes inv: "secrets_inv cd S V" and cd: "codec_ok cd" and c: "V k = Some c" "dec_version cd c = Some r"
    and r': "vr_version r' = vr_version r" "vr_expires_at r' = vr_expires_at r"
  shows "secrets_inv cd S (V(k \<mapsto> enc_version cd r'))"
proof -
  have "version_row_ok cd S k (enc_version cd r')"
    using inv c r' by (intro version_row_ok_rewrite [OF cd]) (auto simp: secrets_inv_def)
  moreover have "current_row_ok cd V n s \<Longrightarrow> current_row_ok cd (V(k \<mapsto> enc_version cd r')) n s" for n s
    using c r' codec_okD [OF cd] unfolding current_row_ok_def by (auto simp: fun_upd_apply)
  moreover have "V j = Some x \<Longrightarrow> version_row_ok cd S j x" for j x
    using inv by (simp add: secrets_inv_def)
  ultimately show ?thesis
    by (intro secrets_invI) (auto split: if_splits elim: secrets_inv_secret [OF inv])
qed

lemma secrets_inv_put:
  assumes inv: "secrets_inv cd S V" and cd: "codec_ok cd" and b: "S n = Some b" "dec_secret cd b = Some s"
    and v: "next_version (sr_current_version s) = Some (vr_version v)" "vr_expires_at v = None"
    and s': "sr_name s' = sr_name s" "sr_current_version s' = vr_version v"
  shows "secrets_inv cd (S(n \<mapsto> enc_secret cd s'))
     (V(version_key n (sr_current_version s) := superseded_row cd ex (V (version_key n (sr_current_version s))),
        version_key n (vr_version v) \<mapsto> enc_version cd v))"
    (is "secrets_inv cd ?S ?V")
proof -
  have ok: "secret_row_ok n s" using secrets_inv_secret [OF inv b(1)] b(2) by auto
  then have next_v: "vr_version v = sr_current_version s + 1" "sr_current_version s < i32_max"
    using v(1) by (simp_all add: secret_row_ok_def next_version_Some)
  then have ok': "secret_row_ok n s'"
    using ok s' by (auto simp: secret_row_ok_def is_valid_secret_version_def)
  then have good: "good_version n (vr_version v)" "good_version n (sr_current_version s)"
    using secret_row_good [of n s'] secret_row_good [OF ok] s' by simp_all
  have frame: "?V (version_key m w) = V (version_key m w)" if "m \<noteq> n" "good_version m w" for m w
    using that good by (simp add: version_key_eq_iff)
  have secrets: "\<exists>t. dec_secret cd c = Some t \<and> secret_row_ok m t \<and> current_row_ok cd ?V m t"
    if "?S m = Some c" for m c
  proof (cases "m = n")
    case True
    then show ?thesis using that ok' s' v(2) codec_okD [OF cd] by (auto simp: current_row_ok_def)
  next
    case False
    with that obtain t where "dec_secret cd c = Some t" "secret_row_ok m t" "current_row_ok cd V m t"
      using secrets_inv_secret [OF inv, of m c] by auto
    with False show ?thesis using frame [OF False secret_row_good] by (auto simp: current_row_ok_def)
  qed
  have row: "version_row_ok cd ?S k c" if "V k = Some c" for k c
    using version_row_ok_upd [where S = S and n = n, OF cd _ b] inv that next_v s'(2) by (simp add: secrets_inv_def)
  have sup: "version_row_ok cd ?S k c"
    if old: "superseded_row cd ex (V k) = Some c" for k c
  proof -
    obtain c0 where c0: "V k = Some c0" using old by (cases "V k") (auto simp: superseded_row_def split: option.splits)
    with row obtain r where r: "dec_version cd c0 = Some r" "version_row_ok cd ?S k c0"
      unfolding version_row_ok_def by blast
    with c0 old have "c = c0 \<or> (\<exists>e. c = enc_version cd (r\<lparr>vr_expires_at := Some e\<rparr>))"
      by (auto simp: superseded_row_def split: option.splits if_splits)
    then show ?thesis
      using r(2) version_row_ok_rewrite [OF cd r(2,1)] by (elim disjE exE) simp_all
  qed
  have new: "version_row_ok cd ?S (version_key n (vr_version v)) (enc_version cd v)"
    using ok' s' codec_okD [OF cd] by (auto simp: version_row_ok_def secret_row_ok_def)
  show ?thesis
    by (rule secrets_invI, rule secrets, assumption) (auto split: if_splits intro: row sup new)
qed

lemma secrets_inv_delete:
  assumes inv: "secrets_inv cd S V"
    and V': "\<And>k. V' k = (if version_from_key n k = None then V k else None)"
  shows "secrets_inv cd (S(n := None)) V'"
proof (rule secrets_invI)
  fix m b assume "(S(n := None)) m = Some b"
  then have m: "m \<noteq> n" "S m = Some b" by (auto split: if_splits)
  from m(2) obtain s where s: "dec_secret cd b = Some s" "secret_row_ok m s" "current_row_ok cd V m s"
    by (rule secrets_inv_secret [OF inv])
  have "version_from_key n (version_key m (sr_current_version s)) = None"
    using vs.parse_owner [OF vs.parse_key [OF secret_row_good [OF s(2)]]] m(1) by (metis not_Some_eq)
  with s show "\<exists>s. dec_secret cd b = Some s \<and> secret_row_ok m s \<and> current_row_ok cd V' m s"
    by (auto simp: current_row_ok_def V')
next
  fix k c assume "V' k = Some c"
  then have k: "version_from_key n k = None" "V k = Some c" by (auto simp: V' split: if_splits)
  from k(2) obtain m b s r where r: "k = version_key m (vr_version r)" "dec_version cd c = Some r" "S m = Some b"
    "dec_secret cd b = Some s" "secret_row_ok m s" "good_version m (vr_version r)"
    "is_valid_secret_version (vr_version r)" "vr_version r \<le> sr_current_version s"
    by (rule secrets_inv_version [OF inv])
  with k(1) vs.parse_key [OF r(6)] have "m \<noteq> n" by auto
  with r show "version_row_ok cd (S(n := None)) k c"
    unfolding version_row_ok_def by (intro exI [of _ m] exI [of _ b] exI [of _ s] exI [of _ r]) simp
qed

lemma secrets_inv_expire:
  assumes inv: "secrets_inv cd S V"
    and V': "\<And>k c. V' k = Some c \<longleftrightarrow> V k = Some c \<and>
               (\<exists>r. dec_version cd c = Some r \<and> version_active now (vr_expires_at r))"
  shows "secrets_inv cd S V'"
proof (rule secrets_invI)
  fix n b assume "S n = Some b"
  then obtain s where s: "dec_secret cd b = Some s" "secret_row_ok n s" "current_row_ok cd V n s"
    by (rule secrets_inv_secret [OF inv])
  moreover from s(3) have "current_row_ok cd V' n s"
    by (auto simp: current_row_ok_def V' version_active_def)
  ultimately show "\<exists>s. dec_secret cd b = Some s \<and> secret_row_ok n s \<and> current_row_ok cd V' n s"
    by blast
next
  fix k c assume "V' k = Some c"
  then show "version_row_ok cd S k c" using inv by (simp add: V' secrets_inv_def)
qed

section \<open>Tokens\<close>

lemma tokens_inv_add:
  assumes "tokens_inv cd T N" "codec_ok cd" "T (tr_fingerprint t) = None" "N (tr_name t) = None"
  shows "tokens_inv cd (T(tr_fingerprint t \<mapsto> enc_token cd t)) (N(tr_name t \<mapsto> tr_fingerprint t))"
proof -
  have T: "\<exists>u. dec_token cd b = Some u \<and> tr_fingerprint u = f \<and> N (tr_name u) = Some f \<and> tr_name u \<noteq> tr_name t"
    if "T f = Some b" for f b
    using assms(1,4) that unfolding tokens_inv_def by (metis option.distinct(1))
  have N: "\<exists>b u. T f = Some b \<and> dec_token cd b = Some u \<and> tr_name u = n \<and> f \<noteq> tr_fingerprint t"
    if "N n = Some f" for n f
    using assms(1,3) that unfolding tokens_inv_def by (metis option.distinct(1))
  show ?thesis
    unfolding tokens_inv_def
  proof (intro conjI allI impI)
    fix f b assume "(T(tr_fingerprint t \<mapsto> enc_token cd t)) f = Some b"
    then show "\<exists>u. dec_token cd b = Some u \<and> tr_fingerprint u = f \<and>
        (N(tr_name t \<mapsto> tr_fingerprint t)) (tr_name u) = Some f"
      using T [of f b] codec_okD(4) [OF assms(2)] by (cases "f = tr_fingerprint t") auto
  next
    fix n f assume "(N(tr_name t \<mapsto> tr_fingerprint t)) n = Some f"
    then show "\<exists>b u. (T(tr_fingerprint t \<mapsto> enc_token cd t)) f = Some b \<and> dec_token cd b = Some u \<and> tr_name u = n"
      using N [of n f] codec_okD(4) [OF assms(2)] by (cases "n = tr_name t") auto
  qed
qed

lemma tokens_inv_rewrite:
  assumes inv: "tokens_inv cd T N" and cd: "codec_ok cd" and b: "T f = Some b" "dec_token cd b = Some t"
    and t': "tr_name t' = tr_name t" "tr_fingerprint t' = tr_fingerprint t"
  shows "tokens_inv cd (T(f \<mapsto> enc_token cd t')) N"
proof -
  have T: "T g = Some c \<Longrightarrow> \<exists>u. dec_token cd c = Some u \<and> tr_fingerprint u = g \<and> N (tr_name u) = Some g"
    and N: "N n = Some g \<Longrightarrow> \<exists>c u. T g = Some c \<and> dec_token cd c = Some u \<and> tr_name u = n" for g c n
    using inv unfolding tokens_inv_def by blast+
  from T [OF b(1)] b(2) have t: "tr_fingerprint t = f" "N (tr_name t) = Some f" by auto
  show ?thesis
    unfolding tokens_inv_def
  proof (intro conjI allI impI)
    fix g c assume "(T(f \<mapsto> enc_token cd t')) g = Some c"
    then show "\<exists>u. dec_token cd c = Some u \<and> tr_fingerprint u = g \<and> N (tr_name u) = Some g"
      using T [of g c] t t' codec_okD(4) [OF cd] by (cases "g = f") auto
  next
    fix n g assume "N n = Some g"
    then show "\<exists>c u. (T(f \<mapsto> enc_token cd t')) g = Some c \<and> dec_token cd c = Some u \<and> tr_name u = n"
      using N [of n g] b t' codec_okD(4) [OF cd] by (cases "g = f") auto
  qed
qed

section \<open>Commands\<close>

definition good_outcome :: "'b codec \<Rightarrow> unit StoreResult \<times> 'b db \<Rightarrow> bool" where
  "good_outcome cd out \<longleftrightarrow> vault_inv cd (snd out) \<and> (\<forall>i. fst out \<noteq> Inl (Internal i))"

lemma vault_invD:
  assumes "vault_inv cd d"
  shows "db_wf d" "secrets_inv cd (tget (SECRETS d)) (tget (VERSIONS d))"
    "tokens_inv cd (tget (TOKENS d)) (tget (TOKENS_BY_NAME d))" "rows_inv cd d"
  using assms by (simp_all add: vault_inv_def)

lemma vault_inv_secrets:
  assumes "vault_inv cd d" "twf S" "twf V" "secrets_inv cd (tget S) (tget V)"
  shows "vault_inv cd (d\<lparr>SECRETS := S, VERSIONS := V\<rparr>)"
  using assms by (simp add: vault_inv_def db_wf_def rows_inv_def)

lemma vault_inv_secrets1:
  assumes "vault_inv cd d" "twf S" "secrets_inv cd (tget S) (tget (VERSIONS d))"
  shows "vault_inv cd (d\<lparr>SECRETS := S\<rparr>)"
  using assms by (simp add: vault_inv_def db_wf_def rows_inv_def)

lemma vault_inv_versions:
  assumes "vault_inv cd d" "twf V" "secrets_inv cd (tget (SECRETS d)) (tget V)"
  shows "vault_inv cd (d\<lparr>VERSIONS := V\<rparr>)"
  using assms by (simp add: vault_inv_def db_wf_def rows_inv_def)

lemma vault_inv_tokens:
  assumes "vault_inv cd d" "twf T" "tokens_inv cd (tget T) (tget (TOKENS_BY_NAME d))"
  shows "vault_inv cd (d\<lparr>TOKENS := T\<rparr>)"
  using assms by (simp add: vault_inv_def db_wf_def rows_inv_def)

lemma create_secret_good:
  assumes cd: "codec_ok cd" and inv: "vault_inv cd d" and ok: "command_ok cd (CreateSecret s v)"
  shows "good_outcome cd (apply_create_secret cd s v d)"
proof (cases "check_secret_row (sr_name s) (vr_version v) = Inr () \<and> tget (SECRETS d) (sr_name s) = None")
  case True
  then have "secret_row_ok (sr_name s) s"
    using ok by (simp add: check_secret_row_ok secret_row_ok_def command_ok_def)
  with True ok vault_invD [OF inv] show ?thesis
    by (auto simp: good_outcome_def apply_create_secret_def Let_def command_ok_def table_simps db_wfD cd
        intro!: vault_inv_secrets inv secrets_inv_create)
next
  case False
  then show ?thesis
    using inv by (auto simp: good_outcome_def apply_create_secret_def check_secret_row_def
        check_secret_name_def)
qed

lemma put_version_good:
  assumes cd: "codec_ok cd" and inv: "vault_inv cd d"
    and ok: "command_ok cd (PutVersion name ec v ex desc intv grc nxt upd)"
  shows "good_outcome cd (apply_put_version cd name ec v ex desc intv grc nxt upd d)"
proof (cases "apply_put_version cd name ec v ex desc intv grc nxt upd d")
  case (Pair res d')
  note I = vault_invD [OF inv]
  show ?thesis
  proof (cases res)
    case (Inl e)
    have "e \<noteq> Internal i" for i
      using Pair Inl I(2) by (auto simp: apply_put_version_def Let_def supersede_def table_simps
          db_wfD [OF I(1)] codec_okD [OF cd] check_secret_row_def check_secret_name_def
          split: option.splits if_splits elim: secrets_inv_secret secrets_inv_version)
    with put_version_refused [of cd name ec v ex desc intv grc nxt upd d e d'] Pair Inl inv show ?thesis
      by (simp add: good_outcome_def)
  next
    case (Inr u)
    with Pair have step: "apply_put_version cd name ec v ex desc intv grc nxt upd d = (Inr (), d')" by simp
    obtain b s where b: "tget (SECRETS d) name = Some b" "dec_secret cd b = Some s" "sr_current_version s = ec"
      using step by (auto simp: apply_put_version_def Let_def split: sum.splits option.splits if_splits)
    have "secret_row_ok name s" using secrets_inv_secret [OF I(2) b(1)] b(2) by auto
    moreover have v: "next_version ec = Some (vr_version v)" "vr_expires_at v = None"
      using ok by (simp_all add: command_ok_def)
    ultimately have ne: "version_key name (vr_version v) \<noteq> version_key name ec"
      using b(3) by (intro version_key_neq) (auto simp: secret_row_ok_def next_version_Some
          is_valid_secret_version_def)
    from put_version_effect [OF I(1) ne step] b
    have eff: "d' = d\<lparr>SECRETS := SECRETS d', VERSIONS := VERSIONS d'\<rparr>"
      "tget (SECRETS d') = (tget (SECRETS d))(name \<mapsto> enc_secret cd
         (apply_meta desc intv grc nxt upd (s\<lparr>sr_current_version := vr_version v\<rparr>)))"
      "tget (VERSIONS d') = (tget (VERSIONS d))
        (version_key name ec := superseded_row cd ex (tget (VERSIONS d) (version_key name ec)),
         version_key name (vr_version v) \<mapsto> enc_version cd v)"
      by auto
    have "db_wf d'" using apply_put_version_wf [OF I(1)] step by (metis snd_conv)
    moreover have "secrets_inv cd (tget (SECRETS d')) (tget (VERSIONS d'))"
      unfolding eff(2,3) b(3) [symmetric]
      using secrets_inv_put [OF I(2) cd b(1,2)] v b(3) by simp
    ultimately have "vault_inv cd (d\<lparr>SECRETS := SECRETS d', VERSIONS := VERSIONS d'\<rparr>)"
      by (intro vault_inv_secrets [OF inv]) auto
    with eff(1) Pair Inr show ?thesis by (simp add: good_outcome_def)
  qed
qed

lemma update_meta_good:
  assumes cd: "codec_ok cd" and inv: "vault_inv cd d"
  shows "good_outcome cd (apply_update_meta cd name ec desc intv grc nxt upd d)"
  using vault_invD [OF inv] inv
  by (auto simp: good_outcome_def apply_update_meta_def Let_def table_simps db_wfD split: option.split
      intro!: vault_inv_secrets1 secrets_inv_meta cd elim: secrets_inv_secret)

lemma delete_secret_good:
  assumes inv: "vault_inv cd d"
  shows "good_outcome cd (apply_delete_secret name d)"
proof (cases "tget (SECRETS d) name")
  case None
  then show ?thesis using inv by (simp add: good_outcome_def apply_delete_secret_def Let_def tremove_none)
next
  case (Some b)
  let ?V = "tremove_all (map fst (vs.own_rows name (VERSIONS d))) (VERSIONS d)"
  note I = vault_invD [OF inv]
  have "secrets_inv cd ((tget (SECRETS d))(name := None)) (tget ?V)"
    by (rule secrets_inv_delete [OF I(2)]) (rule vs.tget_remove_own [OF db_wfD(2) [OF I(1)]])
  then have "vault_inv cd (d\<lparr>SECRETS := tremove name (SECRETS d), VERSIONS := ?V\<rparr>)"
    using db_wfD [OF I(1)] by (intro vault_inv_secrets inv) (simp_all add: table_simps)
  with Some show ?thesis by (simp add: good_outcome_def delete_secret_eq)
qed

lemma decodable_versions_inv:
  assumes "vault_inv cd d"
  shows "decodable_versions cd d"
  unfolding decodable_versions_def list.pred_set
proof
  fix row assume "row \<in> set (VERSIONS d)"
  then have "tget (VERSIONS d) (fst row) = Some (snd row)"
    using tin_rows [OF db_wfD(2) [OF vault_invD(1) [OF assms]], of "fst row" "snd row"] by simp
  then show "dec_version cd (snd row) \<noteq> None"
    using secrets_inv_version [OF vault_invD(2) [OF assms]] by (metis option.distinct(1))
qed

lemma expire_grace_good:
  assumes inv: "vault_inv cd d"
  shows "good_outcome cd (apply_expire_grace_versions cd now d)"
proof -
  note I = vault_invD [OF inv]
  obtain d' where d': "apply_expire_grace_versions cd now d = (Inr (), d')"
    "d' = d\<lparr>VERSIONS := VERSIONS d'\<rparr>" "twf (VERSIONS d')"
    "\<And>k b. tget (VERSIONS d') k = Some b \<longleftrightarrow> tget (VERSIONS d) k = Some b \<and>
              (\<exists>r. dec_version cd b = Some r \<and> version_active now (vr_expires_at r))"
    using expire_sweep [OF I(1) decodable_versions_inv [OF inv], of now] by blast
  have "vault_inv cd (d\<lparr>VERSIONS := VERSIONS d'\<rparr>)"
    using d'(3) secrets_inv_expire [OF I(2) d'(4)] by (intro vault_inv_versions [OF inv])
  with d'(1,2) show ?thesis by (simp add: good_outcome_def)
qed

lemma rewrap_good:
  assumes cd: "codec_ok cd" and inv: "vault_inv cd d"
  shows "good_outcome cd (apply_rewrap_version cd name v kid w at d)"
proof (cases "tget (VERSIONS d) (version_key name v)")
  case None
  then show ?thesis using inv by (simp add: good_outcome_def apply_rewrap_version_def)
next
  case (Some c)
  note I = vault_invD [OF inv]
  obtain r where "dec_version cd c = Some r" by (rule secrets_inv_version [OF I(2) Some])
  with Some show ?thesis
    using inv db_wfD(2) [OF I(1)]
    by (auto simp: good_outcome_def rewrap_row [OF cd I(1)] table_simps
        intro!: vault_inv_versions secrets_inv_rewrap [OF I(2) cd])
qed

lemma token_good:
  assumes cd: "codec_ok cd" and inv: "vault_inv cd d"
  shows "good_outcome cd (apply_revoke_token cd name at d)" "good_outcome cd (apply_touch_token cd fp at d)"
proof -
  note I = vault_invD [OF inv]
  have dec: "\<exists>t. dec_token cd b = Some t" if "tget (TOKENS d) f = Some b" for f b
    using I(3) that unfolding tokens_inv_def by blast
  have upd: "vault_inv cd (d\<lparr>TOKENS := tinsert f (enc_token cd t') (TOKENS d)\<rparr>)"
    if "tget (TOKENS d) f = Some b" "dec_token cd b = Some t" "tr_name t' = tr_name t"
      "tr_fingerprint t' = tr_fingerprint t" for f b t t'
    using tokens_inv_rewrite [OF I(3) cd that] db_wfD(4) [OF I(1)]
    by (intro vault_inv_tokens [OF inv]) (simp_all add: table_simps)
  show "good_outcome cd (apply_revoke_token cd name at d)" "good_outcome cd (apply_touch_token cd fp at d)"
    using inv by (auto simp: good_outcome_def apply_revoke_token_def apply_touch_token_def
        split: option.split intro: upd dest: dec)
qed

lemma add_token_good:
  assumes cd: "codec_ok cd" and inv: "vault_inv cd d"
  shows "good_outcome cd (apply_add_token cd t d)"
proof -
  note I = vault_invD [OF inv]
  show ?thesis
    using inv I tokens_inv_add [OF I(3) cd, of t]
    by (simp add: good_outcome_def apply_add_token_def Let_def vault_inv_def db_wf_def rows_inv_def table_simps)
qed

lemma rows_good:
  assumes cd: "codec_ok cd" and inv: "vault_inv cd d"
  shows "good_outcome cd (apply_create_role cd role d)" "good_outcome cd (apply_set_permissions cd name perms d)"
    "good_outcome cd (apply_set_kms_rewrap_state cd st d)" "good_outcome cd (apply_append_audit cd n e d)"
    "good_outcome cd (apply_record_auth_failure cd key now mx window lockout d)"
proof -
  note inv_defs = good_outcome_def vault_inv_def db_wf_def rows_inv_def table_simps Let_def ok_or_def
  note I = inv [unfolded vault_inv_def db_wf_def rows_inv_def]
  show "good_outcome cd (apply_create_role cd role d)"
    using I codec_okD(3) [OF cd] by (simp add: inv_defs apply_create_role_def)
  show "good_outcome cd (apply_set_permissions cd name perms d)"
    using I codec_okD(3) [OF cd]
    by (cases "tget (ROLES d) name") (fastforce simp: inv_defs apply_set_permissions_def split: option.split)+
  show "good_outcome cd (apply_set_kms_rewrap_state cd st d)"
    using I codec_okD(7) [OF cd] by (simp add: inv_defs apply_set_kms_rewrap_state_def)
  show "good_outcome cd (apply_append_audit cd n e d)"
    using I codec_okD(6) [OF cd] by (simp add: inv_defs apply_append_audit_def split: option.split)
  show "good_outcome cd (apply_record_auth_failure cd key now mx window lockout d)"
    using I codec_okD(5) [OF cd]
    by (cases "tget (LOCKOUTS d) key") (fastforce simp: inv_defs apply_record_auth_failure_def split: option.split)+
qed

lemma delete_role_good:
  assumes inv: "vault_inv cd d"
  shows "good_outcome cd (apply_delete_role cd name d)"
proof -
  note I = vault_invD [OF inv]
  have "list_all (\<lambda>row. dec_token cd (snd row) \<noteq> None) (TOKENS d)"
    using I(3) tin_rows [OF db_wfD(4) [OF I(1)]] by (fastforce simp: tokens_inv_def list.pred_set)
  from check_role_unused_iff [OF this, of name] show ?thesis
    using inv by (auto simp: good_outcome_def apply_delete_role_def Let_def tremove_none vault_inv_def
        db_wf_def rows_inv_def table_simps)
qed

lemma restore_good:
  assumes inv: "vault_inv cd d" and ok: "command_ok cd (RestoreDatabase data)"
  shows "good_outcome cd (apply_restore_database data d)"
proof -
  from ok obtain e where e: "vault_inv cd e" "data = dump_database e" by (auto simp: command_ok_def)
  then have "vault_inv cd (e\<lparr>LOCKOUTS := LOCKOUTS d\<rparr>)"
    using inv by (simp add: vault_inv_def db_wf_def rows_inv_def)
  moreover have "restore_tables data d = (Inr (), e\<lparr>LOCKOUTS := LOCKOUTS d\<rparr>) \<or>
      (\<exists>x. restore_tables data d = (Inl x, d))"
    using vault_invD(1) [OF inv] vault_invD(1) [OF e(1)]
    by (cases "check_secret_rows data") (auto simp: restore_tables_def e(2) dump_database_def db_wfD)
  ultimately show ?thesis
    using inv by (auto simp: good_outcome_def apply_restore_database_def)
qed

lemma apply_command_good:
  assumes "codec_ok cd" "vault_inv cd d" "command_ok cd c"
  shows "good_outcome cd (apply_command cd n c d)"
  using assms by (cases c)
    (simp_all add: create_secret_good put_version_good update_meta_good delete_secret_good
      expire_grace_good rewrap_good token_good add_token_good rows_good delete_role_good restore_good)

lemma one_secret_db_inv: "vault_inv row_codec one_secret_db"
  using apply_command_good [OF row_codec_ok vault_inv_empty, of "CreateSecret sample_secret (sample_version 1)" 1]
  by (simp add: one_secret_db_def command_ok_def sample_secret_def sample_version_def i32_max_def good_outcome_def)



end
