(* ===== verification/Store_Engine.thy ===== *)
theory Store_Engine
  imports Store_Invariant
begin

text \<open>
  \<open>store/engine.rs\<close>: opening a database, the readers of the store and the single-node
  writer. A reader sees one consistent database. Rust's \<open>sort_by_key\<close> is stable, as
  \<open>sort_key\<close> is.
\<close>

section \<open>Opening\<close>

definition admin_role :: RoleRecord where
  "admin_role = \<lparr>rr_name = ''admin'',
     rr_description = Some ''Full superuser access to all secrets and administration'',
     rr_is_admin = True, rr_permissions = [], rr_created_at = 0\<rparr>"

definition seed_admin_role :: "'b codec \<Rightarrow> 'b db \<Rightarrow> 'b db" where
  "seed_admin_role cd d =
     (if tget (ROLES d) ''admin'' \<noteq> None then d
      else d\<lparr>ROLES := tinsert ''admin'' (enc_role cd admin_role) (ROLES d)\<rparr>)"

text \<open>Opening a table creates it empty if it is missing; a database here always has all tables.\<close>

record 'b RedbStore =
  redb_db :: "'b db"
  redb_node_id :: u64

definition from_database :: "'b codec \<Rightarrow> 'b db \<Rightarrow> u64 \<Rightarrow> 'b RedbStore" where
  "from_database cd d node_id = \<lparr>redb_db = seed_admin_role cd d, redb_node_id = node_id\<rparr>"

section \<open>Readers\<close>

definition decode_opt :: "('b \<Rightarrow> 'r option) \<Rightarrow> 'b option \<Rightarrow> 'r option StoreResult" where
  "decode_opt dec found =
     (case found of
        None \<Rightarrow> Inr None
      | Some b \<Rightarrow> (case dec b of None \<Rightarrow> Inl (Internal DecodeFailed) | Some r \<Rightarrow> Inr (Some r)))"

fun decode_rows :: "('b \<Rightarrow> 'r option) \<Rightarrow> ('k \<times> 'b) list \<Rightarrow> 'r list StoreResult" where
  "decode_rows dec [] = Inr []"
| "decode_rows dec ((_, b) # rows) =
     (case dec b of
        None \<Rightarrow> Inl (Internal DecodeFailed)
      | Some r \<Rightarrow> (case decode_rows dec rows of Inl e \<Rightarrow> Inl e | Inr rs \<Rightarrow> Inr (r # rs)))"

definition map_result :: "('a \<Rightarrow> 'c) \<Rightarrow> 'a StoreResult \<Rightarrow> 'c StoreResult" where
  "map_result f res = (case res of Inl e \<Rightarrow> Inl e | Inr x \<Rightarrow> Inr (f x))"

definition reader_secret :: "'b codec \<Rightarrow> string \<Rightarrow> 'b db \<Rightarrow> SecretRecord option StoreResult" where
  "reader_secret cd name d = decode_opt (dec_secret cd) (tget (SECRETS d) name)"

definition reader_current_version ::
  "'b codec \<Rightarrow> string \<Rightarrow> 'b db \<Rightarrow> (SecretRecord \<times> VersionRecord) option StoreResult" where
  "reader_current_version cd name d =
     (case tget (SECRETS d) name of
        None \<Rightarrow> Inr None
      | Some b \<Rightarrow>
     (case dec_secret cd b of
        None \<Rightarrow> Inl (Internal DecodeFailed)
      | Some secret \<Rightarrow>
     (case tget (VERSIONS d) (version_key name (sr_current_version secret)) of
        None \<Rightarrow> Inr None
      | Some c \<Rightarrow>
     (case dec_version cd c of
        None \<Rightarrow> Inl (Internal DecodeFailed)
      | Some version \<Rightarrow> Inr (Some (secret, version))))))"

definition reader_version :: "'b codec \<Rightarrow> string \<Rightarrow> i32 \<Rightarrow> 'b db \<Rightarrow> VersionRecord option StoreResult" where
  "reader_version cd name version d = decode_opt (dec_version cd) (tget (VERSIONS d) (version_key name version))"

definition live_versions :: "'b codec \<Rightarrow> string \<Rightarrow> i64 \<Rightarrow> 'b db \<Rightarrow> VersionRecord list StoreResult" where
  "live_versions cd name now d =
     map_result
       (\<lambda>records. sort_key (\<lambda>record. - vr_version record)
          (filter (\<lambda>record. case vr_expires_at record of None \<Rightarrow> True | Some expiry \<Rightarrow> now < expiry) records))
       (decode_rows (dec_version cd)
          (filter (\<lambda>row. version_from_key name (fst row) \<noteq> None)
             (trange (in_version_range name) (VERSIONS d))))"

definition list_secrets :: "'b codec \<Rightarrow> 'b db \<Rightarrow> SecretRecord list StoreResult" where
  "list_secrets cd d = map_result (sort_key sr_name) (decode_rows (dec_secret cd) (SECRETS d))"

definition due_rotations :: "'b codec \<Rightarrow> i64 \<Rightarrow> 'b db \<Rightarrow> SecretRecord list StoreResult" where
  "due_rotations cd now d =
     map_result (filter (\<lambda>record. case sr_next_rotation_at record of None \<Rightarrow> False | Some nxt \<Rightarrow> nxt \<le> now))
       (decode_rows (dec_secret cd) (SECRETS d))"

definition reader_role :: "'b codec \<Rightarrow> string \<Rightarrow> 'b db \<Rightarrow> RoleRecord option StoreResult" where
  "reader_role cd name d = decode_opt (dec_role cd) (tget (ROLES d) name)"

definition list_roles :: "'b codec \<Rightarrow> 'b db \<Rightarrow> RoleRecord list StoreResult" where
  "list_roles cd d = map_result (sort_key rr_name) (decode_rows (dec_role cd) (ROLES d))"

definition token_by_fingerprint :: "'b codec \<Rightarrow> bytes \<Rightarrow> 'b db \<Rightarrow> TokenRecord option StoreResult" where
  "token_by_fingerprint cd fingerprint d = decode_opt (dec_token cd) (tget (TOKENS d) fingerprint)"

definition list_tokens :: "'b codec \<Rightarrow> 'b db \<Rightarrow> TokenRecord list StoreResult" where
  "list_tokens cd d = map_result (sort_key tr_name) (decode_rows (dec_token cd) (TOKENS d))"

definition reader_lockout :: "'b codec \<Rightarrow> string \<Rightarrow> 'b db \<Rightarrow> LockoutRecord option StoreResult" where
  "reader_lockout cd ip d = decode_opt (dec_lockout cd) (tget (LOCKOUTS d) ip)"

definition kms_rewrap_state :: "'b codec \<Rightarrow> 'b db \<Rightarrow> KmsRewrapState option StoreResult" where
  "kms_rewrap_state cd d = decode_opt (dec_kms cd) (tget (KMS_REWRAP d) KMS_REWRAP_STATE_KEY)"

section \<open>The single-node writer\<close>

text \<open>The transaction is dropped, and so rolled back, when the command fails.\<close>

definition redb_apply :: "'b codec \<Rightarrow> 'b Command \<Rightarrow> 'b RedbStore \<Rightarrow> unit StoreResult \<times> 'b RedbStore" where
  "redb_apply cd command st =
     (case apply_command cd (redb_node_id st) command (redb_db st) of
        (Inl e, _) \<Rightarrow> (Inl e, st)
      | (Inr _, d') \<Rightarrow> (Inr (), st\<lparr>redb_db := d'\<rparr>))"

definition redb_restore :: "'b BackupData \<Rightarrow> 'b RedbStore \<Rightarrow> unit StoreResult \<times> 'b RedbStore" where
  "redb_restore data st =
     (case restore_database data (redb_db st) of
        (Inl e, d') \<Rightarrow> (Inl (Internal (RestoreFailed e)), st\<lparr>redb_db := d'\<rparr>)
      | (Inr _, d') \<Rightarrow> (Inr (), st\<lparr>redb_db := d'\<rparr>))"

section \<open>What the services rely on\<close>

text \<open>
  The contract of a store: a successful perform has the effect of the command on the database
  that the readers see, and a failed one has no effect.
\<close>

locale vault_store =
  fixes cd :: "'b codec"
    and perform :: "'b Command \<Rightarrow> 's \<Rightarrow> unit StoreResult \<times> 's"
    and view :: "'s \<Rightarrow> 'b db"
    and node :: "'s \<Rightarrow> u64"
  assumes write_ok: "perform c st = (Inr (), st') \<Longrightarrow> apply_command cd (node st) c (view st) = (Inr (), view st')"
    and write_err: "perform c st = (Inl e, st') \<Longrightarrow> view st' = view st"
begin

lemma write_inv:
  assumes "codec_ok cd" "vault_inv cd (view st)" "command_ok cd c" "perform c st = (res, st')"
  shows "vault_inv cd (view st')"
proof (cases res)
  case (Inl e)
  then show ?thesis using write_err assms by metis
next
  case (Inr u)
  with assms(4) have "apply_command cd (node st) c (view st) = (Inr (), view st')" by (simp add: write_ok)
  with apply_command_good [OF assms(1-3), of "node st"] show ?thesis by (simp add: good_outcome_def)
qed

lemma read_after_create:
  assumes cd: "codec_ok cd" and "db_wf (view st)" "perform (CreateSecret s v) st = (Inr (), st')" "sr_current_version s = vr_version v"
  shows "reader_current_version cd (sr_name s) (view st') = Inr (Some (s, v))"
proof -
  have "view st' = (view st)\<lparr>SECRETS := tinsert (sr_name s) (enc_secret cd s) (SECRETS (view st)),
      VERSIONS := tinsert (version_key (sr_name s) (vr_version v)) (enc_version cd v) (VERSIONS (view st))\<rparr>"
    using write_ok [OF assms(3)] by (auto simp: apply_create_secret_def Let_def split: sum.splits if_splits)
  then show ?thesis
    using assms(2,4) by (simp add: reader_current_version_def table_simps db_wfD codec_okD [OF cd])
qed

lemma read_after_delete:
  assumes "db_wf (view st)" "perform (DeleteSecret name) st = (Inr (), st')"
  shows "reader_current_version cd name (view st') = Inr None"
proof -
  have "SECRETS (view st') = tremove name (SECRETS (view st))"
    using write_ok [OF assms(2)] by (auto simp: apply_delete_secret_def Let_def split: if_splits
        dest!: sym [of _ "view st'"])
  then show ?thesis using assms(1) by (simp add: reader_current_version_def table_simps db_wfD)
qed

lemma read_after_put:
  assumes cd: "codec_ok cd" and "vault_inv cd (view st)" "command_ok cd (PutVersion name ec v ex desc intv grc nxt upd)"
    and "perform (PutVersion name ec v ex desc intv grc nxt upd) st = (Inr (), st')"
  shows "\<exists>s. reader_secret cd name (view st) = Inr (Some s) \<and> sr_current_version s = ec \<and>
     reader_current_version cd name (view st') = Inr (Some
       (apply_meta desc intv grc nxt upd (s\<lparr>sr_current_version := vr_version v\<rparr>), v))"
proof -
  note I = vault_invD [OF assms(2)]
  note step = write_ok [OF assms(4), simplified]
  obtain b s where b: "tget (SECRETS (view st)) name = Some b" "dec_secret cd b = Some s" "sr_current_version s = ec"
    using step by (auto simp: apply_put_version_def Let_def split: sum.splits option.splits if_splits)
  have "secret_row_ok name s" using secrets_inv_secret [OF I(2) b(1)] b(2) by auto
  then have ne: "version_key name (vr_version v) \<noteq> version_key name ec"
    using b(3) assms(3) by (intro version_key_neq) (auto simp: secret_row_ok_def next_version_Some
        is_valid_secret_version_def command_ok_def)
  from put_version_effect [OF I(1) ne step] b show ?thesis
    by (auto simp: reader_secret_def reader_current_version_def decode_opt_def codec_okD [OF cd])
qed

end

interpretation redb: vault_store cd "redb_apply cd" redb_db redb_node_id for cd
  by unfold_locales (auto simp: redb_apply_def split: prod.splits sum.splits)

lemma seed_admin_role_inv: "codec_ok cd \<Longrightarrow> vault_inv cd d \<Longrightarrow> vault_inv cd (seed_admin_role cd d)"
  by (simp add: seed_admin_role_def vault_inv_def rows_inv_def db_wf_def table_simps codec_okD
      admin_role_def)

section \<open>Reading the versions of a secret\<close>

lemma decode_rows_ok:
  "list_all (\<lambda>row. dec (snd row) \<noteq> None) rows \<Longrightarrow>
   decode_rows dec rows = Inr (map (\<lambda>row. the (dec (snd row))) rows)"
  by (induction dec rows rule: decode_rows.induct) auto

lemma live_versions_rows:
  assumes "vault_inv cd d"
  shows "\<exists>rs. live_versions cd name now d = Inr rs \<and>
     sorted_wrt (\<lambda>r r'. vr_version r' < vr_version r) rs \<and>
     (\<forall>r. r \<in> set rs \<longleftrightarrow> version_active now (vr_expires_at r) \<and> good_version name (vr_version r) \<and>
        (\<exists>b. tget (VERSIONS d) (version_key name (vr_version r)) = Some b \<and> dec_version cd b = Some r))"
proof -
  note I = vault_invD [OF assms] and t = db_wfD(2) [OF vault_invD(1) [OF assms]]
  let ?rows = "vs.own_rows name (VERSIONS d)"
  let ?act = "\<lambda>r. version_active now (vr_expires_at r)"
  let ?rs = "map (\<lambda>row. the (dec_version cd (snd row))) ?rows"
  have row: "\<exists>r. dec_version cd b = Some r \<and> k = version_key name (vr_version r) \<and> good_version name (vr_version r) \<and>
      tget (VERSIONS d) k = Some b" if "(k, b) \<in> set ?rows" for k b
  proof -
    from that obtain v where k: "tget (VERSIONS d) k = Some b" "good_version name v" "k = version_key name v"
      using vs.in_own_rows [OF t] by blast
    from k(1) obtain n r where "k = version_key n (vr_version r)" "dec_version cd b = Some r"
      "good_version n (vr_version r)" by (rule secrets_inv_version [OF I(2)])
    with k show ?thesis by (auto simp: version_key_eq_iff)
  qed
  have rs: "decode_rows (dec_version cd) ?rows = Inr ?rs"
    using row by (intro decode_rows_ok) (fastforce simp: list.pred_set)
  have mem: "r \<in> set ?rs \<longleftrightarrow> good_version name (vr_version r) \<and>
      (\<exists>b. tget (VERSIONS d) (version_key name (vr_version r)) = Some b \<and> dec_version cd b = Some r)" for r
  proof
    assume "r \<in> set ?rs"
    then show "good_version name (vr_version r) \<and>
      (\<exists>b. tget (VERSIONS d) (version_key name (vr_version r)) = Some b \<and> dec_version cd b = Some r)"
      using row by fastforce
  next
    assume "good_version name (vr_version r) \<and>
      (\<exists>b. tget (VERSIONS d) (version_key name (vr_version r)) = Some b \<and> dec_version cd b = Some r)"
    then show "r \<in> set ?rs" using vs.in_own_rows [OF t] by force
  qed
  have "map fst ?rows = map (version_key name \<circ> vr_version) ?rs"
    using row by fastforce
  moreover have "distinct (map fst ?rows)"
    using tdistinct [OF t] by (simp add: vs.own_rows_filter distinct_map_filter)
  ultimately have "distinct (map (version_key name \<circ> vr_version) ?rs)" by (simp only:)
  then have "distinct (map vr_version ?rs)"
    unfolding distinct_map using inj_on_imageI2 by blast
  then have dist: "distinct (map (\<lambda>r. - vr_version r) (filter ?act ?rs))"
    by (auto simp: distinct_map distinct_map_filter inj_on_def)
  let ?out = "sort_key (\<lambda>r. - vr_version r) (filter ?act ?rs)"
  have "sorted_wrt (<) (map (\<lambda>r. - vr_version r) ?out)"
    using dist by (simp add: strict_sorted_iff distinct_map)
  then have "sorted_wrt (\<lambda>r r'. vr_version r' < vr_version r) ?out"
    by (simp add: sorted_wrt_map)
  moreover have "live_versions cd name now d = Inr ?out"
    using rs by (simp add: live_versions_def vs.own_rows_def map_result_def version_active_def)
  ultimately show ?thesis using mem by auto
qed

text \<open>
  Under the invariant of the store the live versions of a secret are exactly its stored versions that are
  active now, each once and latest first: no version of another secret, none whose grace period
  has ended, and none missing.
\<close>

theorem live_versions_exact:
  assumes "vault_inv cd d"
  shows "\<exists>rs. live_versions cd name now d = Inr rs \<and>
     sorted_wrt (\<lambda>r r'. vr_version r' < vr_version r) rs \<and>
     (\<forall>r. r \<in> set rs \<longleftrightarrow> version_active now (vr_expires_at r) \<and> good_version name (vr_version r) \<and>
        (\<exists>b. tget (VERSIONS d) (version_key name (vr_version r)) = Some b \<and> dec_version cd b = Some r))"
  using assms by (rule live_versions_rows)

theorem live_versions_exact_witness:
  "\<exists>rs. live_versions row_codec ''a'' 5 one_secret_db = Inr rs \<and> sample_version 1 \<in> set rs"
  using live_versions_exact [OF one_secret_db_inv, of "''a''" 5]
  by (auto simp: one_secret_db_eq tget_def good_version_def i32_max_def sample_version_def version_active_def)

end
