(* ===== verification/Core_Crypto.thy ===== *)
theory Core_Crypto
  imports Core_Types
begin

text \<open>
  \<open>hyperion-vault-core/src/crypto.rs\<close>, \<open>auth.rs\<close> and \<open>error.rs\<close>: sealing and
  opening under a data key, the envelope around it, the local key wrapper, and token
  fingerprints.

  The cipher (XChaCha20-Poly1305), SHA-256, base64 and the random number generator are
  libraries: the cipher is a parameter \<open>aead\<close>, the hash and the decoder are function
  arguments, and each random draw is an argument holding the bytes drawn. What the code relies
  on of the cipher is \<open>aead_ok\<close>: decryption undoes encryption under the same key, nonce and
  associated data, and decryption accepts only what encryption produces.
\<close>

datatype core_error =
    Encryption
  | Decryption
  | KeyWrap
  | KeyUnwrap
  | InvalidAllowlist string
  | KeyLength nat nat

section \<open>The cipher\<close>

record aead =
  aead_encrypt :: "bytes \<Rightarrow> bytes \<Rightarrow> bytes \<Rightarrow> bytes \<Rightarrow> bytes option"
  aead_decrypt :: "bytes \<Rightarrow> bytes \<Rightarrow> bytes \<Rightarrow> bytes \<Rightarrow> bytes option"

definition aead_ok :: "aead \<Rightarrow> bool" where
  "aead_ok A \<longleftrightarrow> (\<forall>key nonce aad msg ct.
     aead_encrypt A key nonce aad msg = Some ct \<longleftrightarrow> aead_decrypt A key nonce aad ct = Some msg)"

definition DEK_LEN :: nat where "DEK_LEN = 32"
definition NONCE_LEN :: nat where "NONCE_LEN = 24"

definition dek_from_slice :: "bytes \<Rightarrow> core_error + bytes" where
  "dek_from_slice bs =
     (if length bs \<noteq> DEK_LEN then Inl (KeyLength DEK_LEN (length bs)) else Inr bs)"

definition seal :: "aead \<Rightarrow> bytes \<Rightarrow> bytes \<Rightarrow> bytes \<Rightarrow> bytes \<Rightarrow> core_error + bytes" where
  "seal A dek nonce aad plaintext = ok_or Encryption (aead_encrypt A dek nonce aad plaintext)"

definition open_sealed :: "aead \<Rightarrow> bytes \<Rightarrow> bytes \<Rightarrow> bytes \<Rightarrow> bytes \<Rightarrow> core_error + bytes" where
  "open_sealed A dek nonce aad ciphertext = ok_or Decryption (aead_decrypt A dek nonce aad ciphertext)"

lemma open_sealed_iff_seal:
  "aead_ok A \<Longrightarrow> open_sealed A dek nonce aad ct = Inr pt \<longleftrightarrow> seal A dek nonce aad pt = Inr ct"
  by (simp add: aead_ok_def seal_def open_sealed_def)

section \<open>Envelopes\<close>

record DataKey =
  dk_plaintext :: bytes
  dk_wrapped :: bytes
  dk_key_id :: string

record Envelope =
  env_key_id :: string
  env_wrapped_dek :: bytes
  env_nonce :: bytes
  env_ciphertext :: bytes

text \<open>The argument \<open>generated\<close> is what the wrapper's \<open>generate_data_key\<close> returned.\<close>

definition seal_envelope ::
  "aead \<Rightarrow> core_error + DataKey \<Rightarrow> bytes \<Rightarrow> bytes \<Rightarrow> bytes \<Rightarrow> core_error + Envelope" where
  "seal_envelope A generated nonce aad plaintext =
     (case generated of
        Inl e \<Rightarrow> Inl e
      | Inr dk \<Rightarrow>
          (case seal A (dk_plaintext dk) nonce aad plaintext of
             Inl e \<Rightarrow> Inl e
           | Inr ct \<Rightarrow> Inr \<lparr>env_key_id = dk_key_id dk, env_wrapped_dek = dk_wrapped dk,
                            env_nonce = nonce, env_ciphertext = ct\<rparr>))"

definition open_envelope ::
  "aead \<Rightarrow> (bytes \<Rightarrow> string \<Rightarrow> core_error + bytes) \<Rightarrow> Envelope \<Rightarrow> bytes \<Rightarrow> core_error + bytes" where
  "open_envelope A unwrap env aad =
     (case unwrap (env_wrapped_dek env) (env_key_id env) of
        Inl e \<Rightarrow> Inl e
      | Inr dek \<Rightarrow> open_sealed A dek (env_nonce env) aad (env_ciphertext env))"

section \<open>The key wrapper interface\<close>

text \<open>
  The trait \<open>KeyWrapper\<close>: \<open>gen\<close> generates a data key from a random draw,
  \<open>unwrap\<close> recovers it. A wrapper keeps its promise for every cipher that keeps its own.
\<close>

locale key_wrapper =
  fixes A :: aead
    and gen :: "'r \<Rightarrow> core_error + DataKey"
    and unwrap :: "bytes \<Rightarrow> string \<Rightarrow> core_error + bytes"
    and draw_ok :: "'r \<Rightarrow> bool"
  assumes unwrap_gen:
    "aead_ok A \<Longrightarrow> draw_ok r \<Longrightarrow> gen r = Inr dk \<Longrightarrow> unwrap (dk_wrapped dk) (dk_key_id dk) = Inr (dk_plaintext dk)"
begin

lemma envelope_opens:
  assumes "aead_ok A" "draw_ok r" "seal_envelope A (gen r) nonce aad plaintext = Inr env"
  shows "open_envelope A unwrap env aad = Inr plaintext"
proof -
  obtain dk ct where dk: "gen r = Inr dk" and ct: "seal A (dk_plaintext dk) nonce aad plaintext = Inr ct"
    and env: "env = \<lparr>env_key_id = dk_key_id dk, env_wrapped_dek = dk_wrapped dk,
                     env_nonce = nonce, env_ciphertext = ct\<rparr>"
    using assms(3) by (auto simp: seal_envelope_def split: sum.splits)
  show ?thesis
    using unwrap_gen [OF assms(1,2) dk] ct env
    by (simp add: open_envelope_def open_sealed_iff_seal [OF assms(1)])
qed

text \<open>What an envelope opens to under some associated data was sealed under that data.\<close>

lemma envelope_authentic:
  assumes "aead_ok A" "open_envelope A unwrap env aad = Inr plaintext"
  shows "\<exists>dek. unwrap (env_wrapped_dek env) (env_key_id env) = Inr dek \<and>
               seal A dek (env_nonce env) aad plaintext = Inr (env_ciphertext env)"
  using assms by (auto simp: open_envelope_def open_sealed_iff_seal split: sum.splits)

end

section \<open>The local key wrapper\<close>

definition WRAP_AAD :: bytes where
  "WRAP_AAD = as_bytes ''pg_vault:dek-wrap:v1''"

record LocalKeyWrapper =
  lk_master :: bytes
  lk_key_id :: string

definition LocalKeyWrapper_from_base64 ::
  "(string \<Rightarrow> bytes option) \<Rightarrow> string \<Rightarrow> string \<Rightarrow> core_error + LocalKeyWrapper" where
  "LocalKeyWrapper_from_base64 b64_decode encoded key_id =
     (case b64_decode (trim encoded) of
        None \<Rightarrow> Inl KeyUnwrap
      | Some raw \<Rightarrow>
          (if length raw \<noteq> DEK_LEN then Inl (KeyLength DEK_LEN (length raw))
           else Inr \<lparr>lk_master = raw, lk_key_id = key_id\<rparr>))"

definition wrap_dek :: "aead \<Rightarrow> LocalKeyWrapper \<Rightarrow> bytes \<Rightarrow> bytes \<Rightarrow> core_error + bytes" where
  "wrap_dek A w nonce dek =
     (case seal A (lk_master w) nonce WRAP_AAD dek of
        Inl _ \<Rightarrow> Inl KeyWrap
      | Inr ct \<Rightarrow> Inr (nonce @ ct))"

definition unwrap_data_key :: "aead \<Rightarrow> LocalKeyWrapper \<Rightarrow> bytes \<Rightarrow> string \<Rightarrow> core_error + bytes" where
  "unwrap_data_key A w wrapped key_id =
     (if length wrapped < NONCE_LEN then Inl KeyUnwrap
      else (case open_sealed A (lk_master w) (take NONCE_LEN wrapped) WRAP_AAD (drop NONCE_LEN wrapped) of
              Inl _ \<Rightarrow> Inl KeyUnwrap
            | Inr pt \<Rightarrow> dek_from_slice pt))"

text \<open>A draw is the fresh data key and the fresh nonce that wraps it.\<close>

definition generate_data_key :: "aead \<Rightarrow> LocalKeyWrapper \<Rightarrow> bytes \<times> bytes \<Rightarrow> core_error + DataKey" where
  "generate_data_key A w draw =
     (let dek = fst draw in
      case wrap_dek A w (snd draw) dek of
        Inl e \<Rightarrow> Inl e
      | Inr wrapped \<Rightarrow> Inr \<lparr>dk_plaintext = dek, dk_wrapped = wrapped, dk_key_id = lk_key_id w\<rparr>)"

definition rewrap :: "aead \<Rightarrow> LocalKeyWrapper \<Rightarrow> bytes \<Rightarrow> bytes \<Rightarrow> string \<Rightarrow> core_error + (bytes \<times> string)" where
  "rewrap A w nonce wrapped key_id =
     (case unwrap_data_key A w wrapped key_id of
        Inl e \<Rightarrow> Inl e
      | Inr dek \<Rightarrow>
          (case wrap_dek A w nonce dek of
             Inl e \<Rightarrow> Inl e
           | Inr wrapped' \<Rightarrow> Inr (wrapped', lk_key_id w)))"

definition local_draw_ok :: "bytes \<times> bytes \<Rightarrow> bool" where
  "local_draw_ok draw \<longleftrightarrow> length (fst draw) = DEK_LEN \<and> length (snd draw) = NONCE_LEN"

lemma unwrap_wrap_dek:
  assumes "aead_ok A" "length dek = DEK_LEN" "length nonce = NONCE_LEN" "wrap_dek A w nonce dek = Inr wrapped"
  shows "unwrap_data_key A w wrapped key_id = Inr dek"
proof -
  obtain ct where "wrapped = nonce @ ct" "seal A (lk_master w) nonce WRAP_AAD dek = Inr ct"
    using assms(4) by (auto simp: wrap_dek_def split: sum.splits)
  then show ?thesis
    using assms(2,3)
    by (simp add: unwrap_data_key_def open_sealed_iff_seal [OF assms(1), THEN iffD2] dek_from_slice_def)
qed

lemma unwrap_data_key_length: "unwrap_data_key A w wrapped key_id = Inr dek \<Longrightarrow> length dek = DEK_LEN"
  by (auto simp: unwrap_data_key_def dek_from_slice_def split: sum.splits if_splits)

interpretation lkw: key_wrapper A "generate_data_key A w" "unwrap_data_key A w" local_draw_ok
  for A :: aead and w :: LocalKeyWrapper
proof
  fix r dk
  assume "aead_ok A" "local_draw_ok r" "generate_data_key A w r = Inr dk"
  then show "unwrap_data_key A w (dk_wrapped dk) (dk_key_id dk) = Inr (dk_plaintext dk)"
    by (auto simp: generate_data_key_def local_draw_ok_def Let_def unwrap_wrap_dek split: sum.splits)
qed

lemma rewrap_Inr:
  "rewrap A w nonce wrapped key_id = Inr (wrapped', key_id') \<longleftrightarrow>
     (\<exists>dek. unwrap_data_key A w wrapped key_id = Inr dek \<and> wrap_dek A w nonce dek = Inr wrapped' \<and>
       key_id' = lk_key_id w)"
  by (auto simp: rewrap_def split: sum.splits)


text \<open>A concrete cipher that keeps its promise: it prefixes the key, the nonce and the
  associated data and checks them on decryption.\<close>

definition prefix_aead :: aead where
  "prefix_aead =
     \<lparr>aead_encrypt = (\<lambda>key nonce aad msg. Some (key @ nonce @ aad @ msg)),
      aead_decrypt = (\<lambda>key nonce aad ct.
        let p = key @ nonce @ aad in
        if take (length p) ct = p then Some (drop (length p) ct) else None)\<rparr>"

lemma prefix_aead_ok: "aead_ok prefix_aead"
proof -
  have "p @ m = ct \<longleftrightarrow> take (length p) ct = p \<and> drop (length p) ct = m" for p m ct :: bytes
    by (metis append_eq_conv_conj)
  then show ?thesis
    by (simp add: aead_ok_def prefix_aead_def Let_def del: append_assoc flip: append_assoc)
qed


section \<open>Token fingerprints\<close>

definition FINGERPRINT_LEN :: nat where "FINGERPRINT_LEN = 32"

definition fingerprint :: "(bytes \<Rightarrow> bytes) \<Rightarrow> string \<Rightarrow> bytes" where
  "fingerprint sha256 token = sha256 (as_bytes token)"

definition auth_verify :: "(bytes \<Rightarrow> bytes) \<Rightarrow> string \<Rightarrow> bytes \<Rightarrow> bool" where
  "auth_verify sha256 token expected_fingerprint \<longleftrightarrow> fingerprint sha256 token = expected_fingerprint"

definition fingerprints_match :: "bytes \<Rightarrow> bytes \<Rightarrow> bool" where
  "fingerprints_match a b \<longleftrightarrow> a = b"

end
