(* ===== verification/Kms.thy ===== *)
theory Kms
  imports Core_Crypto
begin

text \<open>
  \<open>kms.rs\<close>: the key management service behind the data keys. A provider is a record of
  its four calls; the first argument of each call numbers it, so that the same request may be
  answered differently at different times. The AWS client is the argument \<open>sdk\<close>; random
  draws of the local provider are arguments.
\<close>

datatype kms_error = KmsCore core_error | KmsCallFailed | KmsNoPlaintext | KmsNoBlob

type_synonym kms_context = "(string \<times> string) list"

record kms =
  km_generate_data_key :: "nat \<Rightarrow> kms_context \<Rightarrow> kms_error + DataKey"
  km_decrypt_data_key :: "nat \<Rightarrow> bytes \<Rightarrow> string \<Rightarrow> kms_context \<Rightarrow> kms_error + bytes"
  km_reencrypt_data_key :: "nat \<Rightarrow> bytes \<Rightarrow> string \<Rightarrow> kms_context \<Rightarrow> kms_error + bytes \<times> string"
  km_latest_rotation_at :: "nat \<Rightarrow> kms_error + i64 option"

definition kms_result :: "core_error + 'a \<Rightarrow> kms_error + 'a" where
  "kms_result r = (case r of Inl e \<Rightarrow> Inl (KmsCore e) | Inr a \<Rightarrow> Inr a)"

section \<open>Retries\<close>

function retry_loop :: "(nat \<Rightarrow> 'e + 'a) \<Rightarrow> nat \<Rightarrow> nat \<Rightarrow> 'e + 'a" where
  "retry_loop call max_retries attempt =
     (case call attempt of
        Inr v \<Rightarrow> Inr v
      | Inl err \<Rightarrow> (if attempt < max_retries then retry_loop call max_retries (Suc attempt) else Inl err))"
  by pat_completeness auto
termination
  by (relation "measure (\<lambda>(_, m, a). m - a)") auto

declare retry_loop.simps [simp del]

definition backoff :: "u32 \<Rightarrow> nat" where
  "backoff attempt = min (100 * 2 ^ min (unat attempt) 6) 18446744073709551615"

record RetryingKms =
  rk_inner :: kms
  rk_max_retries :: u32

text \<open>The inner calls of the n-th outer call have their own numbers.\<close>

definition inner_call :: "RetryingKms \<Rightarrow> nat \<Rightarrow> nat \<Rightarrow> nat" where
  "inner_call rk n attempt = n * Suc (unat (rk_max_retries rk)) + attempt"

definition retrying_generate_data_key :: "RetryingKms \<Rightarrow> nat \<Rightarrow> kms_context \<Rightarrow> kms_error + DataKey" where
  "retrying_generate_data_key rk n context =
     retry_loop (\<lambda>a. km_generate_data_key (rk_inner rk) (inner_call rk n a) context) (unat (rk_max_retries rk)) 0"

definition retrying_decrypt_data_key :: "RetryingKms \<Rightarrow> nat \<Rightarrow> bytes \<Rightarrow> string \<Rightarrow> kms_context \<Rightarrow> kms_error + bytes" where
  "retrying_decrypt_data_key rk n wrapped key_id context =
     retry_loop (\<lambda>a. km_decrypt_data_key (rk_inner rk) (inner_call rk n a) wrapped key_id context)
       (unat (rk_max_retries rk)) 0"

definition retrying_reencrypt_data_key ::
  "RetryingKms \<Rightarrow> nat \<Rightarrow> bytes \<Rightarrow> string \<Rightarrow> kms_context \<Rightarrow> kms_error + bytes \<times> string" where
  "retrying_reencrypt_data_key rk n wrapped source_key_id context =
     retry_loop (\<lambda>a. km_reencrypt_data_key (rk_inner rk) (inner_call rk n a) wrapped source_key_id context)
       (unat (rk_max_retries rk)) 0"

definition retrying_latest_rotation_at :: "RetryingKms \<Rightarrow> nat \<Rightarrow> kms_error + i64 option" where
  "retrying_latest_rotation_at rk n =
     retry_loop (\<lambda>a. km_latest_rotation_at (rk_inner rk) (inner_call rk n a)) (unat (rk_max_retries rk)) 0"

definition retrying_kms :: "kms \<Rightarrow> u32 \<Rightarrow> kms" where
  "retrying_kms inner max_retries =
     (let rk = \<lparr>rk_inner = inner, rk_max_retries = max_retries\<rparr> in
      \<lparr>km_generate_data_key = retrying_generate_data_key rk,
       km_decrypt_data_key = retrying_decrypt_data_key rk,
       km_reencrypt_data_key = retrying_reencrypt_data_key rk,
       km_latest_rotation_at = retrying_latest_rotation_at rk\<rparr>)"

section \<open>The local provider\<close>

definition local_generate_data_key ::
  "aead \<Rightarrow> LocalKeyWrapper \<Rightarrow> (nat \<Rightarrow> bytes \<times> bytes) \<Rightarrow> nat \<Rightarrow> kms_context \<Rightarrow> kms_error + DataKey" where
  "local_generate_data_key A w draw n context = kms_result (generate_data_key A w (draw n))"

definition local_decrypt_data_key ::
  "aead \<Rightarrow> LocalKeyWrapper \<Rightarrow> nat \<Rightarrow> bytes \<Rightarrow> string \<Rightarrow> kms_context \<Rightarrow> kms_error + bytes" where
  "local_decrypt_data_key A w n wrapped key_id context = kms_result (unwrap_data_key A w wrapped key_id)"

definition local_reencrypt_data_key ::
  "aead \<Rightarrow> LocalKeyWrapper \<Rightarrow> (nat \<Rightarrow> bytes \<times> bytes) \<Rightarrow> nat \<Rightarrow> bytes \<Rightarrow> string \<Rightarrow> kms_context \<Rightarrow> kms_error + bytes \<times> string" where
  "local_reencrypt_data_key A w draw n wrapped source_key_id context =
     kms_result (rewrap A w (snd (draw n)) wrapped source_key_id)"

definition local_latest_rotation_at :: "nat \<Rightarrow> kms_error + i64 option" where
  "local_latest_rotation_at n = Inr None"

definition local_kms :: "aead \<Rightarrow> LocalKeyWrapper \<Rightarrow> (nat \<Rightarrow> bytes \<times> bytes) \<Rightarrow> kms" where
  "local_kms A w draw =
     \<lparr>km_generate_data_key = local_generate_data_key A w draw,
      km_decrypt_data_key = local_decrypt_data_key A w,
      km_reencrypt_data_key = local_reencrypt_data_key A w draw,
      km_latest_rotation_at = local_latest_rotation_at\<rparr>"

section \<open>The AWS provider\<close>

record aws_key_out =
  ao_plaintext :: "bytes option"
  ao_ciphertext_blob :: "bytes option"
  ao_key_id :: "string option"

record aws_rotations_page =
  rp_rotation_dates :: "i64 option list"
  rp_truncated :: bool
  rp_next_marker :: "string option"

text \<open>The calls of the client; None stands for a failed request.\<close>

record aws_sdk =
  aws_generate :: "nat \<Rightarrow> string \<Rightarrow> kms_context \<Rightarrow> aws_key_out option"
  aws_decrypt :: "nat \<Rightarrow> bytes \<Rightarrow> string \<Rightarrow> kms_context \<Rightarrow> aws_key_out option"
  aws_re_encrypt :: "nat \<Rightarrow> bytes \<Rightarrow> string \<Rightarrow> string \<Rightarrow> kms_context \<Rightarrow> aws_key_out option"
  aws_list_key_rotations :: "nat \<Rightarrow> string \<Rightarrow> string option \<Rightarrow> aws_rotations_page option"

definition unwrap_or :: "'a \<Rightarrow> 'a option \<Rightarrow> 'a" where
  "unwrap_or d x = (case x of Some a \<Rightarrow> a | None \<Rightarrow> d)"

definition aws_generate_data_key :: "aws_sdk \<Rightarrow> string \<Rightarrow> nat \<Rightarrow> kms_context \<Rightarrow> kms_error + DataKey" where
  "aws_generate_data_key sdk key_id n context =
     (case aws_generate sdk n key_id context of
        None \<Rightarrow> Inl KmsCallFailed
      | Some out \<Rightarrow>
     (case ao_plaintext out of
        None \<Rightarrow> Inl KmsNoPlaintext
      | Some pt \<Rightarrow>
     (case dek_from_slice pt of
        Inl e \<Rightarrow> Inl (KmsCore e)
      | Inr plaintext \<Rightarrow>
     (case ao_ciphertext_blob out of
        None \<Rightarrow> Inl KmsNoBlob
      | Some wrapped \<Rightarrow>
          Inr \<lparr>dk_plaintext = plaintext, dk_wrapped = wrapped, dk_key_id = unwrap_or key_id (ao_key_id out)\<rparr>))))"

definition aws_decrypt_data_key :: "aws_sdk \<Rightarrow> nat \<Rightarrow> bytes \<Rightarrow> string \<Rightarrow> kms_context \<Rightarrow> kms_error + bytes" where
  "aws_decrypt_data_key sdk n wrapped key_id context =
     (case aws_decrypt sdk n wrapped key_id context of
        None \<Rightarrow> Inl KmsCallFailed
      | Some out \<Rightarrow>
     (case ao_plaintext out of
        None \<Rightarrow> Inl KmsNoPlaintext
      | Some pt \<Rightarrow> kms_result (dek_from_slice pt)))"

definition aws_reencrypt_data_key ::
  "aws_sdk \<Rightarrow> string \<Rightarrow> nat \<Rightarrow> bytes \<Rightarrow> string \<Rightarrow> kms_context \<Rightarrow> kms_error + bytes \<times> string" where
  "aws_reencrypt_data_key sdk key_id n wrapped source_key_id context =
     (case aws_re_encrypt sdk n wrapped source_key_id key_id context of
        None \<Rightarrow> Inl KmsCallFailed
      | Some out \<Rightarrow>
     (case ao_ciphertext_blob out of
        None \<Rightarrow> Inl KmsNoBlob
      | Some blob \<Rightarrow> Inr (blob, unwrap_or key_id (ao_key_id out))))"

fun fold_dates :: "i64 option \<Rightarrow> i64 option list \<Rightarrow> i64 option" where
  "fold_dates latest [] = latest"
| "fold_dates latest (None # rest) = fold_dates latest rest"
| "fold_dates latest (Some secs # rest) =
     fold_dates (Some (case latest of None \<Rightarrow> secs | Some current \<Rightarrow> max current secs)) rest"

text \<open>
  The loop over the pages ends when the service says so; None is a loop that never does.
\<close>

partial_function (option) aws_rotation_pages ::
  "aws_sdk \<Rightarrow> string \<Rightarrow> nat \<Rightarrow> string option \<Rightarrow> i64 option \<Rightarrow> (kms_error + i64 option) option" where
  "aws_rotation_pages sdk key_id n marker latest =
     (case aws_list_key_rotations sdk n key_id marker of
        None \<Rightarrow> Some (Inl KmsCallFailed)
      | Some page \<Rightarrow>
          (let latest' = fold_dates latest (rp_rotation_dates page) in
           if rp_truncated page
           then (case rp_next_marker page of
                   None \<Rightarrow> Some (Inr latest')
                 | Some m \<Rightarrow> aws_rotation_pages sdk key_id (Suc n) (Some m) latest')
           else Some (Inr latest')))"

definition aws_latest_rotation_at :: "aws_sdk \<Rightarrow> string \<Rightarrow> nat \<Rightarrow> (kms_error + i64 option) option" where
  "aws_latest_rotation_at sdk key_id n = aws_rotation_pages sdk key_id n None None"

lemma aws_rotation_pages_returns:
  assumes "\<And>marker page. aws_list_key_rotations sdk (n + k) key_id marker = Some page \<Longrightarrow>
    \<not> rp_truncated page \<or> rp_next_marker page = None"
  shows "\<exists>result. aws_rotation_pages sdk key_id n marker latest = Some result"
  using assms
proof (induction k arbitrary: n marker latest)
  case 0
  then show ?case
    by (subst aws_rotation_pages.simps) (auto simp: Let_def split: option.split)
next
  case (Suc k)
  have "\<exists>result. aws_rotation_pages sdk key_id (Suc n) marker latest = Some result" for marker latest
    using Suc.IH [of "Suc n"] Suc.prems by simp
  then show ?case
    by (subst aws_rotation_pages.simps) (auto simp: Let_def split: option.split)
qed

section \<open>What the services rely on\<close>

text \<open>
  A provider, under its own conditions \<open>ok\<close>: data keys have the right length, decrypting a
  wrapped key fails or gives the same key whoever asks, in particular the key that was generated with it,
  and re-encryption keeps the key.
\<close>

locale kms_contract =
  fixes K :: kms and ok :: bool
  assumes generate_length:
      "ok \<Longrightarrow> km_generate_data_key K n c = Inr dk \<Longrightarrow> length (dk_plaintext dk) = DEK_LEN"
    and decrypt_generated:
      "ok \<Longrightarrow> km_generate_data_key K n c = Inr dk \<Longrightarrow>
       km_decrypt_data_key K m (dk_wrapped dk) kid c' = Inr dek \<Longrightarrow> dek = dk_plaintext dk"
    and decrypt_deterministic:
      "ok \<Longrightarrow> km_decrypt_data_key K n w kid c = Inr dek \<Longrightarrow>
       km_decrypt_data_key K m w kid' c' = Inr dek' \<Longrightarrow> dek = dek'"
    and reencrypt_same:
      "ok \<Longrightarrow> km_reencrypt_data_key K n w kid c = Inr (w', kid') \<Longrightarrow>
       km_decrypt_data_key K m w kid c' = Inr dek \<Longrightarrow>
       km_decrypt_data_key K m' w' kid'' c'' = Inr dek' \<Longrightarrow> dek' = dek"
begin

text \<open>A chain of re-encryptions keeps the data key as well.\<close>

lemma reencrypt_twice:
  assumes "ok" "km_reencrypt_data_key K n w kid c = Inr (w1, kid1)" "km_reencrypt_data_key K m w1 kid1 c = Inr (w2, kid2)"
    and "km_decrypt_data_key K i w kid c = Inr dek" "km_decrypt_data_key K j w1 kid1 c = Inr dek1"
    and "km_decrypt_data_key K k w2 kid2 c = Inr dek2"
  shows "dek2 = dek"
  using reencrypt_same [OF assms(1,2,4,5)] reencrypt_same [OF assms(1,3,5,6)] by simp

end

lemma kms_result_Inr [simp]: "kms_result r = Inr a \<longleftrightarrow> r = Inr a"
  by (simp add: kms_result_def split: sum.split)

interpretation lkms: kms_contract "local_kms A w draw" "aead_ok A \<and> (\<forall>n. local_draw_ok (draw n))" for A w draw
proof
  fix n m c c' dk kid dek
  assume ok: "aead_ok A \<and> (\<forall>n. local_draw_ok (draw n))"
    and gen: "km_generate_data_key (local_kms A w draw) n c = Inr dk"
  then have g: "generate_data_key A w (draw n) = Inr dk" and d: "local_draw_ok (draw n)"
    by (simp_all add: local_kms_def local_generate_data_key_def)
  then show "length (dk_plaintext dk) = DEK_LEN"
    by (auto simp: generate_data_key_def local_draw_ok_def Let_def split: sum.splits)
  assume "km_decrypt_data_key (local_kms A w draw) m (dk_wrapped dk) kid c' = Inr dek"
  moreover have "unwrap_data_key A w (dk_wrapped dk) kid = Inr (dk_plaintext dk)"
    using lkw.unwrap_gen [OF _ d g] ok by (simp add: unwrap_data_key_def)
  ultimately show "dek = dk_plaintext dk" by (simp add: local_kms_def local_decrypt_data_key_def)
next
  fix n m ww kid kid' c c' dek dek'
  assume "km_decrypt_data_key (local_kms A w draw) n ww kid c = Inr dek"
    "km_decrypt_data_key (local_kms A w draw) m ww kid' c' = Inr dek'"
  then show "dek = dek'" by (simp add: local_kms_def local_decrypt_data_key_def unwrap_data_key_def)
next
  fix n m m' ww kid c w' kid' c' dek kid'' c'' dek'
  assume ok: "aead_ok A \<and> (\<forall>n. local_draw_ok (draw n))"
    and re: "km_reencrypt_data_key (local_kms A w draw) n ww kid c = Inr (w', kid')"
    and dec: "km_decrypt_data_key (local_kms A w draw) m ww kid c' = Inr dek"
    and dec': "km_decrypt_data_key (local_kms A w draw) m' w' kid'' c'' = Inr dek'"
  have u: "unwrap_data_key A w ww kid = Inr dek" "unwrap_data_key A w w' kid'' = Inr dek'"
    using dec dec' by (simp_all add: local_kms_def local_decrypt_data_key_def)
  have "wrap_dek A w (snd (draw n)) dek = Inr w'"
    using re u(1) by (auto simp: local_kms_def local_reencrypt_data_key_def rewrap_Inr)
  moreover have "length (snd (draw n)) = NONCE_LEN" using ok by (simp add: local_draw_ok_def)
  ultimately have "unwrap_data_key A w w' kid'' = Inr dek"
    using ok unwrap_data_key_length [OF u(1)] by (intro unwrap_wrap_dek) auto
  then show "dek' = dek" using u(2) by simp
qed

section \<open>Retries and pages\<close>

lemma retry_loop_Inr:
  assumes "a \<le> mx"
  shows "retry_loop call mx a = Inr v \<longleftrightarrow>
    (\<exists>i. a \<le> i \<and> i \<le> mx \<and> call i = Inr v \<and> (\<forall>j. a \<le> j \<and> j < i \<longrightarrow> \<not> is_ok (call j)))"
  using assms
proof (induction call mx a rule: retry_loop.induct)
  case (1 call mx a)
  show ?case
  proof (cases "call a")
    case (Inr u)
    have "i = a" if "a \<le> i" "\<forall>j. a \<le> j \<and> j < i \<longrightarrow> \<not> is_ok (call j)" for i
      using that Inr by (metis is_ok_simps(1) le_refl le_neq_implies_less)
    then have "(\<exists>i. a \<le> i \<and> i \<le> mx \<and> call i = Inr v \<and> (\<forall>j. a \<le> j \<and> j < i \<longrightarrow> \<not> is_ok (call j))) \<longleftrightarrow> u = v"
      using "1.prems" Inr by (metis le_refl not_less sum.inject(2))
    with Inr show ?thesis by (simp add: retry_loop.simps [of call])
  next
    case (Inl e)
    show ?thesis
    proof (cases "a < mx")
      case True
      have "(\<exists>i. Suc a \<le> i \<and> i \<le> mx \<and> call i = Inr v \<and> (\<forall>j. Suc a \<le> j \<and> j < i \<longrightarrow> \<not> is_ok (call j))) \<longleftrightarrow>
            (\<exists>i. a \<le> i \<and> i \<le> mx \<and> call i = Inr v \<and> (\<forall>j. a \<le> j \<and> j < i \<longrightarrow> \<not> is_ok (call j)))"
        using Inl by (metis Suc_leD Suc_leI is_ok_simps(2) le_eq_less_or_eq sum.distinct(1))
      with 1(1) [OF Inl True] True Inl show ?thesis by (simp add: retry_loop.simps [of call _ a])
    next
      case False
      with "1.prems" have "a = mx" by simp
      moreover have "retry_loop call mx a = Inl e"
        using Inl False by (simp add: retry_loop.simps [of call mx a])
      ultimately show ?thesis using Inl by (auto dest: le_antisym)
    qed
  qed
qed

lemma retry_loop_Inl:
  "a \<le> mx \<Longrightarrow> \<forall>i. a \<le> i \<and> i \<le> mx \<longrightarrow> \<not> is_ok (call i) \<Longrightarrow> retry_loop call mx a = call mx"
proof (induction call mx a rule: retry_loop.induct)
  case (1 call mx a)
  then obtain e where "call a = Inl e" by (cases "call a") auto
  then have step: "retry_loop call mx a = (if a < mx then retry_loop call mx (Suc a) else call a)"
    by (simp add: retry_loop.simps [of call mx a])
  show ?case
  proof (cases "a < mx")
    case True
    then show ?thesis using 1 \<open>call a = Inl e\<close> step by auto
  next
    case False
    with 1(2) have "a = mx" by simp
    then show ?thesis using step by simp
  qed
qed

text \<open>Retrying keeps the contract.\<close>

context kms_contract begin

lemma retrying_contract: "kms_contract (retrying_kms K mx) ok"
proof
  note defs = retrying_kms_def retrying_generate_data_key_def retrying_decrypt_data_key_def
    retrying_reencrypt_data_key_def Let_def retry_loop_Inr
  fix n m c c' dk kid dek
  assume ok: ok and gen: "km_generate_data_key (retrying_kms K mx) n c = Inr dk"
  then obtain i where g: "km_generate_data_key K i c = Inr dk" by (auto simp: defs)
  show "length (dk_plaintext dk) = DEK_LEN" by (rule generate_length [OF ok g])
  assume "km_decrypt_data_key (retrying_kms K mx) m (dk_wrapped dk) kid c' = Inr dek"
  then show "dek = dk_plaintext dk" using decrypt_generated [OF ok g] by (auto simp: defs)
next
  note defs = retrying_kms_def retrying_decrypt_data_key_def Let_def retry_loop_Inr
  fix n m w kid kid' c c' dek dek'
  assume "ok" "km_decrypt_data_key (retrying_kms K mx) n w kid c = Inr dek"
    "km_decrypt_data_key (retrying_kms K mx) m w kid' c' = Inr dek'"
  then show "dek = dek'" using decrypt_deterministic by (auto simp: defs)
next
  note defs = retrying_kms_def retrying_decrypt_data_key_def retrying_reencrypt_data_key_def Let_def retry_loop_Inr
  fix n m m' w kid c w' kid' c' dek kid'' c'' dek'
  assume "ok" "km_reencrypt_data_key (retrying_kms K mx) n w kid c = Inr (w', kid')"
    "km_decrypt_data_key (retrying_kms K mx) m w kid c' = Inr dek"
    "km_decrypt_data_key (retrying_kms K mx) m' w' kid'' c'' = Inr dek'"
  then show "dek' = dek" using reencrypt_same by (auto simp: defs)
qed

end

interpretation rkms: kms_contract "retrying_kms (local_kms A w draw) mx"
  "aead_ok A \<and> (\<forall>n. local_draw_ok (draw n))" for A w draw mx
  by (rule lkms.retrying_contract)


end
