(* ===== verification/Dek_Cache.thy ===== *)
theory Dek_Cache
  imports Vault_Prelude "HOL-Library.AList"
begin

text \<open>
  \<open>cache.rs\<close>: the cache of decrypted data keys. Instants are natural numbers of
  nanoseconds and their differences are truncated at zero, as \<open>elapsed\<close> and
  \<open>duration_since\<close> are. The hash map is an association list with distinct keys; its order
  stands for the unspecified iteration order, on which no fact below depends.
\<close>

definition MAX_ENTRIES :: nat where "MAX_ENTRIES = 16384"

type_synonym instant = nat

record DekCache =
  dc_ttl :: nat
  dc_map :: "(bytes \<times> (instant \<times> bytes)) list"

definition NANOS_PER_SEC :: nat where "NANOS_PER_SEC = 1000000000"

definition cache_new :: "u64 \<Rightarrow> DekCache" where
  "cache_new ttl_secs = \<lparr>dc_ttl = unat ttl_secs * NANOS_PER_SEC, dc_map = []\<rparr>"

definition cache_enabled :: "DekCache \<Rightarrow> bool" where
  "cache_enabled c \<longleftrightarrow> dc_ttl c \<noteq> 0"

definition cache_get :: "instant \<Rightarrow> bytes \<Rightarrow> DekCache \<Rightarrow> bytes option \<times> DekCache" where
  "cache_get now wrapped c =
     (if dc_ttl c = 0 then (None, c)
      else
        (case map_of (dc_map c) wrapped of
           Some (stored, dek) \<Rightarrow>
             (if now - stored < dc_ttl c then (Some dek, c)
              else (None, c\<lparr>dc_map := AList.delete wrapped (dc_map c)\<rparr>))
         | None \<Rightarrow> (None, c)))"

text \<open>The key of the first entry whose instant is minimal.\<close>

fun oldest_entry :: "(bytes \<times> (instant \<times> bytes)) list \<Rightarrow> (bytes \<times> instant) option" where
  "oldest_entry [] = None"
| "oldest_entry ((key, stored, _) # rest) =
     (case oldest_entry rest of
        None \<Rightarrow> Some (key, stored)
      | Some (key', stored') \<Rightarrow> (if stored \<le> stored' then Some (key, stored) else Some (key', stored')))"

definition cache_put :: "instant \<Rightarrow> bytes \<Rightarrow> bytes \<Rightarrow> DekCache \<Rightarrow> DekCache" where
  "cache_put now wrapped dek c =
     (if dc_ttl c = 0 then c
      else
        (let m1 = (if MAX_ENTRIES \<le> length (dc_map c)
                   then filter (\<lambda>entry. now - fst (snd entry) < dc_ttl c) (dc_map c)
                   else dc_map c);
             m2 = (if MAX_ENTRIES \<le> length m1
                   then (case oldest_entry m1 of Some (oldest, _) \<Rightarrow> AList.delete oldest m1 | None \<Rightarrow> m1)
                   else m1)
         in c\<lparr>dc_map := AList.update wrapped (now, dek) m2\<rparr>))"

section \<open>The hash map stays within its bound\<close>

definition cache_wf :: "DekCache \<Rightarrow> bool" where
  "cache_wf c \<longleftrightarrow> distinct (map fst (dc_map c)) \<and> length (dc_map c) \<le> MAX_ENTRIES"

lemma oldest_entry_in: "oldest_entry m = Some (k, t) \<Longrightarrow> k \<in> fst ` set m"
  by (induction m arbitrary: k t rule: oldest_entry.induct) (auto split: option.splits if_splits)

lemma oldest_entry_None: "oldest_entry m = None \<longleftrightarrow> m = []"
  by (induction m rule: oldest_entry.induct) (auto split: option.splits prod.splits)

lemma length_delete_in:
  assumes "k \<in> fst ` set m"
  shows "length (AList.delete k m) < length m"
  using assms unfolding AList.delete_eq by (force intro: length_filter_less)

lemma length_update: "length (AList.update k v m) \<le> Suc (length m)"
  by (induction m) auto

lemma cache_wf_get: "cache_wf c \<Longrightarrow> cache_wf (snd (cache_get now w c))"
  by (auto simp: cache_wf_def cache_get_def AList.distinct_delete
      intro: le_trans [OF AList.length_delete_le] split: option.split)

text \<open>The entries left after the two evictions, before the new entry is inserted.\<close>

definition evicted :: "instant \<Rightarrow> DekCache \<Rightarrow> (bytes \<times> (instant \<times> bytes)) list" where
  "evicted now c =
     (let m1 = (if MAX_ENTRIES \<le> length (dc_map c)
                then filter (\<lambda>entry. now - fst (snd entry) < dc_ttl c) (dc_map c) else dc_map c)
      in if MAX_ENTRIES \<le> length m1
         then (case oldest_entry m1 of Some (oldest, _) \<Rightarrow> AList.delete oldest m1 | None \<Rightarrow> m1)
         else m1)"

lemma cache_put_eq:
  "cache_put now w dek c =
     (if dc_ttl c = 0 then c else c\<lparr>dc_map := AList.update w (now, dek) (evicted now c)\<rparr>)"
  by (simp add: cache_put_def evicted_def Let_def)

lemma evicted_wf:
  assumes "cache_wf c"
  shows "distinct (map fst (evicted now c))" "length (evicted now c) < MAX_ENTRIES"
    "map_of (evicted now c) \<subseteq>\<^sub>m map_of (dc_map c)"
proof -
  define m1 where "m1 = (if MAX_ENTRIES \<le> length (dc_map c)
    then filter (\<lambda>entry. now - fst (snd entry) < dc_ttl c) (dc_map c) else dc_map c)"
  have d: "distinct (map fst (dc_map c))" and len: "length (dc_map c) \<le> MAX_ENTRIES"
    using assms by (simp_all add: cache_wf_def)
  have d1: "distinct (map fst m1)" using d by (simp add: m1_def distinct_map_filter)
  have len1: "length m1 \<le> MAX_ENTRIES"
    using len by (auto simp: m1_def intro: le_trans [OF length_filter_le])
  have sub1: "map_of m1 \<subseteq>\<^sub>m map_of (dc_map c)"
    using d d1 by (auto simp: map_le_def m1_def domIff dest!: map_of_SomeD)
  have ev: "evicted now c = (if MAX_ENTRIES \<le> length m1
      then (case oldest_entry m1 of Some (oldest, _) \<Rightarrow> AList.delete oldest m1 | None \<Rightarrow> m1) else m1)"
    by (simp only: evicted_def m1_def Let_def)
  show "distinct (map fst (evicted now c))"
    using d1 by (simp add: ev AList.distinct_delete split: option.split prod.split)
  show "length (evicted now c) < MAX_ENTRIES"
  proof (cases "MAX_ENTRIES \<le> length m1")
    case True
    then have "m1 \<noteq> []" by (auto simp: MAX_ENTRIES_def)
    then obtain k t where k: "oldest_entry m1 = Some (k, t)"
      using oldest_entry_None by (metis not_None_eq surj_pair)
    then have "length (AList.delete k m1) < length m1"
      by (intro length_delete_in) (rule oldest_entry_in)
    then show ?thesis using k len1 True by (simp add: ev)
  qed (simp add: ev)
  show "map_of (evicted now c) \<subseteq>\<^sub>m map_of (dc_map c)"
  proof -
    have "map_of (AList.delete k m1) \<subseteq>\<^sub>m map_of m1" for k
      by (simp add: AList.delete_conv' map_le_def)
    then have "map_of (evicted now c) \<subseteq>\<^sub>m map_of m1"
      by (simp add: ev split: option.split prod.split)
    then show ?thesis using sub1 by (rule map_le_trans)
  qed
qed

lemma cache_wf_put: "cache_wf c \<Longrightarrow> cache_wf (cache_put now w dek c)"
  using evicted_wf [of c now] length_update [of w "(now, dek)" "evicted now c"]
  by (simp add: cache_put_eq cache_wf_def AList.distinct_update)

section \<open>Traces\<close>

datatype cache_op = CacheGet instant bytes | CachePut instant bytes bytes

fun run_cache :: "cache_op list \<Rightarrow> DekCache \<Rightarrow> DekCache" where
  "run_cache [] c = c"
| "run_cache (CacheGet now w # ops) c = run_cache ops (snd (cache_get now w c))"
| "run_cache (CachePut now w dek # ops) c = run_cache ops (cache_put now w dek c)"

fun last_put :: "bytes \<Rightarrow> cache_op list \<Rightarrow> (instant \<times> bytes) option \<Rightarrow> (instant \<times> bytes) option" where
  "last_put w [] acc = acc"
| "last_put w (CachePut now v dek # ops) acc = last_put w ops (if v = w then Some (now, dek) else acc)"
| "last_put w (CacheGet now v # ops) acc = last_put w ops acc"

lemma cache_get_sub: "map_of (dc_map (snd (cache_get now w c))) \<subseteq>\<^sub>m map_of (dc_map c)"
  by (auto simp: cache_get_def map_le_def AList.delete_conv' domIff split: option.split)

lemma map_le_SomeD: "f \<subseteq>\<^sub>m g \<Longrightarrow> f x = Some y \<Longrightarrow> g x = Some y"
  by (metis domI map_le_def)

lemma dc_ttl_simps [simp]:
  "dc_ttl (snd (cache_get now w c)) = dc_ttl c" "dc_ttl (cache_put now w dek c) = dc_ttl c"
  by (simp_all add: cache_get_def cache_put_eq split: option.split prod.split)

lemma cache_put_entry:
  assumes "cache_wf c" "map_of (dc_map (cache_put now w dek c)) v = Some e"
  shows "if v = w \<and> dc_ttl c \<noteq> 0 then e = (now, dek) else map_of (dc_map c) v = Some e"
  using assms(2) map_le_SomeD [OF evicted_wf(3) [OF assms(1), of now], of v e]
  by (auto simp: cache_put_eq AList.update_conv' split: if_splits)

lemma run_cache_inv:
  assumes "cache_wf c" "\<And>w e. map_of (dc_map c) w = Some e \<Longrightarrow> acc w = Some e \<and> dc_ttl c \<noteq> 0"
  shows "cache_wf (run_cache ops c) \<and> dc_ttl (run_cache ops c) = dc_ttl c \<and>
    (\<forall>w e. map_of (dc_map (run_cache ops c)) w = Some e \<longrightarrow> last_put w ops (acc w) = Some e)"
  using assms
proof (induction ops c arbitrary: acc rule: run_cache.induct)
  case (2 now w ops c)
  have "acc v = Some e \<and> dc_ttl (snd (cache_get now w c)) \<noteq> 0"
    if "map_of (dc_map (snd (cache_get now w c))) v = Some e" for v e
    using 2(3) [OF map_le_SomeD [OF cache_get_sub that]] by simp
  then have "cache_wf (run_cache ops (snd (cache_get now w c))) \<and>
      dc_ttl (run_cache ops (snd (cache_get now w c))) = dc_ttl (snd (cache_get now w c)) \<and>
      (\<forall>v e. map_of (dc_map (run_cache ops (snd (cache_get now w c)))) v = Some e \<longrightarrow> last_put v ops (acc v) = Some e)"
    by (intro 2(1) cache_wf_get [OF 2(2)])
  then show ?case by simp
next
  case (3 now w dek ops c)
  let ?acc = "\<lambda>v. if w = v then Some (now, dek) else acc v"
  have "?acc v = Some e \<and> dc_ttl (cache_put now w dek c) \<noteq> 0"
    if "map_of (dc_map (cache_put now w dek c)) v = Some e" for v e
    using cache_put_entry [OF 3(2) that] 3(3) [of v e]
    by (cases "v = w"; cases "dc_ttl c = 0") simp_all
  then have "cache_wf (run_cache ops (cache_put now w dek c)) \<and>
      dc_ttl (run_cache ops (cache_put now w dek c)) = dc_ttl (cache_put now w dek c) \<and>
      (\<forall>v e. map_of (dc_map (run_cache ops (cache_put now w dek c))) v = Some e \<longrightarrow> last_put v ops (?acc v) = Some e)"
    by (intro 3(1) cache_wf_put [OF 3(2)])
  then show ?case unfolding run_cache.simps last_put.simps dc_ttl_simps .
qed simp

text \<open>
  C39: after any sequence of lookups and insertions the cache holds at most its maximum of entries, and a
  lookup hits only with the data key that was last inserted under the same wrapped key and
  only while less than the time to live has passed since. A cache with no time to live never hits.
\<close>

theorem dek_cache_bounded_and_fresh:
  "let c = run_cache ops (cache_new ttl) in
     length (dc_map c) \<le> MAX_ENTRIES \<and>
     (case fst (cache_get now w c) of
        None \<Rightarrow> True
      | Some dek \<Rightarrow> (case last_put w ops None of
                       Some (stored, d) \<Rightarrow> d = dek \<and> now - stored < unat ttl * NANOS_PER_SEC
                     | None \<Rightarrow> False))"
proof -
  let ?c = "run_cache ops (cache_new ttl)"
  have "cache_wf (cache_new ttl)" by (simp add: cache_wf_def cache_new_def)
  from run_cache_inv [OF this, where acc = "\<lambda>_. None" and ops = ops]
  have "cache_wf ?c" "dc_ttl ?c = unat ttl * NANOS_PER_SEC"
    "\<And>w e. map_of (dc_map ?c) w = Some e \<Longrightarrow> last_put w ops None = Some e"
    by (auto simp: cache_new_def)
  then show ?thesis
    by (auto simp: Let_def cache_wf_def cache_get_def split: option.split)
qed

end
