(* ===== verification/Pg_Targets.thy ===== *)
theory Pg_Targets
  imports Store_Model
begin

text \<open>
  \<open>pg_apply.rs\<close>: which Postgres hosts a rotation target may name, and the attempts to set
  a password there. A connection attempt is a call to the database driver: the argument
  \<open>pg\<close> gives the outcome of the n-th attempt, and the attempts that were made are returned
  next to the result. Ports are numbers below 65536.
\<close>

datatype PgTlsMode = VerifyFull | Prefer | Disable

datatype SslMode = SslRequire | SslPrefer | SslDisable

datatype pg_error =
    TargetHasNoHosts
  | TargetsRefused
  | HostNotAllowed string
  | EmptyHost string
  | NoCertificates
  | AttemptFailed nat
  | NoWritablePrimary "string list"

definition DEFAULT_PG_PORT :: nat where "DEFAULT_PG_PORT = 5432"

definition parse_port :: "string \<Rightarrow> nat option" where
  "parse_port s = parse_uint 65535 s"

definition split_hostport :: "string \<Rightarrow> string \<times> nat" where
  "split_hostport hostport =
     (case strip_prefix ''['' hostport of
        Some rest \<Rightarrow>
          (case split_once (CHR '']'') rest of
             Some (host, tail) \<Rightarrow>
               (if tail = [] then (host, DEFAULT_PG_PORT)
                else (case strip_prefix '':'' tail of
                        Some p \<Rightarrow> (case parse_port p of
                                     Some port \<Rightarrow> (host, port)
                                   | None \<Rightarrow> (hostport, DEFAULT_PG_PORT))
                      | None \<Rightarrow> (hostport, DEFAULT_PG_PORT)))
           | None \<Rightarrow> (hostport, DEFAULT_PG_PORT))
      | None \<Rightarrow>
          (case rsplit_once (CHR '':'') hostport of
             Some (host, port) \<Rightarrow>
               (if CHR '':'' \<notin> set host
                then (case parse_port port of
                        Some p \<Rightarrow> (host, p)
                      | None \<Rightarrow> (hostport, DEFAULT_PG_PORT))
                else (hostport, DEFAULT_PG_PORT))
           | None \<Rightarrow> (hostport, DEFAULT_PG_PORT)))"

definition push_host :: "string \<times> nat \<Rightarrow> (string \<times> nat) list \<Rightarrow> (string \<times> nat) list" where
  "push_host hp hosts =
     (let host = to_ascii_lowercase (fst hp) in
      if (host, snd hp) \<in> set hosts then hosts else hosts @ [(host, snd hp)])"

fun parse_host_entries :: "string list \<Rightarrow> (string \<times> nat) list \<Rightarrow> pg_error + (string \<times> nat) list" where
  "parse_host_entries [] hosts = Inr hosts"
| "parse_host_entries (raw # rest) hosts =
     (let entry = trim raw in
      if entry = [] then parse_host_entries rest hosts
      else
        (let hp = split_hostport entry in
         if fst hp = [] then Inl (EmptyHost entry) else parse_host_entries rest (push_host hp hosts)))"

definition parse_hosts :: "string \<Rightarrow> pg_error + (string \<times> nat) list" where
  "parse_hosts raw = parse_host_entries (split_on (CHR '','') raw) []"

record PgTargetPolicy =
  pt_hosts :: "(string \<times> nat) list"
  pt_mode :: PgTlsMode
  pt_tls :: bool

text \<open>The argument \<open>client_config\<close> is what loading the certificates returned.\<close>

definition from_hosts :: "(string \<times> nat) list \<Rightarrow> PgTlsMode \<Rightarrow> pg_error + unit \<Rightarrow> pg_error + PgTargetPolicy" where
  "from_hosts hosts mode client_config =
     (if hosts = [] then Inr \<lparr>pt_hosts = hosts, pt_mode = mode, pt_tls = False\<rparr>
      else
        (case mode of
           Disable \<Rightarrow> Inr \<lparr>pt_hosts = hosts, pt_mode = mode, pt_tls = False\<rparr>
         | VerifyFull \<Rightarrow>
             (case client_config of
                Inl e \<Rightarrow> Inl e
              | Inr _ \<Rightarrow> Inr \<lparr>pt_hosts = hosts, pt_mode = mode, pt_tls = True\<rparr>)
         | Prefer \<Rightarrow> Inr \<lparr>pt_hosts = hosts, pt_mode = mode, pt_tls = is_ok client_config\<rparr>))"

definition policy_build :: "string \<Rightarrow> PgTlsMode \<Rightarrow> pg_error + unit \<Rightarrow> pg_error + PgTargetPolicy" where
  "policy_build raw_hosts mode client_config =
     (case parse_hosts raw_hosts of Inl e \<Rightarrow> Inl e | Inr hosts \<Rightarrow> from_hosts hosts mode client_config)"

definition policy_seeded :: "string list \<Rightarrow> PgTlsMode \<Rightarrow> pg_error + unit \<Rightarrow> pg_error + PgTargetPolicy" where
  "policy_seeded hosts mode client_config =
     from_hosts
       (foldl (\<lambda>parsed entry.
          let hp = split_hostport (trim entry) in if fst hp = [] then parsed else push_host hp parsed) [] hosts)
       mode client_config"

definition policy_hosts :: "PgTargetPolicy \<Rightarrow> string list" where
  "policy_hosts p = map (\<lambda>(host, port). host @ '':'' @ show_nat port) (pt_hosts p)"

definition policy_allows :: "PgTargetPolicy \<Rightarrow> string \<Rightarrow> bool" where
  "policy_allows p hostport =
     (let hp = split_hostport hostport
      in list_ex (\<lambda>(allowed, allowed_port). allowed = to_ascii_lowercase (fst hp) \<and> allowed_port = snd hp)
           (pt_hosts p))"

fun check_hosts :: "PgTargetPolicy \<Rightarrow> string list \<Rightarrow> pg_error + unit" where
  "check_hosts p [] = Inr ()"
| "check_hosts p (hostport # rest) =
     (if \<not> policy_allows p hostport then Inl (HostNotAllowed hostport) else check_hosts p rest)"

definition policy_check :: "PgTargetPolicy \<Rightarrow> PgRoleTarget \<Rightarrow> pg_error + unit" where
  "policy_check p target =
     (if pg_hosts target = [] then Inl TargetHasNoHosts
      else if pt_hosts p = [] then Inl TargetsRefused
      else check_hosts p (pg_hosts target))"

section \<open>Setting a password\<close>

record pg_attempt =
  pa_ssl :: SslMode
  pa_host :: string
  pa_port :: nat
  pa_database :: string
  pa_user :: string
  pa_password :: string
  pa_role :: string
  pa_new_password :: string

type_synonym pg_driver = "nat \<Rightarrow> pg_attempt \<Rightarrow> bool option"

definition try_rotate :: "PgTargetPolicy \<Rightarrow> string \<Rightarrow> nat \<Rightarrow> string \<Rightarrow> string \<Rightarrow> string \<Rightarrow> string \<Rightarrow> string \<Rightarrow> pg_attempt" where
  "try_rotate p host port database user password role new_password =
     \<lparr>pa_ssl = (if pt_tls p then (case pt_mode p of VerifyFull \<Rightarrow> SslRequire | _ \<Rightarrow> SslPrefer) else SslDisable),
      pa_host = host, pa_port = port, pa_database = database, pa_user = user, pa_password = password,
      pa_role = role, pa_new_password = new_password\<rparr>"

fun try_hosts ::
  "pg_driver \<Rightarrow> nat \<Rightarrow> (string \<Rightarrow> pg_attempt) \<Rightarrow> string list \<Rightarrow> pg_error \<Rightarrow> (pg_error + unit) \<times> pg_attempt list" where
  "try_hosts pg n attempt [] last_err = (Inl last_err, [])"
| "try_hosts pg n attempt (hostport # rest) last_err =
     (let a = attempt hostport in
      case pg n a of
        Some True \<Rightarrow> (Inr (), [a])
      | Some False \<Rightarrow> (case try_hosts pg (Suc n) attempt rest last_err of (res, as) \<Rightarrow> (res, a # as))
      | None \<Rightarrow> (case try_hosts pg (Suc n) attempt rest (AttemptFailed n) of (res, as) \<Rightarrow> (res, a # as)))"

definition apply_password ::
  "pg_driver \<Rightarrow> nat \<Rightarrow> PgTargetPolicy \<Rightarrow> PgRoleTarget \<Rightarrow> string \<Rightarrow> string \<Rightarrow> string \<Rightarrow> string \<Rightarrow>
   (pg_error + unit) \<times> pg_attempt list" where
  "apply_password pg n p target login_user login_password role new_password =
     (case policy_check p target of
        Inl e \<Rightarrow> (Inl e, [])
      | Inr _ \<Rightarrow>
          try_hosts pg n
            (\<lambda>hostport. let hp = split_hostport hostport
                         in try_rotate p (fst hp) (snd hp) (pg_database target) login_user login_password role new_password)
            (pg_hosts target) (NoWritablePrimary (pg_hosts target)))"

section \<open>Properties\<close>

lemma check_hosts_ok: "check_hosts p hs = Inr () \<longleftrightarrow> list_all (policy_allows p) hs"
  by (induction p hs rule: check_hosts.induct) auto

lemma policy_allows_iff:
  "policy_allows p h \<longleftrightarrow> (to_ascii_lowercase (fst (split_hostport h)), snd (split_hostport h)) \<in> set (pt_hosts p)"
  by (auto simp: policy_allows_def Let_def list_ex_iff)

lemma try_hosts_attempts:
  "set (snd (try_hosts pg n f hs e)) \<subseteq> f ` set hs"
proof (induction hs arbitrary: n e)
  case (Cons h hs)
  note IH = Cons.IH [of "Suc n" e] Cons.IH [of "Suc n" "AttemptFailed n"]
  show ?case
    using IH by (auto simp: Let_def case_prod_beta split: option.split bool.split)
qed simp

lemma nth_Cons_ex:
  "(\<exists>i < length (a # as). P i ((a # as) ! i)) \<longleftrightarrow> P 0 a \<or> (\<exists>i < length as. P (Suc i) (as ! i))"
  by (auto simp: less_Suc_eq_0_disj)

lemma try_hosts_ok:
  "fst (try_hosts pg n f hs e) = Inr () \<longleftrightarrow>
     (\<exists>i < length (snd (try_hosts pg n f hs e)). pg (n + i) (snd (try_hosts pg n f hs e) ! i) = Some True)"
proof (induction hs arbitrary: n e)
  case (Cons h hs)
  note IH = Cons.IH [of "Suc n" e] Cons.IH [of "Suc n" "AttemptFailed n"]
  have sh: "(\<exists>i < length (a # as). pg (n + i) ((a # as) ! i) = Some True) \<longleftrightarrow>
      pg n a = Some True \<or> (\<exists>i < length as. pg (Suc n + i) (as ! i) = Some True)" for a as
    using nth_Cons_ex [of a as "\<lambda>i x. pg (n + i) x = Some True"] by simp
  consider "pg n (f h) = None" | "pg n (f h) = Some True" | "pg n (f h) = Some False"
    by (cases "pg n (f h)") auto
  then show ?case
    using IH by cases (simp_all only: try_hosts.simps Let_def case_prod_beta option.case bool.case if_True if_False
        fst_conv snd_conv sh, simp_all)
qed simp

text \<open>Attempts the policy permits: to an allowed host and port, in the way the TLS mode demands.\<close>

definition attempt_confined :: "PgTargetPolicy \<Rightarrow> pg_attempt \<Rightarrow> bool" where
  "attempt_confined p a \<longleftrightarrow>
     (to_ascii_lowercase (pa_host a), pa_port a) \<in> set (pt_hosts p) \<and>
     (pa_ssl a = SslRequire \<longleftrightarrow> pt_tls p \<and> pt_mode p = VerifyFull) \<and>
     (pa_ssl a = SslDisable \<longleftrightarrow> \<not> pt_tls p)"

lemma policy_check_ok: "policy_check p target = Inr u \<Longrightarrow> list_all (policy_allows p) (pg_hosts target)"
  by (auto simp: policy_check_def check_hosts_ok [symmetric] split: if_splits)

lemma apply_password_attempts:
  "list_all (attempt_confined p) (snd (apply_password pg n p target user password role new_password))"
proof (cases "policy_check p target")
  case (Inr u)
  let ?f = "\<lambda>hostport. let hp = split_hostport hostport
     in try_rotate p (fst hp) (snd hp) (pg_database target) user password role new_password"
  show ?thesis
    using policy_check_ok [OF Inr] Inr
      try_hosts_attempts [of pg n ?f "pg_hosts target" "NoWritablePrimary (pg_hosts target)"]
    by (fastforce simp: apply_password_def list.pred_set policy_allows_iff attempt_confined_def try_rotate_def
        Let_def split: PgTlsMode.splits)
qed (simp add: apply_password_def)

text \<open>
  A password is only ever offered to allowed hosts. Every connection attempt goes to a host
  and port of the allow list, in the way the TLS mode demands; the call succeeds exactly if an
  attempt was accepted; and a target with a host outside the list is refused
  before any attempt is made.
\<close>

theorem apply_password_confined:
  "let (res, attempts) = apply_password pg n p target user password role new_password in
     list_all (attempt_confined p) attempts \<and>
     (res = Inr () \<longleftrightarrow> (\<exists>i < length attempts. pg (n + i) (attempts ! i) = Some True)) \<and>
     (list_all (policy_allows p) (pg_hosts target) \<or> attempts = [])"
proof (cases "policy_check p target")
  case (Inl e)
  then show ?thesis by (simp add: apply_password_def)
next
  case (Inr u)
  then show ?thesis
    using try_hosts_ok policy_check_ok [OF Inr]
      apply_password_attempts [of p pg n target user password role new_password]
    by (simp add: apply_password_def case_prod_beta)
qed

end
