(* ===== verification/Ip_Addr.thy ===== *)
theory Ip_Addr
  imports Rust_Strings
begin

text \<open>
  IP addresses as the standard library has them, and how they print: the textual form keys
  the lockout counters and goes into the audit log.
\<close>

datatype Ipv4Addr = Ipv4 u8 u8 u8 u8

datatype Ipv6Addr = Ipv6 "16 word list"

datatype IpAddr = V4 Ipv4Addr | V6 Ipv6Addr

fun show_ipv4 :: "Ipv4Addr \<Rightarrow> string" where
  "show_ipv4 (Ipv4 a b c d) =
     show_nat (unat a) @ ''.'' @ show_nat (unat b) @ ''.'' @ show_nat (unat c) @ ''.'' @ show_nat (unat d)"

definition hex_digit :: "nat \<Rightarrow> char" where
  "hex_digit n = (if n < 10 then char_of (48 + n) else char_of (87 + n))"

function show_hex :: "nat \<Rightarrow> string" where
  "show_hex n = (if n < 16 then [hex_digit n] else show_hex (n div 16) @ [hex_digit (n mod 16)])"
  by pat_completeness auto
termination by (relation "measure id") auto

declare show_hex.simps [simp del]

text \<open>The first longest run of zero segments, as its start and length.\<close>

fun zero_run :: "nat \<Rightarrow> 16 word list \<Rightarrow> nat \<times> nat \<Rightarrow> nat \<times> nat \<Rightarrow> nat \<times> nat" where
  "zero_run i [] current longest = longest"
| "zero_run i (s # ss) (start, len) longest =
     (if s = 0
      then (let current = (if len = 0 then i else start, Suc len)
            in zero_run (Suc i) ss current (if snd current > snd longest then current else longest))
      else zero_run (Suc i) ss (0, 0) longest)"

fun show_segments :: "16 word list \<Rightarrow> string" where
  "show_segments [] = []"
| "show_segments [s] = show_hex (unat s)"
| "show_segments (s # t # ss) = show_hex (unat s) @ '':'' @ show_segments (t # ss)"

fun show_ipv6 :: "Ipv6Addr \<Rightarrow> string" where
  "show_ipv6 (Ipv6 segments) =
     (case segments of
        [a, b, c, d, e, f, g, h] \<Rightarrow>
          (if a = 0 \<and> b = 0 \<and> c = 0 \<and> d = 0 \<and> e = 0 \<and> f = 0xffff
           then ''::ffff:'' @ show_ipv4 (Ipv4 (ucast (drop_bit 8 g)) (ucast g) (ucast (drop_bit 8 h)) (ucast h))
           else
             (case zero_run 0 segments (0, 0) (0, 0) of
                (start, len) \<Rightarrow>
                  (if 1 < len
                   then show_segments (take start segments) @ ''::'' @ show_segments (drop (start + len) segments)
                   else show_segments segments)))
      | _ \<Rightarrow> [])"

fun show_ip :: "IpAddr \<Rightarrow> string" where
  "show_ip (V4 a) = show_ipv4 a"
| "show_ip (V6 a) = show_ipv6 a"

lemma show_nat_set: "x \<in> set (show_nat n) \<Longrightarrow> is_ascii_digit x"
  using show_nat_digits [of n] by (simp add: list_all_iff)

lemma append_dot_inject:
  assumes "CHR ''.'' \<notin> set a" "CHR ''.'' \<notin> set b" "a @ CHR ''.'' # x = b @ CHR ''.'' # y"
  shows "a = b \<and> x = y"
  using split_once_Some [of "CHR ''.''" "a @ CHR ''.'' # x" a x] split_once_Some [of "CHR ''.''" "a @ CHR ''.'' # x" b y]
    assms by simp

lemma dot_not_in_show_nat: "CHR ''.'' \<notin> set (show_nat n)"
  using show_nat_set by (fastforce simp: is_ascii_digit_iff)

lemma show_ipv4_inject [simp]: "show_ipv4 x = show_ipv4 y \<longleftrightarrow> x = y"
proof
  assume eq: "show_ipv4 x = show_ipv4 y"
  obtain a b c d a' b' c' d' where xy: "x = Ipv4 a b c d" "y = Ipv4 a' b' c' d'" by (cases x, cases y)
  note inj = append_dot_inject [OF dot_not_in_show_nat dot_not_in_show_nat]
  have "show_nat (unat a) = show_nat (unat a') \<and> show_nat (unat b) = show_nat (unat b') \<and>
      show_nat (unat c) = show_nat (unat c') \<and> show_nat (unat d) = show_nat (unat d')"
    using eq unfolding xy show_ipv4.simps append.simps by (blast dest: inj)
  then have "unat a = unat a'" "unat b = unat b'" "unat c = unat c'" "unat d = unat d'" by simp_all
  then show "x = y" unfolding xy by (blast intro: unsigned_word_eqI)
qed simp

end
