(* ===== verification/Api_World.thy ===== *)
theory Api_World
  imports Store_Engine Kms Dek_Cache Pg_Targets Ip_Addr
begin

text \<open>
  \<open>error.rs\<close>, \<open>clock.rs\<close>, \<open>state.rs\<close> and \<open>dto.rs\<close>: what the request
  handlers share. A handler is a function of the world: the store, the cache of data keys, the
  connection attempts made to rotation targets, and the number of calls made so far to the
  store, the clock, the random number generator and the key management service. What those
  calls answer is given by an environment \<open>E\<close>, indexed by the number of the call;
  \<open>E\<close> also holds the configuration and the libraries for cipher, hash, base64, JSON and
  dates.

  Other requests run at the same time. They are part of the environment as well: \<open>e_others\<close>
  is what they did to the store, and \<open>e_cache_others\<close> to the cache, just before a call.
\<close>

named_theorems keep_intro

section \<open>Errors\<close>

datatype bad_request =
    NameLength
  | NameCharset
  | NameNotNormalized
  | IntervalNotPositive
  | IntervalTooLarge
  | AutomaticNeedsInterval
  | ValueEmpty
  | ValueTooLarge
  | FieldEmpty string
  | FieldTooLarge string
  | GraceNegative
  | GraceTooLarge
  | ValueAndUserpass
  | UsernameRequired
  | PasswordRequired
  | ValueRequired
  | OpaqueTakesValue
  | UserpassTakesFields
  | OnlyAutomaticRotates
  | BatchTooLarge nat
  | TargetRejected pg_error
  | RestoreTooLarge nat
  | RestoreVersion u32
  | RoleNameLength
  | InvalidAction string
  | EmptyPath
  | BuiltinRole
  | TokenNameRequired
  | NoSuchRole string
  | BodyRejected

datatype api_conflict = StoreConflict conflict | WriteConflict | TooManyVersions

datatype api_internal =
    StoreInternal internal
  | CoreFailed core_error
  | KmsFailed kms_error
  | AadMismatch
  | NonceLength
  | MalformedUserpass
  | NotUtf8
  | MissingVersionRow
  | LoginSecretNotFound string
  | NoCredential string
  | PgApplyFailed pg_error
  | RewrapBusy
  | AnyStore StoreError

datatype ApiError =
    Unauthorized
  | Forbidden
  | TooManyRequests
  | ApiNotFound
  | BadRequest bad_request
  | ApiConflict api_conflict
  | ApiInternal api_internal

definition api_status :: "ApiError \<Rightarrow> nat" where
  "api_status e =
     (case e of
        Unauthorized \<Rightarrow> 401
      | Forbidden \<Rightarrow> 403
      | TooManyRequests \<Rightarrow> 429
      | ApiNotFound \<Rightarrow> 404
      | BadRequest _ \<Rightarrow> 400
      | ApiConflict _ \<Rightarrow> 409
      | ApiInternal _ \<Rightarrow> 500)"

definition from_store_error :: "StoreError \<Rightarrow> ApiError" where
  "from_store_error err =
     (case err of
        NotFound \<Rightarrow> ApiNotFound
      | Conflict msg \<Rightarrow> ApiConflict (StoreConflict msg)
      | VersionConflict \<Rightarrow> ApiConflict WriteConflict
      | Internal e \<Rightarrow> ApiInternal (StoreInternal e))"

section \<open>Requests and responses\<close>

record CreateSecretRequest =
  cs_name :: string
  cs_kind :: SecretKind
  cs_value :: "string option"
  cs_username :: "string option"
  cs_password :: "string option"
  cs_description :: "string option"
  cs_rotation_interval_secs :: "i64 option"
  cs_grace_period_secs :: "i64 option"
  cs_target :: "RotationTarget option"

record UpdateSecretRequest =
  us_value :: "string option"
  us_username :: "string option"
  us_password :: "string option"
  us_description :: "string option"
  us_rotation_interval_secs :: "i64 option"
  us_grace_period_secs :: "i64 option"

record UserPass =
  up_username :: string
  up_password :: string

record SecretMetadata =
  md_name :: string
  md_kind :: SecretKind
  md_format :: SecretFormat
  md_description :: "string option"
  md_version :: i32
  md_rotation_interval_secs :: "i64 option"
  md_grace_period_secs :: i64
  md_next_rotation_at :: "string option"
  md_created_at :: string
  md_updated_at :: string
  md_target :: "RotationTarget option"

record SecretValue =
  sv_name :: string
  sv_kind :: SecretKind
  sv_format :: SecretFormat
  sv_version :: i32
  sv_value :: "string option"
  sv_username :: "string option"
  sv_password :: "string option"
  sv_created_at :: string

record PermissionRule =
  pr_action :: string
  pr_path :: string

record CreateRoleRequest =
  cr_name :: string
  cr_description :: "string option"
  cr_is_admin :: bool
  cr_permissions :: "PermissionRule list"

record RoleInfo =
  ri_name :: string
  ri_description :: "string option"
  ri_is_admin :: bool
  ri_permissions :: "PermissionRule list"
  ri_created_at :: string

record CreateTokenRequest =
  ct_name :: string
  ct_role :: string

record TokenCreated =
  tc_name :: string
  tc_role :: string
  tc_token :: string

record TokenInfo =
  ti_name :: string
  ti_role :: "string option"
  ti_created_at :: string
  ti_last_used_at :: "string option"
  ti_revoked_at :: "string option"

record RewrapStatusResponse =
  rs_enabled :: bool
  rs_busy :: bool
  rs_last_completed_rotation_at :: "string option"
  rs_latest_rotation_at :: "string option"
  rs_total_versions :: nat
  rs_pending_versions :: nat

record RewrapRunResponse =
  rw_scanned :: nat
  rw_rewrapped :: nat
  rw_failed :: nat
  rw_target_rotation_at :: "string option"

record VerifyResponse =
  vf_valid :: bool
  vf_version :: "i32 option"

section \<open>Environment and world\<close>

record ('b, 's) env =
  e_codec :: "'b codec"
  e_store_apply :: "'b Command \<Rightarrow> 's \<Rightarrow> unit StoreResult \<times> 's"
  e_store_restore :: "'b BackupData \<Rightarrow> 's \<Rightarrow> unit StoreResult \<times> 's"
  e_store_view :: "'s \<Rightarrow> 'b db"
  e_store_node :: "'s \<Rightarrow> u64"
  e_others :: "nat \<Rightarrow> 's \<Rightarrow> 's"
  e_cache_others :: "nat \<Rightarrow> DekCache \<Rightarrow> DekCache"
  e_kms :: kms
  e_aead :: aead
  e_system_time :: "nat \<Rightarrow> u64 option"
  e_instant :: "nat \<Rightarrow> instant"
  e_random :: "nat \<Rightarrow> nat \<Rightarrow> bytes"
  e_b64url :: "bytes \<Rightarrow> string"
  e_sha256 :: "bytes \<Rightarrow> bytes"
  e_enc_userpass :: "UserPass \<Rightarrow> bytes"
  e_dec_userpass :: "bytes \<Rightarrow> UserPass option"
  e_backup_size :: "'b BackupData \<Rightarrow> nat option"
  e_format_date :: "i64 \<Rightarrow> string option"
  e_pg_targets :: PgTargetPolicy
  e_pg :: pg_driver
  e_clustered :: bool
  e_node_id :: u64
  e_current_leader :: "nat \<Rightarrow> u64 option"
  e_auth_max_failures :: u32
  e_auth_lockout_secs :: i64
  e_auth_window_secs :: i64
  e_token_touch_secs :: i64
  e_kms_rewrap_enabled :: bool
  e_trust_proxy :: bool
  e_allowed :: "Ipv4Addr \<Rightarrow> bool"

record 's world =
  w_store :: 's
  w_cache :: DekCache
  w_calls :: nat
  w_attempts :: "pg_attempt list"
  w_rewrap_busy :: bool

type_synonym ('s, 'a) api = "'s world \<Rightarrow> (ApiError + 'a) \<times> 's world"

definition ret :: "'a \<Rightarrow> ('s, 'a) api" where
  "ret a w = (Inr a, w)"

definition raise :: "ApiError \<Rightarrow> ('s, 'a) api" where
  "raise e w = (Inl e, w)"

definition check :: "ApiError + 'a \<Rightarrow> ('s, 'a) api" where
  "check r w = (r, w)"

definition bind :: "('s, 'a) api \<Rightarrow> ('a \<Rightarrow> ('s, 'c) api) \<Rightarrow> ('s, 'c) api" where
  "bind m f w = (case m w of (Inl e, w') \<Rightarrow> (Inl e, w') | (Inr a, w') \<Rightarrow> f a w')"

text \<open>Running a step for its effect and looking at its result, also when it failed.\<close>

definition catch :: "('s, 'a) api \<Rightarrow> ('s, ApiError + 'a) api" where
  "catch m w = (case m w of (r, w') \<Rightarrow> (Inr r, w'))"

definition ignore :: "('s, 'a) api \<Rightarrow> ('s, unit) api" where
  "ignore m = bind (catch m) (\<lambda>_. ret ())"

text \<open>A call to something outside: it is numbered.\<close>

definition numbered :: "(nat \<Rightarrow> ApiError + 'a) \<Rightarrow> ('s, 'a) api" where
  "numbered f w = (f (w_calls w), w\<lparr>w_calls := Suc (w_calls w)\<rparr>)"

definition sync :: "('b, 's) env \<Rightarrow> 's world \<Rightarrow> 's world" where
  "sync E w = w\<lparr>w_store := e_others E (w_calls w) (w_store w), w_calls := Suc (w_calls w)\<rparr>"

definition read_with ::
  "(StoreError \<Rightarrow> ApiError) \<Rightarrow> ('b, 's) env \<Rightarrow> ('b codec \<Rightarrow> 'b db \<Rightarrow> 'r StoreResult) \<Rightarrow> ('s, 'r) api" where
  "read_with conv E reader w =
     (let w1 = sync E w in
      ((case reader (e_codec E) (e_store_view E (w_store w1)) of Inl e \<Rightarrow> Inl (conv e) | Inr r \<Rightarrow> Inr r), w1))"

definition write_with ::
  "(StoreError \<Rightarrow> ApiError) \<Rightarrow> ('b, 's) env \<Rightarrow> 'b Command \<Rightarrow> ('s, unit) api" where
  "write_with conv E command w =
     (let w1 = sync E w in
      case e_store_apply E command (w_store w1) of
        (res, st) \<Rightarrow> ((case res of Inl e \<Rightarrow> Inl (conv e) | Inr _ \<Rightarrow> Inr ()), w1\<lparr>w_store := st\<rparr>))"

definition restore_with :: "('b, 's) env \<Rightarrow> 'b BackupData \<Rightarrow> ('s, unit) api" where
  "restore_with E data w =
     (let w1 = sync E w in
      case e_store_restore E data (w_store w1) of
        (res, st) \<Rightarrow> ((case res of Inl e \<Rightarrow> Inl (from_store_error e) | Inr _ \<Rightarrow> Inr ()), w1\<lparr>w_store := st\<rparr>))"

abbreviation read_store :: "('b, 's) env \<Rightarrow> ('b codec \<Rightarrow> 'b db \<Rightarrow> 'r StoreResult) \<Rightarrow> ('s, 'r) api" where
  "read_store \<equiv> read_with from_store_error"

abbreviation write_store :: "('b, 's) env \<Rightarrow> 'b Command \<Rightarrow> ('s, unit) api" where
  "write_store \<equiv> write_with from_store_error"

definition now_unix :: "('b, 's) env \<Rightarrow> ('s, i64) api" where
  "now_unix E = numbered (\<lambda>n. Inr (case e_system_time E n of Some secs \<Rightarrow> sint secs | None \<Rightarrow> 0))"

definition rfc3339 :: "('b, 's) env \<Rightarrow> i64 \<Rightarrow> string" where
  "rfc3339 E unix_secs = unwrap_or [] (e_format_date E unix_secs)"

definition rfc3339_opt :: "('b, 's) env \<Rightarrow> i64 option \<Rightarrow> string option" where
  "rfc3339_opt E unix_secs = map_option (rfc3339 E) unix_secs"

definition TOKEN_BYTES :: nat where "TOKEN_BYTES = 32"

definition generate_token :: "('b, 's) env \<Rightarrow> ('s, string) api" where
  "generate_token E = numbered (\<lambda>n. Inr (e_b64url E (e_random E n TOKEN_BYTES)))"

definition generate_nonce :: "('b, 's) env \<Rightarrow> ('s, bytes) api" where
  "generate_nonce E = numbered (\<lambda>n. Inr (e_random E n NONCE_LEN))"

definition kms_call :: "(nat \<Rightarrow> kms_error + 'a) \<Rightarrow> ('s, 'a) api" where
  "kms_call call = numbered (\<lambda>n. case call n of Inl e \<Rightarrow> Inl (ApiInternal (KmsFailed e)) | Inr a \<Rightarrow> Inr a)"

definition from_core_error :: "core_error + 'a \<Rightarrow> ApiError + 'a" where
  "from_core_error r = (case r of Inl e \<Rightarrow> Inl (ApiInternal (CoreFailed e)) | Inr a \<Rightarrow> Inr a)"

definition cache_lookup :: "('b, 's) env \<Rightarrow> bytes \<Rightarrow> ('s, bytes option) api" where
  "cache_lookup E wrapped w =
     (case cache_get (e_instant E (w_calls w)) wrapped (e_cache_others E (w_calls w) (w_cache w)) of
        (hit, c) \<Rightarrow> (Inr hit, w\<lparr>w_cache := c, w_calls := Suc (w_calls w)\<rparr>))"

definition cache_store :: "('b, 's) env \<Rightarrow> bytes \<Rightarrow> bytes \<Rightarrow> ('s, unit) api" where
  "cache_store E wrapped dek w =
     (Inr (), w\<lparr>w_cache := cache_put (e_instant E (w_calls w)) wrapped dek (e_cache_others E (w_calls w) (w_cache w)),
                w_calls := Suc (w_calls w)\<rparr>)"

definition pg_apply ::
  "('b, 's) env \<Rightarrow> PgRoleTarget \<Rightarrow> string \<Rightarrow> string \<Rightarrow> string \<Rightarrow> string \<Rightarrow> ('s, pg_error + unit) api" where
  "pg_apply E target user password role new_password w =
     (case apply_password (e_pg E) (length (w_attempts w)) (e_pg_targets E) target user password role new_password of
        (res, attempts) \<Rightarrow> (Inr res, w\<lparr>w_attempts := w_attempts w @ attempts\<rparr>))"

definition audit ::
  "('b, 's) env \<Rightarrow> string option \<Rightarrow> Ipv4Addr option \<Rightarrow> string \<Rightarrow> string option \<Rightarrow> string \<Rightarrow> ('s, unit) api" where
  "audit E actor client_ip action secret_name outcome =
     bind (now_unix E) (\<lambda>now.
       ignore (write_store E (AppendAudit
         \<lparr>ae_at = now, ae_actor = actor, ae_client_ip = map_option show_ipv4 client_ip, ae_action = action,
          ae_secret_name = secret_name, ae_outcome = outcome, ae_node_id = 0\<rparr>)))"

section \<open>Rules for running a handler\<close>

lemma bind_Inr:
  "bind m f w = (Inr c, w2) \<longleftrightarrow> (\<exists>a w1. m w = (Inr a, w1) \<and> f a w1 = (Inr c, w2))"
  by (auto simp: bind_def split: prod.split sum.split)

lemma bind_Inl:
  "bind m f w = (Inl e, w2) \<longleftrightarrow>
     m w = (Inl e, w2) \<or> (\<exists>a w1. m w = (Inr a, w1) \<and> f a w1 = (Inl e, w2))"
  by (auto simp: bind_def split: prod.split sum.split)

lemma bind_run: "m w = (Inr a, w1) \<Longrightarrow> bind m f w = f a w1"
  by (simp add: bind_def)

lemma run_simps [simp]:
  "ret a w = (Inr a, w)" "raise e w = (Inl e, w)" "check r w = (r, w)"
  by (simp_all add: ret_def raise_def check_def)

lemma sync_simps [simp]:
  "w_store (sync E w) = e_others E (w_calls w) (w_store w)" "w_cache (sync E w) = w_cache w"
  "w_calls (sync E w) = Suc (w_calls w)" "w_attempts (sync E w) = w_attempts w"
  "w_rewrap_busy (sync E w) = w_rewrap_busy w"
  by (simp_all add: sync_def)

lemma read_with_Inr:
  "read_with conv E reader w = (Inr r, w') \<longleftrightarrow>
     w' = sync E w \<and> reader (e_codec E) (e_store_view E (w_store w')) = Inr r"
  by (auto simp: read_with_def Let_def split: sum.splits)

lemma write_with_Inr:
  "write_with conv E c w = (Inr u, w') \<longleftrightarrow>
     (\<exists>st. e_store_apply E c (w_store (sync E w)) = (Inr (), st) \<and> w' = (sync E w)\<lparr>w_store := st\<rparr>)"
  by (auto simp: write_with_def Let_def split: prod.splits sum.splits)

lemma numbered_Inr:
  "numbered f w = (Inr a, w') \<longleftrightarrow> f (w_calls w) = Inr a \<and> w' = w\<lparr>w_calls := Suc (w_calls w)\<rparr>"
  by (auto simp: numbered_def)

lemma kms_call_Inr:
  "kms_call call w = (Inr a, w') \<longleftrightarrow> call (w_calls w) = Inr a \<and> w' = w\<lparr>w_calls := Suc (w_calls w)\<rparr>"
  by (auto simp: kms_call_def numbered_def split: sum.splits)

lemma from_core_error_Inr [simp]: "from_core_error r = Inr a \<longleftrightarrow> r = Inr a"
  by (simp add: from_core_error_def split: sum.split)

lemma ignore_run: "ignore m w = (Inr (), snd (m w))"
  by (simp add: ignore_def bind_def catch_def split: prod.split)

lemma audit_run:
  "\<exists>entry n. audit E actor ip action name outcome w =
     (Inr (), snd (write_store E (AppendAudit entry) (w\<lparr>w_calls := n\<rparr>)))"
  by (auto simp: audit_def bind_def now_unix_def numbered_def ignore_run)

section \<open>Invariants of handlers\<close>

text \<open>
  A handler keeps \<open>I\<close> with results in \<open>Q\<close> if it leads from worlds in \<open>I\<close> to
  worlds in \<open>I\<close>, also when it fails, and a result satisfies \<open>Q\<close>.
\<close>

definition keeps :: "('s world \<Rightarrow> bool) \<Rightarrow> ('s, 'a) api \<Rightarrow> ('a \<Rightarrow> bool) \<Rightarrow> bool" where
  "keeps I m Q \<longleftrightarrow> (\<forall>w. I w \<longrightarrow> I (snd (m w)) \<and> (\<forall>a. fst (m w) = Inr a \<longrightarrow> Q a))"

abbreviation keep :: "('s world \<Rightarrow> bool) \<Rightarrow> ('s, 'a) api \<Rightarrow> bool" where
  "keep I m \<equiv> keeps I m (\<lambda>_. True)"

lemma keepsD: "keeps I m Q \<Longrightarrow> I w \<Longrightarrow> I (snd (m w))"
  by (simp add: keeps_def)

lemma keeps_bind:
  assumes "keeps I m Q" "\<And>a. Q a \<Longrightarrow> keeps I (f a) R"
  shows "keeps I (bind m f) R"
  unfolding keeps_def
proof (intro allI impI)
  fix w
  assume "I w"
  with assms(1) have m: "I (snd (m w))" "\<And>a. fst (m w) = Inr a \<Longrightarrow> Q a" by (auto simp: keeps_def)
  obtain r w1 where r: "m w = (r, w1)" by (cases "m w")
  show "I (snd (bind m f w)) \<and> (\<forall>a. fst (bind m f w) = Inr a \<longrightarrow> R a)"
  proof (cases r)
    case (Inl e)
    then show ?thesis using m r by (simp add: bind_def)
  next
    case (Inr a)
    then show ?thesis using m r assms(2) [of a] by (simp add: bind_def keeps_def)
  qed
qed

lemma keep_bind [keep_intro]:
  assumes "keep I m" "\<And>a. keeps I (f a) R"
  shows "keeps I (bind m f) R"
  using assms(1) by (rule keeps_bind) (rule assms(2))

lemma keeps_ret [keep_intro]: "Q a \<Longrightarrow> keeps I (ret a) Q"
  by (simp add: keeps_def)

lemma keeps_raise [keep_intro]: "keeps I (raise e) Q"
  by (simp add: keeps_def)

lemma keep_check [keep_intro]: "keep I (check r)"
  by (simp add: keeps_def)

lemma keep_ignore [keep_intro]: "keep I m \<Longrightarrow> keep I (ignore m)"
  by (simp add: keeps_def ignore_run)

lemma keep_catch [keep_intro]: "keep I m \<Longrightarrow> keep I (catch m)"
  by (auto simp: keeps_def catch_def split: prod.split)

lemma keeps_weaken: "keeps I m Q \<Longrightarrow> (\<And>a. Q a \<Longrightarrow> R a) \<Longrightarrow> keeps I m R"
  by (simp add: keeps_def)

lemma keeps_if [keep_intro]:
  "(b \<Longrightarrow> keeps I m Q) \<Longrightarrow> (\<not> b \<Longrightarrow> keeps I m' Q) \<Longrightarrow> keeps I (if b then m else m') Q"
  by simp

lemma keeps_case_option [keep_intro]:
  "(x = None \<Longrightarrow> keeps I m Q) \<Longrightarrow> (\<And>a. x = Some a \<Longrightarrow> keeps I (f a) Q) \<Longrightarrow>
   keeps I (case x of None \<Rightarrow> m | Some a \<Rightarrow> f a) Q"
  by (simp split: option.split)

lemma keeps_case_sum [keep_intro]:
  "(\<And>e. x = Inl e \<Longrightarrow> keeps I (g e) Q) \<Longrightarrow> (\<And>a. x = Inr a \<Longrightarrow> keeps I (f a) Q) \<Longrightarrow>
   keeps I (case x of Inl e \<Rightarrow> g e | Inr a \<Rightarrow> f a) Q"
  by (simp split: sum.split)

lemma keeps_case_prod [keep_intro]:
  "(\<And>a b. x = (a, b) \<Longrightarrow> keeps I (f a b) Q) \<Longrightarrow> keeps I (case x of (a, b) \<Rightarrow> f a b) Q"
  by (simp split: prod.split)

lemma keeps_case_format [keep_intro]:
  "(x = Opaque \<Longrightarrow> keeps I m Q) \<Longrightarrow> (x = Userpass \<Longrightarrow> keeps I m' Q) \<Longrightarrow>
   keeps I (case x of Opaque \<Rightarrow> m | Userpass \<Rightarrow> m') Q"
  by (simp split: SecretFormat.split)

lemma keeps_case_kind [keep_intro]:
  "(x = Manual \<Longrightarrow> keeps I m Q) \<Longrightarrow> (x = Automatic \<Longrightarrow> keeps I m' Q) \<Longrightarrow>
   keeps I (case x of Manual \<Rightarrow> m | Automatic \<Rightarrow> m') Q"
  by (simp split: SecretKind.split)

lemma keeps_case_target [keep_intro]:
  "(\<And>pg. x = PgReplica pg \<Longrightarrow> keeps I (f pg) Q) \<Longrightarrow> keeps I (case x of PgReplica pg \<Rightarrow> f pg) Q"
  by (simp split: RotationTarget.split)

lemma keeps_let [keep_intro]: "keeps I (f a) Q \<Longrightarrow> keeps I (let x = a in f x) Q"
  by simp

text \<open>
  What an invariant has to survive. In \<open>api_core\<close>: other requests, a call, a cache lookup,
  caching the result of a decryption, and the commands in \<open>C\<close>, which include the
  bookkeeping ones that any request may issue. In \<open>api_writer\<close> also every admissible
  command; in \<open>api_target\<close> also contacting a rotation target. In \<open>api_invariant\<close>
  all of these, marking a re-wrap pass as running, and a restore.
\<close>

definition bookkeeping :: "'b Command \<Rightarrow> bool" where
  "bookkeeping c =
     (case c of
        AppendAudit _ \<Rightarrow> True
      | TouchToken _ _ \<Rightarrow> True
      | RecordAuthFailure _ _ _ _ _ \<Rightarrow> True
      | _ \<Rightarrow> False)"

locale api_core =
  fixes E :: "('b, 's) env" and I :: "'s world \<Rightarrow> bool" and C :: "'b Command \<Rightarrow> bool"
  assumes on_sync: "I w \<Longrightarrow> I (sync E w)"
    and on_call: "I w \<Longrightarrow> I (w\<lparr>w_calls := n\<rparr>)"
    and on_lookup: "I w \<Longrightarrow> I (snd (cache_lookup E wrapped w))"
    and on_cache: "I w \<Longrightarrow> km_decrypt_data_key (e_kms E) n wrapped kid ctx = Inr dek \<Longrightarrow>
                   I (snd (cache_store E wrapped dek w))"
    and on_write: "I w \<Longrightarrow> C c \<Longrightarrow> I (w\<lparr>w_store := snd (e_store_apply E c (w_store w))\<rparr>)"
    and bookkeeping_C: "bookkeeping c \<Longrightarrow> C c"
begin

lemma keeps_numbered: "(\<And>n a. f n = Inr a \<Longrightarrow> Q a) \<Longrightarrow> keeps I (numbered f) Q"
  by (simp add: keeps_def numbered_def on_call)

lemma keeps_read: "(\<And>d r. reader (e_codec E) d = Inr r \<Longrightarrow> Q r) \<Longrightarrow> keeps I (read_with conv E reader) Q"
  by (auto simp: keeps_def read_with_def Let_def on_sync split: sum.splits)

lemma keep_read [keep_intro]: "keep I (read_with conv E reader)"
  by (rule keeps_read) simp

lemma keep_write: "C c \<Longrightarrow> keep I (write_with conv E c)"
  using on_write on_sync by (force simp: keeps_def write_with_def Let_def split: prod.splits)

lemma keep_bookkeeping: "bookkeeping c \<Longrightarrow> keep I (write_with conv E c)"
  by (intro keep_write bookkeeping_C)

lemma keep_now_unix [keep_intro]: "keep I (now_unix E)"
  by (simp add: now_unix_def keeps_numbered)

lemma keep_generate_token [keep_intro]: "keep I (generate_token E)"
  by (simp add: generate_token_def keeps_numbered)

lemma keep_generate_nonce [keep_intro]: "keep I (generate_nonce E)"
  by (simp add: generate_nonce_def keeps_numbered)

lemma keeps_kms_call: "(\<And>n a. call n = Inr a \<Longrightarrow> Q a) \<Longrightarrow> keeps I (kms_call call) Q"
  unfolding kms_call_def by (rule keeps_numbered) (auto split: sum.splits)

lemma keep_kms_call [keep_intro]: "keep I (kms_call call)"
  by (rule keeps_kms_call) simp

lemma keep_cache_lookup [keep_intro]: "keep I (cache_lookup E wrapped)"
  by (simp add: keeps_def on_lookup)

lemma keep_cache_store:
  "km_decrypt_data_key (e_kms E) n wrapped kid ctx = Inr dek \<Longrightarrow> keep I (cache_store E wrapped dek)"
  by (simp add: keeps_def on_cache)

lemma keep_audit [keep_intro]: "keep I (audit E actor ip action name outcome)"
  unfolding audit_def
  by (intro keep_intro keep_bookkeeping) (simp add: bookkeeping_def)

end

locale api_writer = api_core +
  assumes admissible_C: "command_ok (e_codec E) c \<Longrightarrow> C c"
begin

lemma keep_admissible: "command_ok (e_codec E) c \<Longrightarrow> keep I (write_with conv E c)"
  by (intro keep_write admissible_C)

end

locale api_target = api_core +
  assumes on_pg: "I w \<Longrightarrow> I (snd (pg_apply E pg user pw role new w))"
begin

lemma keep_pg_apply [keep_intro]: "keep I (pg_apply E pg user pw role new)"
  by (simp add: keeps_def on_pg)

end

locale api_invariant = api_writer E I C + api_target E I C
  for E :: "('b, 's) env" and I :: "'s world \<Rightarrow> bool" and C :: "'b Command \<Rightarrow> bool" +
  assumes on_busy: "I w \<Longrightarrow> I (w\<lparr>w_rewrap_busy := b\<rparr>)"
    and on_restore: "I w \<Longrightarrow> C (RestoreDatabase data) \<Longrightarrow>
                     I (w\<lparr>w_store := snd (e_store_restore E data (w_store w))\<rparr>)"
begin

lemma keep_restore_with:
  "C (RestoreDatabase data) \<Longrightarrow> keep I (restore_with E data)"
  using on_restore on_sync by (force simp: keeps_def restore_with_def Let_def split: prod.splits)

end

end
