(* ===== verification/Lockout.thy ===== *)
theory Lockout
  imports Api_World
begin

text \<open>
  \<open>lockout.rs\<close>: failed attempts are counted in the store, per client address for secret
  reads and token authentication, and per client address and secret for \<open>verify\<close>.
\<close>

definition verify_key :: "IpAddr \<Rightarrow> string \<Rightarrow> string" where
  "verify_key peer secret = ''verify:'' @ show_ip peer @ '':'' @ secret"

definition check_key :: "('b, 's) env \<Rightarrow> string \<Rightarrow> ('s, unit) api" where
  "check_key E key =
     (if e_auth_max_failures E = 0 then ret ()
      else
        bind (read_store E (\<lambda>cd. reader_lockout cd key)) (\<lambda>record.
          case record of
            None \<Rightarrow> ret ()
          | Some r \<Rightarrow>
              (case lr_locked_until r of
                 None \<Rightarrow> ret ()
               | Some until \<Rightarrow>
                   bind (now_unix E) (\<lambda>now. if until > now then raise TooManyRequests else ret ()))))"

definition record_key :: "('b, 's) env \<Rightarrow> string \<Rightarrow> ('s, unit) api" where
  "record_key E key =
     (if e_auth_max_failures E = 0 then ret ()
      else
        bind (now_unix E) (\<lambda>now.
          ignore (write_store E (RecordAuthFailure key now (e_auth_max_failures E)
            (e_auth_window_secs E) (e_auth_lockout_secs E)))))"

definition check_ip :: "('b, 's) env \<Rightarrow> IpAddr \<Rightarrow> ('s, unit) api" where
  "check_ip E ip = check_key E (show_ip ip)"

definition lockout_check :: "('b, 's) env \<Rightarrow> IpAddr option \<Rightarrow> ('s, unit) api" where
  "lockout_check E ip =
     (if e_auth_max_failures E = 0 then ret ()
      else case ip of Some ip \<Rightarrow> check_ip E ip | None \<Rightarrow> ret ())"

definition lockout_record :: "('b, 's) env \<Rightarrow> IpAddr option \<Rightarrow> ('s, unit) api" where
  "lockout_record E ip = (case ip of None \<Rightarrow> ret () | Some ip \<Rightarrow> record_key E (show_ip ip))"

definition check_verify :: "('b, 's) env \<Rightarrow> IpAddr \<Rightarrow> string \<Rightarrow> ('s, unit) api" where
  "check_verify E peer secret = check_key E (verify_key peer secret)"

definition record_verify :: "('b, 's) env \<Rightarrow> IpAddr \<Rightarrow> string \<Rightarrow> ('s, unit) api" where
  "record_verify E peer secret = record_key E (verify_key peer secret)"

section \<open>What they do\<close>

context api_core begin

lemma keep_check_key: "keep I (check_key E key)"
  unfolding check_key_def by (intro keep_intro) simp_all

lemma keep_record_key: "keep I (record_key E key)"
  unfolding record_key_def by (intro keep_intro keep_bookkeeping) (simp_all add: bookkeeping_def)

lemma keep_lockout [keep_intro]:
  "keep I (check_ip E ip)" "keep I (lockout_check E ip')" "keep I (lockout_record E ip')"
  "keep I (check_verify E ip name)" "keep I (record_verify E ip name)"
  unfolding check_ip_def lockout_check_def lockout_record_def check_verify_def record_verify_def
  by (intro keep_intro keep_check_key keep_record_key; simp)+

end

section \<open>Keys\<close>

lemma no_v_in_show_hex: "CHR ''v'' \<notin> set (show_hex n)"
proof (induction n rule: show_hex.induct)
  case (1 n)
  have d: "hex_digit m \<noteq> CHR ''v''" if "m < 16" for m
  proof
    assume "hex_digit m = CHR ''v''"
    then have "of_char (hex_digit m) = (118 :: nat)" by simp
    with that show False by (auto simp: hex_digit_def split: if_splits)
  qed
  show ?case using 1 d [of n] d [of "n mod 16"] by (auto simp: show_hex.simps [of n])
qed

lemma no_v_in_show_segments: "CHR ''v'' \<notin> set (show_segments ss)"
  by (induction ss rule: show_segments.induct) (auto simp: no_v_in_show_hex)

lemma no_v_in_show_ipv4: "CHR ''v'' \<notin> set (show_ipv4 a)"
  using show_nat_set [of "CHR ''v''"] by (cases a) (auto simp: is_ascii_digit_iff)

lemma no_v_in_show_ip: "CHR ''v'' \<notin> set (show_ip ip)"
proof (cases ip)
  case (V6 a)
  obtain ss where "a = Ipv6 ss" by (cases a)
  with V6 show ?thesis
    by (auto simp: no_v_in_show_segments no_v_in_show_ipv4 simp del: zero_run.simps show_segments.simps show_ipv4.simps
        split: list.splits prod.splits)
qed (simp add: no_v_in_show_ipv4)

text \<open>
  The counters of \<open>verify\<close> never mix. Two valid secret names and two client addresses
  share a counter only if the names are equal and the addresses print alike, so a wrong value
  presented for one secret never locks another one; and no counter of \<open>verify\<close> is the
  counter of an address, so such a value never blocks reads or authentication.
\<close>

theorem lockout_keys_separate:
  assumes "is_valid_secret_name name" "is_valid_secret_name name'"
  shows "(verify_key peer name = verify_key peer' name' \<longleftrightarrow> show_ip peer = show_ip peer' \<and> name = name') \<and>
         verify_key peer name \<noteq> show_ip peer'"
proof -
  have colon: "CHR '':'' \<notin> set n" if "is_valid_secret_name n" for n
    using that by (auto simp: is_valid_secret_name_def secret_name_char_def is_ascii_alphanumeric_def list_all_iff)
  have "rsplit_once (CHR '':'') (show_ip p @ CHR '':'' # n) = Some (show_ip p, n)" if "is_valid_secret_name n" for p n
    using colon [OF that] by (simp add: rsplit_once_Some)
  then have "verify_key peer name = verify_key peer' name' \<longleftrightarrow> show_ip peer = show_ip peer' \<and> name = name'"
    using assms by (auto simp: verify_key_def) (metis option.inject prod.inject)+
  moreover have "CHR ''v'' \<in> set (verify_key peer name)" by (simp add: verify_key_def)
  then have "verify_key peer name \<noteq> show_ip peer'" using no_v_in_show_ip by metis
  ultimately show ?thesis by simp
qed

theorem lockout_keys_separate_witness:
  "verify_key (V4 (Ipv4 10 0 0 5)) ''db/password'' \<noteq> verify_key (V4 (Ipv4 10 0 0 5)) ''db/other''"
proof -
  have "is_valid_secret_name ''db/password''" "is_valid_secret_name ''db/other''" by code_simp+
  from lockout_keys_separate [OF this] show ?thesis by blast
qed

end
