(* ===== verification/Ip_Parse.thy ===== *)
theory Ip_Parse
  imports Ip_Addr Core_Crypto
begin

text \<open>
  Reading IP addresses, as the standard library does in \<open>FromStr\<close> of \<open>Ipv4Addr\<close> and
  \<open>IpAddr\<close>, and the allow list of \<open>hyperion-vault-core/src/ip_allowlist.rs\<close>. A
  reader returns the value read and the rest of the input, or None with nothing consumed.
\<close>

section \<open>The parser of the standard library\<close>

definition to_digit :: "nat \<Rightarrow> char \<Rightarrow> nat option" where
  "to_digit radix c =
     (let n = of_char c :: nat;
          v = (if 48 \<le> n \<and> n \<le> 57 then n - 48
               else if 97 \<le> n \<and> n \<le> 122 then n - 87
               else if 65 \<le> n \<and> n \<le> 90 then n - 55
               else 255)
      in if v < radix then Some v else None)"

definition read_number :: "nat \<Rightarrow> nat \<Rightarrow> bool \<Rightarrow> nat \<Rightarrow> string \<Rightarrow> (nat \<times> string) option" where
  "read_number radix max_digits allow_zero_prefix limit s =
     (let ds = takeWhile (\<lambda>c. to_digit radix c \<noteq> None) s;
          n = foldl (\<lambda>acc c. radix * acc + the (to_digit radix c)) 0 ds
      in if ds = [] \<or> length ds > max_digits then None
         else if \<not> allow_zero_prefix \<and> hd ds = CHR ''0'' \<and> length ds > 1 then None
         else if n > limit then None
         else Some (n, drop (length ds) s))"

definition read_separator :: "char \<Rightarrow> nat \<Rightarrow> (string \<Rightarrow> ('a \<times> string) option) \<Rightarrow> string \<Rightarrow> ('a \<times> string) option" where
  "read_separator sep index inner s =
     (if index = 0 then inner s
      else (case s of c # rest \<Rightarrow> (if c = sep then inner rest else None) | [] \<Rightarrow> None))"

definition read_octet :: "nat \<Rightarrow> string \<Rightarrow> (nat \<times> string) option" where
  "read_octet i = read_separator (CHR ''.'') i (read_number 10 3 False 255)"

definition read_ipv4 :: "string \<Rightarrow> (Ipv4Addr \<times> string) option" where
  "read_ipv4 s =
     (case read_octet 0 s of None \<Rightarrow> None | Some (a, s) \<Rightarrow>
     (case read_octet 1 s of None \<Rightarrow> None | Some (b, s) \<Rightarrow>
     (case read_octet 2 s of None \<Rightarrow> None | Some (c, s) \<Rightarrow>
     (case read_octet 3 s of None \<Rightarrow> None | Some (d, s) \<Rightarrow>
        Some (Ipv4 (of_nat a) (of_nat b) (of_nat c) (of_nat d), s)))))"

definition segment_of :: "u8 \<Rightarrow> u8 \<Rightarrow> 16 word" where
  "segment_of hi lo = of_nat (256 * unat hi + unat lo)"

text \<open>The groups read, whether the last two came from an embedded IPv4 address, and the rest.\<close>

function read_groups :: "nat \<Rightarrow> 16 word list \<Rightarrow> string \<Rightarrow> 16 word list \<times> bool \<times> string" where
  "read_groups limit groups s =
     (let i = length groups in
      if i \<ge> limit then (groups, False, s)
      else
        (case (if i < limit - 1 then read_separator (CHR '':'') i read_ipv4 s else None) of
           Some (Ipv4 a b c d, rest) \<Rightarrow> (groups @ [segment_of a b, segment_of c d], True, rest)
         | None \<Rightarrow>
             (case read_separator (CHR '':'') i (read_number 16 4 True 65535) s of
                Some (g, rest) \<Rightarrow> read_groups limit (groups @ [of_nat g]) rest
              | None \<Rightarrow> (groups, False, s))))"
  by pat_completeness auto
termination by (relation "measure (\<lambda>(limit, groups, _). limit - length groups)") auto

declare read_groups.simps [simp del]

definition read_ipv6 :: "string \<Rightarrow> (Ipv6Addr \<times> string) option" where
  "read_ipv6 s =
     (case read_groups 8 [] s of
        (head, head_ipv4, rest) \<Rightarrow>
          (if length head = 8 then Some (Ipv6 head, rest)
           else if head_ipv4 then None
           else
             (case rest of
                c1 # c2 # rest' \<Rightarrow>
                  (if c1 = CHR '':'' \<and> c2 = CHR '':''
                   then
                     (case read_groups (8 - (length head + 1)) [] rest' of
                        (tail, _, rest'') \<Rightarrow>
                          Some (Ipv6 (head @ replicate (8 - length head - length tail) 0 @ tail), rest''))
                   else None)
              | _ \<Rightarrow> None)))"

definition parse_all :: "(string \<Rightarrow> ('a \<times> string) option) \<Rightarrow> string \<Rightarrow> 'a option" where
  "parse_all rd s = (case rd s of Some (a, []) \<Rightarrow> Some a | _ \<Rightarrow> None)"

definition ipv4_from_str :: "string \<Rightarrow> Ipv4Addr option" where
  "ipv4_from_str s = (if length s > 15 then None else parse_all read_ipv4 s)"

definition ip_from_str :: "string \<Rightarrow> IpAddr option" where
  "ip_from_str s =
     parse_all (\<lambda>s. case read_ipv4 s of
                      Some (a, rest) \<Rightarrow> Some (V4 a, rest)
                    | None \<Rightarrow> (case read_ipv6 s of Some (a, rest) \<Rightarrow> Some (V6 a, rest) | None \<Rightarrow> None)) s"

section \<open>The allow list\<close>

text \<open>The crate \<open>ipnet\<close>: reading a network, the network of an address and a prefix
  length, and membership.\<close>

record 'n ipnet =
  net_from_str :: "string \<Rightarrow> 'n option"
  net_new :: "Ipv4Addr \<Rightarrow> nat \<Rightarrow> 'n option"
  net_contains :: "'n \<Rightarrow> Ipv4Addr \<Rightarrow> bool"

definition parse_net :: "'n ipnet \<Rightarrow> string \<Rightarrow> core_error + 'n" where
  "parse_net N token =
     (if CHR ''/'' \<in> set token then ok_or (InvalidAllowlist token) (net_from_str N token)
      else
        (case ipv4_from_str token of
           None \<Rightarrow> Inl (InvalidAllowlist token)
         | Some addr \<Rightarrow> ok_or (InvalidAllowlist token) (net_new N addr 32)))"

fun parse_nets :: "'n ipnet \<Rightarrow> string list \<Rightarrow> 'n list \<Rightarrow> core_error + 'n list" where
  "parse_nets N [] nets = Inr nets"
| "parse_nets N (raw # raws) nets =
     (let token = trim raw in
      if token = [] then parse_nets N raws nets
      else
        (case parse_net N token of
           Inl e \<Rightarrow> Inl e
         | Inr net \<Rightarrow> parse_nets N raws (nets @ [net])))"

definition allowlist_parse :: "'n ipnet \<Rightarrow> string \<Rightarrow> core_error + 'n list" where
  "allowlist_parse N spec = parse_nets N (split_on (CHR '','') spec) []"

definition allowlist_is_empty :: "'n list \<Rightarrow> bool" where
  "allowlist_is_empty nets \<longleftrightarrow> nets = []"

definition allowlist_len :: "'n list \<Rightarrow> nat" where
  "allowlist_len nets = length nets"

definition allowlist_contains :: "'n ipnet \<Rightarrow> 'n list \<Rightarrow> Ipv4Addr \<Rightarrow> bool" where
  "allowlist_contains N nets ip = list_ex (\<lambda>net. net_contains N net ip) nets"

section \<open>Reading and printing IPv4 addresses\<close>

lemma to_digit_10: "to_digit 10 c = (if is_ascii_digit c then Some (digit_val c) else None)"
  by (auto simp: to_digit_def is_ascii_digit_iff digit_val_def Let_def)

lemma show_digits_val:
  assumes "ds \<noteq> []" "list_all is_ascii_digit ds" "length ds = 1 \<or> hd ds \<noteq> CHR ''0''"
  shows "show_nat (digits_val ds) = ds"
  using assms
proof (induction ds rule: rev_induct)
  case (snoc c ds)
  have c: "is_ascii_digit c" "digit_val c < 10" "digit_char (digit_val c) = c"
    using snoc.prems(2) digit_val_bound [of c] digit_val_eq_iff [of "digit_char (digit_val c)" c] by auto
  show ?case
  proof (cases "ds = []")
    case True
    then show ?thesis using c digits_val_snoc [of "[]" c] by (simp add: show_nat.simps [of "digit_val c"])
  next
    case False
    then have hd: "hd ds \<noteq> CHR ''0''" using snoc.prems(3) by simp
    then have "show_nat (digits_val ds) = ds" using snoc False by simp
    moreover have "digits_val ds \<noteq> 0"
      using hd False snoc.prems(2) digit_val_eq_iff [of "hd ds" "CHR ''0''"]
      by (cases ds) (auto simp: digits_val_Cons digit_val_def)
    ultimately show ?thesis using c by (simp add: show_nat.simps [of "10 * digits_val ds + digit_val c"])
  qed
qed simp

lemma show_nat_hd: "0 < n \<Longrightarrow> hd (show_nat n) \<noteq> CHR ''0''"
proof (induction n rule: show_nat.induct)
  case (1 n)
  have "digit_char d \<noteq> CHR ''0''" if "0 < d" "d < 10" for d
    using that digit_val_digit_char [of d] by (auto simp: digit_val_def)
  with 1 show ?case by (simp add: show_nat.simps [of n])
qed

definition octet_ends :: "string \<Rightarrow> bool" where
  "octet_ends rest \<longleftrightarrow> rest = [] \<or> \<not> is_ascii_digit (hd rest)"

lemma decimal_value:
  "list_all is_ascii_digit ds \<Longrightarrow> foldl (\<lambda>acc c. 10 * acc + the (to_digit 10 c)) 0 ds = digits_val ds"
proof -
  have "foldl (\<lambda>acc c. 10 * acc + the (to_digit 10 c)) a ds = foldl (\<lambda>acc c. 10 * acc + digit_val c) a ds"
    if "list_all is_ascii_digit ds" for a
    using that by (induction ds arbitrary: a) (auto simp: to_digit_10)
  then show "list_all is_ascii_digit ds \<Longrightarrow> ?thesis" by (simp add: digits_val_def)
qed

lemma read_number_octet:
  "read_number 10 3 False 255 s = Some (n, rest) \<longleftrightarrow> s = show_nat n @ rest \<and> n \<le> 255 \<and> octet_ends rest"
proof -
  let ?ds = "takeWhile is_ascii_digit s"
  have digits: "list_all is_ascii_digit ?ds" by (auto simp: list_all_iff dest: set_takeWhileD)
  have tw: "takeWhile (\<lambda>c. to_digit 10 c \<noteq> None) s = ?ds" by (simp add: to_digit_10)
  note val = decimal_value [OF digits]
  have num: "read_number 10 3 False 255 s = Some (n, rest) \<longleftrightarrow>
      ?ds \<noteq> [] \<and> length ?ds \<le> 3 \<and> (length ?ds = 1 \<or> hd ?ds \<noteq> CHR ''0'') \<and> digits_val ?ds \<le> 255 \<and>
      n = digits_val ?ds \<and> rest = drop (length ?ds) s"
    unfolding read_number_def Let_def tw val by (cases ?ds) auto
  show ?thesis
  proof
    assume "read_number 10 3 False 255 s = Some (n, rest)"
    then have r: "?ds \<noteq> []" "length ?ds = 1 \<or> hd ?ds \<noteq> CHR ''0''" "n = digits_val ?ds" "n \<le> 255"
      "rest = drop (length ?ds) s"
      using num by auto
    then have "s = show_nat n @ rest"
      using show_digits_val [OF r(1) digits r(2)] by (metis append_take_drop_id takeWhile_eq_take)
    moreover have "octet_ends rest"
      using r(5) hd_dropWhile [of is_ascii_digit s] by (auto simp: octet_ends_def dropWhile_eq_drop)
    ultimately show "s = show_nat n @ rest \<and> n \<le> 255 \<and> octet_ends rest" using r(4) by simp
  next
    assume a: "s = show_nat n @ rest \<and> n \<le> 255 \<and> octet_ends rest"
    then have ds: "?ds = show_nat n"
      using show_nat_digits [of n] by (cases rest) (auto simp: octet_ends_def list_all_iff takeWhile_append2)
    have "length (show_nat n) \<le> 3" using length_show_nat [of n 2] a by simp
    moreover have "length (show_nat n) = 1 \<or> hd (show_nat n) \<noteq> CHR ''0''"
      using show_nat_hd [of n] by (cases "n = 0") (simp_all add: show_nat.simps [of 0])
    ultimately show "read_number 10 3 False 255 s = Some (n, rest)"
      unfolding num ds using a by simp
  qed
qed

lemma octet_ends_simps [simp]: "octet_ends []" "octet_ends (CHR ''.'' # s)"
  by (simp_all add: octet_ends_def is_ascii_digit_iff)

lemma read_octet_iff:
  "read_octet i s = Some (n, rest) \<longleftrightarrow>
     s = (if i = 0 then [] else ''.'') @ show_nat n @ rest \<and> n \<le> 255 \<and> octet_ends rest"
  by (cases s) (auto simp: read_octet_def read_separator_def read_number_octet)

lemma u8_le: "unat (b :: u8) \<le> 255"
proof -
  have "unat b < 2 ^ LENGTH(8)" by (rule unsigned_less)
  then show ?thesis by simp
qed

lemma read_ipv4_iff:
  "read_ipv4 s = Some (a, rest) \<longleftrightarrow> s = show_ipv4 a @ rest \<and> octet_ends rest"
proof
  assume "read_ipv4 s = Some (a, rest)"
  then obtain n1 n2 n3 n4 where a: "a = Ipv4 (of_nat n1) (of_nat n2) (of_nat n3) (of_nat n4)"
    and n: "n1 \<le> 255" "n2 \<le> 255" "n3 \<le> 255" "n4 \<le> 255" "octet_ends rest"
    and s: "s = show_nat n1 @ ''.'' @ show_nat n2 @ ''.'' @ show_nat n3 @ ''.'' @ show_nat n4 @ rest"
    unfolding read_ipv4_def by (auto simp: read_octet_iff split: option.splits)
  have "unat (of_nat m :: u8) = m" if "m \<le> 255" for m
    using that by (simp add: unat_of_nat take_bit_nat_eq_self_iff)
  with a n s show "s = show_ipv4 a @ rest \<and> octet_ends rest" by simp
next
  assume s: "s = show_ipv4 a @ rest \<and> octet_ends rest"
  obtain b1 b2 b3 b4 where a: "a = Ipv4 b1 b2 b3 b4" by (cases a)
  note b = u8_le
  have "read_octet 0 s = Some (unat b1, ''.'' @ show_nat (unat b2) @ ''.'' @ show_nat (unat b3) @ ''.'' @ show_nat (unat b4) @ rest)"
    "read_octet 1 (''.'' @ show_nat (unat b2) @ ''.'' @ show_nat (unat b3) @ ''.'' @ show_nat (unat b4) @ rest) =
       Some (unat b2, ''.'' @ show_nat (unat b3) @ ''.'' @ show_nat (unat b4) @ rest)"
    "read_octet 2 (''.'' @ show_nat (unat b3) @ ''.'' @ show_nat (unat b4) @ rest) =
       Some (unat b3, ''.'' @ show_nat (unat b4) @ rest)"
    "read_octet 3 (''.'' @ show_nat (unat b4) @ rest) = Some (unat b4, rest)"
    using s a b by (simp_all add: read_octet_iff)
  then show "read_ipv4 s = Some (a, rest)" using a by (simp add: read_ipv4_def)
qed

lemma parse_all_Some: "parse_all rd s = Some a \<longleftrightarrow> rd s = Some (a, [])"
  by (auto simp: parse_all_def split: option.splits list.splits)

lemma length_show_ipv4: "length (show_ipv4 a) \<le> 15"
proof -
  have "length (show_nat (unat b)) \<le> 3" for b :: u8
    using length_show_nat [of "unat b" 2] u8_le [of b] by simp
  note len = this
  obtain b c d e where "a = Ipv4 b c d e" by (cases a)
  then show ?thesis using len [of b] len [of c] len [of d] len [of e] by simp
qed

lemma ipv4_from_str_iff: "ipv4_from_str s = Some a \<longleftrightarrow> s = show_ipv4 a"
  using length_show_ipv4 [of a] by (auto simp: ipv4_from_str_def parse_all_Some read_ipv4_iff)

section \<open>IPv6 addresses have eight segments\<close>

lemma length_read_groups:
  "length groups \<le> limit \<Longrightarrow> read_groups limit groups s = (gs, v4, rest) \<Longrightarrow> length gs \<le> limit"
proof (induction limit groups s rule: read_groups.induct)
  case (1 limit groups s)
  show ?case
    using 1 by (subst (asm) (2) read_groups.simps)
      (auto simp: Let_def split: if_splits option.splits prod.splits Ipv4Addr.splits)
qed

lemma read_ipv6_length:
  assumes "read_ipv6 s = Some (Ipv6 segments, rest)"
  shows "length segments = 8"
proof -
  obtain hd v4 r where h: "read_groups 8 [] s = (hd, v4, r)" by (cases "read_groups 8 [] s")
  have len: "length hd \<le> 8" using length_read_groups [OF _ h] by simp
  show ?thesis
  proof (cases "length hd = 8")
    case True
    then show ?thesis using assms h by (simp add: read_ipv6_def)
  next
    case False
    with assms h obtain r' tl v4' where
      t: "read_groups (8 - (length hd + 1)) [] r' = (tl, v4', rest)"
      "segments = hd @ replicate (8 - length hd - length tl) 0 @ tl"
      by (auto simp: read_ipv6_def split: list.splits prod.splits if_splits)
    then show ?thesis using length_read_groups [OF _ t(1)] len False by simp
  qed
qed

text \<open>
  The address in a forwarded-for header or an allow list is read strictly. A string is read as
  an IPv4 address exactly if it is the printed form of that address, so there are no leading
  zeros, no blanks and no other spellings of an allowed address; and what is read as an IPv6
  address has eight segments.
\<close>

theorem ip_from_str_strict:
  "(ip_from_str s = Some (V4 a) \<longleftrightarrow> s = show_ipv4 a) \<and> (ipv4_from_str s = Some a \<longleftrightarrow> s = show_ipv4 a) \<and>
   (case ip_from_str s of Some (V6 (Ipv6 segments)) \<Rightarrow> length segments = 8 | _ \<Rightarrow> True)"
proof -
  have "ip_from_str s = Some (V4 a) \<longleftrightarrow> s = show_ipv4 a"
    using read_ipv4_iff [of s a "[]"]
    by (auto simp: ip_from_str_def parse_all_Some split: option.splits)
  moreover have "length segments = 8" if "ip_from_str s = Some (V6 (Ipv6 segments))" for segments
    using that read_ipv6_length [of s segments "[]"]
    by (auto simp: ip_from_str_def parse_all_Some split: option.splits)
  ultimately show ?thesis
    using ipv4_from_str_iff [of s a] by (auto split: option.splits IpAddr.splits Ipv6Addr.splits)
qed

section \<open>The allow list\<close>

definition allow_tokens :: "string \<Rightarrow> string list" where
  "allow_tokens spec = filter (\<lambda>t. t \<noteq> []) (map trim (split_on (CHR '','') spec))"

text \<open>What the code relies on of the crate: the network of an address and length 32 holds
  just that address.\<close>

definition ipnet_ok :: "'n ipnet \<Rightarrow> bool" where
  "ipnet_ok N \<longleftrightarrow> (\<forall>a. \<exists>net. net_new N a 32 = Some net \<and> (\<forall>b. net_contains N net b \<longleftrightarrow> b = a))"

definition token_allows :: "'n ipnet \<Rightarrow> string \<Rightarrow> Ipv4Addr \<Rightarrow> bool" where
  "token_allows N token ip \<longleftrightarrow>
     (if CHR ''/'' \<in> set token
      then (case net_from_str N token of Some net \<Rightarrow> net_contains N net ip | None \<Rightarrow> False)
      else token = show_ipv4 ip)"

definition token_readable :: "'n ipnet \<Rightarrow> string \<Rightarrow> bool" where
  "token_readable N token \<longleftrightarrow>
     (if CHR ''/'' \<in> set token then net_from_str N token \<noteq> None else (\<exists>a. token = show_ipv4 a))"

lemma parse_net_cases:
  assumes "ipnet_ok N"
  shows "if token_readable N token
         then \<exists>net. parse_net N token = Inr net \<and> (\<forall>ip. net_contains N net ip \<longleftrightarrow> token_allows N token ip)
         else parse_net N token = Inl (InvalidAllowlist token)"
proof (cases "CHR ''/'' \<in> set token")
  case True
  then show ?thesis
    by (auto simp: parse_net_def token_readable_def token_allows_def ok_or_def split: option.splits)
next
  case False
  show ?thesis
  proof (cases "ipv4_from_str token")
    case None
    then show ?thesis using False ipv4_from_str_iff [of token]
      by (auto simp: parse_net_def token_readable_def)
  next
    case (Some a)
    moreover obtain net where "net_new N a 32 = Some net" "\<forall>b. net_contains N net b \<longleftrightarrow> b = a"
      using assms by (auto simp: ipnet_ok_def)
    ultimately show ?thesis using False ipv4_from_str_iff [of token a]
      by (auto simp: parse_net_def token_readable_def token_allows_def ok_or_def)
  qed
qed

lemma parse_nets_exact:
  assumes "ipnet_ok N"
  shows "(case parse_nets N raws nets of
            Inr nets' \<Rightarrow> list_all (token_readable N) (filter (\<lambda>t. t \<noteq> []) (map trim raws)) \<and>
              (\<forall>ip. allowlist_contains N nets' ip \<longleftrightarrow> allowlist_contains N nets ip \<or>
                 list_ex (\<lambda>t. token_allows N t ip) (filter (\<lambda>t. t \<noteq> []) (map trim raws)))
          | Inl e \<Rightarrow> (\<exists>t \<in> trim ` set raws. e = InvalidAllowlist t \<and> t \<noteq> [] \<and> \<not> token_readable N t))"
proof (induction raws arbitrary: nets)
  case (Cons raw raws)
  show ?case
  proof (cases "trim raw = []")
    case True
    then show ?thesis using Cons [of nets] by (auto simp: Let_def split: sum.splits)
  next
    case False
    show ?thesis
    proof (cases "token_readable N (trim raw)")
      case True
      with parse_net_cases [OF assms, of "trim raw"] obtain net where
        net: "parse_net N (trim raw) = Inr net" "\<And>ip. net_contains N net ip \<longleftrightarrow> token_allows N (trim raw) ip"
        by auto
      then show ?thesis using Cons [of "nets @ [net]"] True False
        by (auto simp: Let_def allowlist_contains_def split: sum.splits)
    next
      case bad: False
      with parse_net_cases [OF assms, of "trim raw"] False show ?thesis by (auto simp: Let_def)
    qed
  qed
qed (simp add: allowlist_contains_def)

text \<open>
  An allow list is read exactly or not at all. If an entry is neither a network nor the
  printed form of an IPv4 address, the whole list is refused, naming such an entry; otherwise
  an address is allowed if and only if it is an entry or lies in a network that is an entry.
  In particular an empty list allows nobody.
\<close>

theorem allowlist_exact:
  assumes "ipnet_ok N"
  shows "case allowlist_parse N spec of
     Inr nets \<Rightarrow> list_all (token_readable N) (allow_tokens spec) \<and>
       (allowlist_contains N nets ip \<longleftrightarrow> list_ex (\<lambda>t. token_allows N t ip) (allow_tokens spec))
   | Inl e \<Rightarrow> (\<exists>t. t \<in> set (allow_tokens spec) \<and> e = InvalidAllowlist t \<and> \<not> token_readable N t)"
  using parse_nets_exact [OF assms, of "split_on (CHR '','') spec" "[]"]
  by (auto simp: allowlist_parse_def allow_tokens_def allowlist_contains_def split: sum.splits)

text \<open>A concrete network library: a network is an address and a prefix length, and an address
  belongs to it if the leading bits agree.\<close>

fun ipv4_bits :: "Ipv4Addr \<Rightarrow> 32 word" where
  "ipv4_bits (Ipv4 a b c d) = of_nat (((unat a * 256 + unat b) * 256 + unat c) * 256 + unat d)"

definition prefix_nets :: "(Ipv4Addr \<times> nat) ipnet" where
  "prefix_nets =
     \<lparr>net_from_str = (\<lambda>s. case split_once (CHR ''/'') s of
        None \<Rightarrow> None
      | Some (a, p) \<Rightarrow>
          (case (ipv4_from_str a, parse_uint 32 p) of (Some ip, Some len) \<Rightarrow> Some (ip, len) | _ \<Rightarrow> None)),
      net_new = (\<lambda>a p. if p \<le> 32 then Some (a, p) else None),
      net_contains = (\<lambda>(a, p) b. drop_bit (32 - p) (ipv4_bits a) = drop_bit (32 - p) (ipv4_bits b))\<rparr>"

lemma unat_u32: "m < 4294967296 \<Longrightarrow> unat (of_nat m :: 32 word) = m"
  by (simp add: unat_of_nat take_bit_nat_eq_self_iff)

lemma base256_inject:
  fixes x y x' y' :: nat
  assumes "x * 256 + y = x' * 256 + y'" "y \<le> 255" "y' \<le> 255"
  shows "x = x'" "y = y'"
proof -
  have "(x * 256 + y) div 256 = x" "(x' * 256 + y') div 256 = x'" using assms(2,3) by simp_all
  then show "x = x'" using assms(1) by simp
  then show "y = y'" using assms(1) by simp
qed

lemma ipv4_bits_inject: "ipv4_bits a = ipv4_bits b \<longleftrightarrow> a = b"
proof
  assume eq: "ipv4_bits a = ipv4_bits b"
  obtain a1 a2 a3 a4 b1 b2 b3 b4 where ab: "a = Ipv4 a1 a2 a3 a4" "b = Ipv4 b1 b2 b3 b4"
    by (cases a, cases b)
  have val: "unat (ipv4_bits (Ipv4 c d e f)) = ((unat c * 256 + unat d) * 256 + unat e) * 256 + unat f" for c d e f
    unfolding ipv4_bits.simps
    by (rule unat_u32) (use u8_le [of c] u8_le [of d] u8_le [of e] u8_le [of f] in simp)
  have "((unat a1 * 256 + unat a2) * 256 + unat a3) * 256 + unat a4 =
      ((unat b1 * 256 + unat b2) * 256 + unat b3) * 256 + unat b4"
    using eq val [of a1 a2 a3 a4] val [of b1 b2 b3 b4] ab by simp
  note h1 = base256_inject [OF this u8_le u8_le]
  note h2 = base256_inject [OF h1(1) u8_le u8_le]
  note h3 = base256_inject [OF h2(1) u8_le u8_le]
  show "a = b" unfolding ab using h1(2) h2(2) h3 by (auto dest: unsigned_word_eqI)
qed simp

lemma prefix_nets_ok: "ipnet_ok prefix_nets"
  by (auto simp: ipnet_ok_def prefix_nets_def ipv4_bits_inject)

theorem allowlist_exact_witness:
  "case allowlist_parse prefix_nets ''10.0.0.0/8, 192.168.1.5'' of
     Inr nets \<Rightarrow> list_all (token_readable prefix_nets) (allow_tokens ''10.0.0.0/8, 192.168.1.5'') \<and>
       (allowlist_contains prefix_nets nets (Ipv4 10 1 2 3) \<longleftrightarrow>
        list_ex (\<lambda>t. token_allows prefix_nets t (Ipv4 10 1 2 3)) (allow_tokens ''10.0.0.0/8, 192.168.1.5''))
   | Inl e \<Rightarrow> (\<exists>t. t \<in> set (allow_tokens ''10.0.0.0/8, 192.168.1.5'') \<and> e = InvalidAllowlist t \<and>
       \<not> token_readable prefix_nets t)"
  using allowlist_exact [OF prefix_nets_ok] .

end
