(* ===== verification/Core_Rbac.thy ===== *)
theory Core_Rbac
  imports Rust_Strings
begin

text \<open>
  \<open>hyperion-vault-core/src/rbac.rs\<close>: permission rules are pairs of an action and a path
  pattern; a pattern that ends in a star matches every name with the preceding prefix, any
  other pattern matches itself only.
\<close>

type_synonym rules = "(string \<times> string) list"

definition ACTIONS :: "string list" where
  "ACTIONS = [''create'', ''update'', ''delete'', ''rotate'']"

definition is_valid_action :: "string \<Rightarrow> bool" where
  "is_valid_action action \<longleftrightarrow> action = ''*'' \<or> action \<in> set ACTIONS"

definition path_matches :: "string \<Rightarrow> string \<Rightarrow> bool" where
  "path_matches pattern name =
     (case strip_suffix ''*'' pattern of
        Some pre \<Rightarrow> starts_with pre name
      | None \<Rightarrow> pattern = name)"

definition action_matches :: "string \<Rightarrow> string \<Rightarrow> bool" where
  "action_matches rule_action action \<longleftrightarrow> rule_action = ''*'' \<or> rule_action = action"

definition authorize :: "bool \<Rightarrow> rules \<Rightarrow> string \<Rightarrow> string \<Rightarrow> bool" where
  "authorize is_admin rules action name \<longleftrightarrow>
     is_admin \<or> list_ex (\<lambda>(a, p). action_matches a action \<and> path_matches p name) rules"

definition visible :: "bool \<Rightarrow> rules \<Rightarrow> string \<Rightarrow> bool" where
  "visible is_admin rules name \<longleftrightarrow> is_admin \<or> list_ex (\<lambda>(_, p). path_matches p name) rules"

lemma path_matches_star: "path_matches (pre @ ''*'') name \<longleftrightarrow> (\<exists>rest. name = pre @ rest)"
  by (simp add: path_matches_def strip_suffix_Some [THEN iffD2] starts_with_iff)

lemma path_matches_iff:
  "path_matches pattern name \<longleftrightarrow>
     (\<exists>pre rest. pattern = pre @ ''*'' \<and> name = pre @ rest) \<or>
     (\<nexists>pre. pattern = pre @ ''*'') \<and> pattern = name"
  by (auto simp: path_matches_def strip_suffix_None strip_suffix_Some starts_with_iff
      split: option.splits)

lemma authorize_visible: "authorize adm rules action name \<Longrightarrow> visible adm rules name"
  by (auto simp: authorize_def visible_def list_ex_iff)

lemma authorize_mono:
  "authorize adm rules action name \<Longrightarrow> set rules \<subseteq> set rules' \<Longrightarrow> authorize adm rules' action name"
  by (auto simp: authorize_def list_ex_iff)

text \<open>
  A token without the administrator flag is confined to its rules. If every rule is a
  prefix pattern under one path prefix and names one action, then every action it is
  authorized for is one of those actions, on a name under that prefix, and every secret it can
  list lies under that prefix.
\<close>

theorem authorize_confined:
  assumes "\<forall>(a, p) \<in> set rules. a \<in> acts \<and> a \<noteq> ''*'' \<and> (\<exists>r. p = pre @ r @ ''*'')"
  shows "(authorize False rules action name \<longrightarrow> action \<in> acts \<and> starts_with pre name) \<and>
         (visible False rules name \<longrightarrow> starts_with pre name)"
proof -
  have under: "starts_with pre name" if "(a, p) \<in> set rules" "path_matches p name" for a p
  proof -
    obtain r where "p = (pre @ r) @ ''*''" using assms \<open>(a, p) \<in> set rules\<close> by auto
    then show ?thesis using that(2) path_matches_star [of "pre @ r" name]
      by (auto simp: starts_with_iff)
  qed
  moreover have "action \<in> acts" if "(a, p) \<in> set rules" "action_matches a action" for a p
    using assms that by (fastforce simp: action_matches_def)
  ultimately show ?thesis
    by (auto simp: authorize_def visible_def list_ex_iff)
qed

theorem authorize_confined_witness:
  "\<not> authorize False [(''create'', ''stripe/*''), (''rotate'', ''stripe/*'')] ''delete'' ''stripe/key'' \<and>
   \<not> visible False [(''create'', ''stripe/*''), (''rotate'', ''stripe/*'')] ''github/key''"
  using authorize_confined [of "[(''create'', ''stripe/*''), (''rotate'', ''stripe/*'')]"
      "{''create'', ''rotate''}" "''stripe/''" "''delete''" "''stripe/key''"]
    authorize_confined [of "[(''create'', ''stripe/*''), (''rotate'', ''stripe/*'')]"
      "{''create'', ''rotate''}" "''stripe/''" "''create''" "''github/key''"]
  by (auto simp: starts_with_iff)

end
