(* ===== verification/Guards.thy ===== *)
theory Guards
  imports Lockout Ip_Parse Core_Rbac
begin

text \<open>
  \<open>guards.rs\<close> and \<open>authz.rs\<close>: who may call. A management request carries a bearer token
  whose fingerprint names a stored token, and acts with the role of that token; a
  read comes from an address of the allow list. Failed attempts count against the address of
  the connection.
\<close>

section \<open>The request\<close>

text \<open>What the guards look at: the two headers, None when missing or not text, and the address of
  the connection.\<close>

record request_parts =
  rq_authorization :: "string option"
  rq_forwarded_for :: "string option"
  rq_connect_info :: "IpAddr option"

record AdminActor =
  aa_name :: string
  aa_is_admin :: bool
  aa_rules :: rules
  aa_client_ip :: "IpAddr option"
  aa_peer_ip :: "IpAddr option"

record ReaderGuard =
  rg_client_ip :: Ipv4Addr
  rg_peer_ip :: IpAddr

definition bearer_token :: "request_parts \<Rightarrow> string option" where
  "bearer_token parts =
     (case rq_authorization parts of
        None \<Rightarrow> None
      | Some header \<Rightarrow>
          (case (case strip_prefix ''Bearer '' header of
                   Some t \<Rightarrow> Some t | None \<Rightarrow> strip_prefix ''bearer '' header) of
             None \<Rightarrow> None
           | Some rest \<Rightarrow> (let token = trim rest in if token = [] then None else Some token)))"

definition peer_ip :: "request_parts \<Rightarrow> IpAddr option" where
  "peer_ip parts = rq_connect_info parts"

definition client_ip :: "request_parts \<Rightarrow> bool \<Rightarrow> IpAddr option" where
  "client_ip parts trust_proxy =
     (if trust_proxy
      then
        (case rq_forwarded_for parts of
           None \<Rightarrow> peer_ip parts
         | Some v \<Rightarrow>
             (case ip_from_str (trim (hd (split_on (CHR '','') v))) of
                Some ip \<Rightarrow> Some ip
              | None \<Rightarrow> peer_ip parts))
      else peer_ip parts)"

section \<open>The guards\<close>

definition role_rights :: "('b, 's) env \<Rightarrow> string option \<Rightarrow> ('s, bool \<times> rules) api" where
  "role_rights E role =
     (case role of
        Some role_name \<Rightarrow>
          bind (read_store E (\<lambda>cd. reader_role cd role_name)) (\<lambda>found.
          case found of
            Some r \<Rightarrow> ret (rr_is_admin r, rr_permissions r)
          | None \<Rightarrow> ret (False, []))
      | None \<Rightarrow> ret (False, []))"

definition touch_due :: "('b, 's) env \<Rightarrow> i64 \<Rightarrow> TokenRecord \<Rightarrow> bool" where
  "touch_due E now token =
     (case tr_last_used_at token of
        None \<Rightarrow> True
      | Some at \<Rightarrow> sat_sub_i64 now at \<ge> e_token_touch_secs E)"

definition admin_actor :: "('b, 's) env \<Rightarrow> request_parts \<Rightarrow> ('s, AdminActor) api" where
  "admin_actor E parts =
     (let ip = client_ip parts (e_trust_proxy E);
          peer = peer_ip parts
      in
      bind (lockout_check E peer) (\<lambda>_.
      case bearer_token parts of
        None \<Rightarrow> bind (lockout_record E peer) (\<lambda>_. raise Unauthorized)
      | Some token \<Rightarrow>
          (let fp = fingerprint (e_sha256 E) token in
           bind (read_store E (\<lambda>cd. token_by_fingerprint cd fp)) (\<lambda>record.
           case record of
             None \<Rightarrow> bind (lockout_record E peer) (\<lambda>_. raise Unauthorized)
           | Some token_record \<Rightarrow>
               (if tr_revoked_at token_record \<noteq> None
                then bind (lockout_record E peer) (\<lambda>_. raise Unauthorized)
                else
                  bind (role_rights E (tr_role token_record)) (\<lambda>(is_admin, rules).
                  bind (now_unix E) (\<lambda>now.
                  bind (if touch_due E now token_record
                        then ignore (write_store E (TouchToken fp now)) else ret ()) (\<lambda>_.
                  ret \<lparr>aa_name = tr_name token_record, aa_is_admin = is_admin, aa_rules = rules,
                       aa_client_ip = ip, aa_peer_ip = peer\<rparr>))))))))"

definition reader_guard :: "('b, 's) env \<Rightarrow> request_parts \<Rightarrow> ('s, ReaderGuard) api" where
  "reader_guard E parts =
     bind (check (ok_or Forbidden (peer_ip parts))) (\<lambda>peer.
     bind (check (ok_or Forbidden (client_ip parts (e_trust_proxy E)))) (\<lambda>ip.
     bind (check_ip E peer) (\<lambda>_.
     let denied = bind (lockout_record E (Some peer)) (\<lambda>_. raise Forbidden) in
     case ip of
       V4 v4 \<Rightarrow> (if e_allowed E v4 then ret \<lparr>rg_client_ip = v4, rg_peer_ip = peer\<rparr> else denied)
     | V6 _ \<Rightarrow> denied)))"

section \<open>Authorization\<close>

definition authz_authorize :: "('b, 's) env \<Rightarrow> AdminActor \<Rightarrow> string \<Rightarrow> string \<Rightarrow> ('s, unit) api" where
  "authz_authorize E actor action name =
     (if authorize (aa_is_admin actor) (aa_rules actor) action name then ret ()
      else bind (lockout_record E (aa_peer_ip actor)) (\<lambda>_. raise Forbidden))"

definition authorize_rotation_target :: "('b, 's) env \<Rightarrow> AdminActor \<Rightarrow> CreateSecretRequest \<Rightarrow> ('s, unit) api" where
  "authorize_rotation_target E actor req =
     (case cs_target req of
        None \<Rightarrow> ret ()
      | Some (PgReplica pg) \<Rightarrow>
          (let deny = bind (lockout_record E (aa_peer_ip actor)) (\<lambda>_. raise Forbidden) in
           if (case pg_login_secret pg of
                 Some login \<Rightarrow> \<not> visible (aa_is_admin actor) (aa_rules actor) login | None \<Rightarrow> False)
           then deny
           else if (case pg_role pg of
                      Some role \<Rightarrow> \<not> aa_is_admin actor \<and> role \<noteq> unwrap_or [] (cs_username req) | None \<Rightarrow> False)
           then deny
           else ret ()))"

definition require_admin :: "('b, 's) env \<Rightarrow> AdminActor \<Rightarrow> ('s, unit) api" where
  "require_admin E actor =
     (if aa_is_admin actor then ret ()
      else bind (lockout_record E (aa_peer_ip actor)) (\<lambda>_. raise Forbidden))"

context api_core begin

lemma keep_admin_actor [keep_intro]: "keep I (admin_actor E parts)"
proof -
  have r: "keep I (role_rights E role)" for role
    unfolding role_rights_def by (intro keep_intro) simp_all
  show ?thesis
    unfolding admin_actor_def by (intro keep_intro r keep_bookkeeping) (simp_all add: bookkeeping_def)
qed

lemma keep_reader_guard [keep_intro]: "keep I (reader_guard E parts)"
proof -
  have c: "keep I (case ip of V4 a \<Rightarrow> f a | V6 b \<Rightarrow> m)" if "\<And>a. keep I (f a)" "keep I m"
    for ip and f :: "Ipv4Addr \<Rightarrow> ('s, 'x) api" and m
    using that by (simp split: IpAddr.split)
  show ?thesis unfolding reader_guard_def Let_def by (intro keep_intro c) simp
qed

lemma keep_authz [keep_intro]:
  "keep I (authz_authorize E actor action name)" "keep I (require_admin E actor)"
  "keep I (authorize_rotation_target E actor req)"
  unfolding authz_authorize_def require_admin_def authorize_rotation_target_def
  by (intro keep_intro; simp)+

end

end
