(* ===== verification/Manage.thy ===== *)
theory Manage
  imports Api_World Core_Rbac
begin

text \<open>\<open>manage.rs\<close>: backups, roles and tokens.\<close>

definition BUILTIN_ADMIN_ROLE :: string where "BUILTIN_ADMIN_ROLE = ''admin''"
definition MAX_REPLICATED_RESTORE_BYTES :: nat where "MAX_REPLICATED_RESTORE_BYTES = 16777216 div 2"
definition USIZE_MAX :: nat where "USIZE_MAX = 18446744073709551615"

definition backup :: "('b, 's) env \<Rightarrow> string \<Rightarrow> ('s, 'b BackupData) api" where
  "backup E actor =
     bind (read_store E (\<lambda>cd d. Inr (dump_database d))) (\<lambda>data.
     bind (audit E (Some actor) None ''backup'' None ''ok'') (\<lambda>_. ret data))"

definition restore :: "('b, 's) env \<Rightarrow> string \<Rightarrow> 'b BackupData \<Rightarrow> ('s, unit) api" where
  "restore E actor data =
     (let encoded = unwrap_or USIZE_MAX (e_backup_size E data) in
      if e_clustered E \<and> encoded > MAX_REPLICATED_RESTORE_BYTES
      then raise (BadRequest (RestoreTooLarge encoded))
      else if bd_version data \<noteq> BACKUP_VERSION then raise (BadRequest (RestoreVersion (bd_version data)))
      else
        bind (restore_with E data) (\<lambda>_.
        audit E (Some actor) None ''restore'' None ''ok''))"

definition validate_role_name :: "string \<Rightarrow> ApiError + unit" where
  "validate_role_name name =
     (if trim name = [] \<or> length name > 255 then Inl (BadRequest RoleNameLength) else Inr ())"

fun validate_permissions :: "PermissionRule list \<Rightarrow> ApiError + unit" where
  "validate_permissions [] = Inr ()"
| "validate_permissions (perm # perms) =
     (if \<not> is_valid_action (pr_action perm) then Inl (BadRequest (InvalidAction (pr_action perm)))
      else if pr_path perm = [] then Inl (BadRequest EmptyPath)
      else validate_permissions perms)"

definition permission_pairs :: "PermissionRule list \<Rightarrow> rules" where
  "permission_pairs perms = map (\<lambda>perm. (pr_action perm, pr_path perm)) perms"

definition to_role_info :: "('b, 's) env \<Rightarrow> RoleRecord \<Rightarrow> RoleInfo" where
  "to_role_info E role =
     \<lparr>ri_name = rr_name role, ri_description = rr_description role, ri_is_admin = rr_is_admin role,
      ri_permissions = map (\<lambda>(action, path). \<lparr>pr_action = action, pr_path = path\<rparr>) (rr_permissions role),
      ri_created_at = rfc3339 E (rr_created_at role)\<rparr>"

definition create_role :: "('b, 's) env \<Rightarrow> CreateRoleRequest \<Rightarrow> ('s, RoleInfo) api" where
  "create_role E req =
     bind (check (validate_role_name (cr_name req))) (\<lambda>_.
     bind (check (validate_permissions (cr_permissions req))) (\<lambda>_.
     bind (now_unix E) (\<lambda>now.
     let role = \<lparr>rr_name = cr_name req, rr_description = cr_description req, rr_is_admin = cr_is_admin req,
                 rr_permissions = permission_pairs (cr_permissions req), rr_created_at = now\<rparr> in
     bind (write_store E (CreateRole role)) (\<lambda>_.
     ret \<lparr>ri_name = cr_name req, ri_description = cr_description req, ri_is_admin = cr_is_admin req,
          ri_permissions = cr_permissions req, ri_created_at = rfc3339 E now\<rparr>))))"

definition manage_list_roles :: "('b, 's) env \<Rightarrow> ('s, RoleInfo list) api" where
  "manage_list_roles E = bind (read_store E list_roles) (\<lambda>roles. ret (map (to_role_info E) roles))"

definition get_role :: "('b, 's) env \<Rightarrow> string \<Rightarrow> ('s, RoleInfo) api" where
  "get_role E name =
     bind (read_store E (\<lambda>cd. reader_role cd name)) (\<lambda>found.
     bind (check (ok_or ApiNotFound found)) (\<lambda>role. ret (to_role_info E role)))"

definition set_permissions :: "('b, 's) env \<Rightarrow> string \<Rightarrow> PermissionRule list \<Rightarrow> ('s, RoleInfo) api" where
  "set_permissions E name perms =
     bind (check (validate_permissions perms)) (\<lambda>_.
     bind (write_store E (SetPermissions name (permission_pairs perms))) (\<lambda>_.
     get_role E name))"

definition delete_role :: "('b, 's) env \<Rightarrow> string \<Rightarrow> ('s, unit) api" where
  "delete_role E name =
     (if name = BUILTIN_ADMIN_ROLE then raise (BadRequest BuiltinRole)
      else write_store E (DeleteRole name))"

definition create_token :: "('b, 's) env \<Rightarrow> CreateTokenRequest \<Rightarrow> ('s, TokenCreated) api" where
  "create_token E req =
     (if trim (ct_name req) = [] then raise (BadRequest TokenNameRequired)
      else
        bind (read_store E (\<lambda>cd. reader_role cd (ct_role req))) (\<lambda>found.
        if found = None then raise (BadRequest (NoSuchRole (ct_role req)))
        else
          bind (generate_token E) (\<lambda>token.
          bind (now_unix E) (\<lambda>now.
          let record = \<lparr>tr_name = ct_name req, tr_role = Some (ct_role req),
                        tr_fingerprint = fingerprint (e_sha256 E) token, tr_created_at = now,
                        tr_last_used_at = None, tr_revoked_at = None\<rparr> in
          bind (write_store E (AddToken record)) (\<lambda>_.
          ret \<lparr>tc_name = ct_name req, tc_role = ct_role req, tc_token = token\<rparr>)))))"

definition to_token_info :: "('b, 's) env \<Rightarrow> TokenRecord \<Rightarrow> TokenInfo" where
  "to_token_info E token =
     \<lparr>ti_name = tr_name token, ti_role = tr_role token, ti_created_at = rfc3339 E (tr_created_at token),
      ti_last_used_at = rfc3339_opt E (tr_last_used_at token),
      ti_revoked_at = rfc3339_opt E (tr_revoked_at token)\<rparr>"

definition manage_list_tokens :: "('b, 's) env \<Rightarrow> ('s, TokenInfo list) api" where
  "manage_list_tokens E = bind (read_store E list_tokens) (\<lambda>tokens. ret (map (to_token_info E) tokens))"

definition revoke_token :: "('b, 's) env \<Rightarrow> string \<Rightarrow> ('s, unit) api" where
  "revoke_token E name = bind (now_unix E) (\<lambda>now. write_store E (RevokeToken name now))"

context api_core begin

lemma keep_manage_reads [keep_intro]:
  "keep I (get_role E name)" "keep I (manage_list_roles E)" "keep I (manage_list_tokens E)"
  unfolding get_role_def manage_list_roles_def manage_list_tokens_def
  by (intro keep_intro; simp)+

lemma keep_backup [keep_intro]: "keep I (backup E actor)"
  unfolding backup_def by (intro keep_intro) simp

end

context api_writer begin

lemma keep_manage [keep_intro]:
  "keep I (create_role E req)" "keep I (set_permissions E name perms)" "keep I (delete_role E name)"
  "keep I (create_token E treq)" "keep I (revoke_token E name)"
  unfolding create_role_def set_permissions_def delete_role_def create_token_def revoke_token_def
  by (intro keep_intro keep_admissible; simp add: command_ok_def)+

end

context api_invariant begin

lemma keep_restore: "C (RestoreDatabase data) \<Longrightarrow> keep I (restore E actor data)"
  unfolding restore_def by (intro keep_intro keep_restore_with)

end

end
