(* ===== verification/Service.thy ===== *)
theory Service
  imports Lockout Core_Rotation
begin

text \<open>
  \<open>service.rs\<close>: creating, reading, updating, deleting, rotating and verifying secrets.
  The definitions follow the functions of the file; a loop is a recursive function over what it
  iterates on.
\<close>

definition MAX_VALUE_LEN :: nat where "MAX_VALUE_LEN = 65536"
definition MAX_BATCH :: nat where "MAX_BATCH = 256"
definition APPLY_RETRY_SECS :: i64 where "APPLY_RETRY_SECS = 60"
definition MAX_LOGIN_CANDIDATES :: nat where "MAX_LOGIN_CANDIDATES = 4"

record Payload =
  pl_format :: SecretFormat
  pl_bytes :: bytes
  pl_value :: "string option"
  pl_username :: "string option"
  pl_password :: "string option"

section \<open>Validation\<close>

definition validate_name :: "string \<Rightarrow> ApiError + unit" where
  "validate_name name =
     (if name = [] \<or> length name > MAX_SECRET_NAME_LEN then Inl (BadRequest NameLength)
      else if \<not> is_valid_secret_name name then Inl (BadRequest NameCharset)
      else if \<not> is_normalized_secret_name name then Inl (BadRequest NameNotNormalized)
      else Inr ())"

definition known_name :: "string \<Rightarrow> ApiError + unit" where
  "known_name name = (if is_valid_secret_name name then Inr () else Inl ApiNotFound)"

definition validate_interval :: "i64 \<Rightarrow> ApiError + unit" where
  "validate_interval secs =
     (if secs \<le> 0 then Inl (BadRequest IntervalNotPositive)
      else if secs > MAX_ROTATION_INTERVAL_SECS then Inl (BadRequest IntervalTooLarge)
      else Inr ())"

definition validate_value :: "string \<Rightarrow> ApiError + unit" where
  "validate_value v =
     (if v = [] then Inl (BadRequest ValueEmpty)
      else if length v > MAX_VALUE_LEN then Inl (BadRequest ValueTooLarge)
      else Inr ())"

definition validate_field :: "string \<Rightarrow> string \<Rightarrow> ApiError + unit" where
  "validate_field label v =
     (if v = [] then Inl (BadRequest (FieldEmpty label))
      else if length v > MAX_VALUE_LEN then Inl (BadRequest (FieldTooLarge label))
      else Inr ())"

definition normalize_grace :: "i64 option \<Rightarrow> ApiError + i64" where
  "normalize_grace grace =
     (case grace of
        None \<Rightarrow> Inr 0
      | Some secs \<Rightarrow>
          (if secs < 0 then Inl (BadRequest GraceNegative)
           else if secs > MAX_GRACE_SECS then Inl (BadRequest GraceTooLarge)
           else Inr secs))"

definition validate_target :: "('b, 's) env \<Rightarrow> RotationTarget \<Rightarrow> ('s, unit) api" where
  "validate_target E target =
     (case target of PgReplica pg \<Rightarrow>
        bind (case pg_login_secret pg of None \<Rightarrow> ret () | Some login \<Rightarrow> check (validate_name login)) (\<lambda>_.
        bind (case pg_role pg of None \<Rightarrow> ret () | Some role \<Rightarrow> check (validate_field ''target.role'' role)) (\<lambda>_.
        check (case policy_check (e_pg_targets E) pg of
                 Inl err \<Rightarrow> Inl (BadRequest (TargetRejected err)) | Inr _ \<Rightarrow> Inr ()))))"

section \<open>Payloads\<close>

definition encode_userpass :: "('b, 's) env \<Rightarrow> string \<Rightarrow> string \<Rightarrow> bytes" where
  "encode_userpass E username password = e_enc_userpass E \<lparr>up_username = username, up_password = password\<rparr>"

definition decode_userpass :: "('b, 's) env \<Rightarrow> bytes \<Rightarrow> ApiError + UserPass" where
  "decode_userpass E bs = ok_or (ApiInternal MalformedUserpass) (e_dec_userpass E bs)"

text \<open>What \<open>str::from_utf8\<close> of the standard library accepts.\<close>

definition utf8_cont :: "u8 \<Rightarrow> bool" where
  "utf8_cont b \<longleftrightarrow> 0x80 \<le> b \<and> b \<le> 0xBF"

fun valid_utf8 :: "bytes \<Rightarrow> bool" where
  "valid_utf8 [] = True"
| "valid_utf8 (a # bs) =
     (if a < 0x80 then valid_utf8 bs
      else if 0xC2 \<le> a \<and> a \<le> 0xDF then
        (case bs of b # rest \<Rightarrow> utf8_cont b \<and> valid_utf8 rest | _ \<Rightarrow> False)
      else if 0xE0 \<le> a \<and> a \<le> 0xEF then
        (case bs of
           b # c # rest \<Rightarrow>
             (if a = 0xE0 then 0xA0 \<le> b \<and> b \<le> 0xBF
              else if a = 0xED then 0x80 \<le> b \<and> b \<le> 0x9F
              else utf8_cont b) \<and> utf8_cont c \<and> valid_utf8 rest
         | _ \<Rightarrow> False)
      else if 0xF0 \<le> a \<and> a \<le> 0xF4 then
        (case bs of
           b # c # d # rest \<Rightarrow>
             (if a = 0xF0 then 0x90 \<le> b \<and> b \<le> 0xBF
              else if a = 0xF4 then 0x80 \<le> b \<and> b \<le> 0x8F
              else utf8_cont b) \<and> utf8_cont c \<and> utf8_cont d \<and> valid_utf8 rest
         | _ \<Rightarrow> False)
      else False)"

definition decode_payload ::
  "('b, 's) env \<Rightarrow> SecretFormat \<Rightarrow> bytes \<Rightarrow> ApiError + string option \<times> string option \<times> string option" where
  "decode_payload E format plaintext =
     (case format of
        Opaque \<Rightarrow>
          (if valid_utf8 plaintext then Inr (Some (of_bytes plaintext), None, None) else Inl (ApiInternal NotUtf8))
      | Userpass \<Rightarrow>
          (case decode_userpass E plaintext of
             Inl e \<Rightarrow> Inl e
           | Inr up \<Rightarrow> Inr (None, Some (up_username up), Some (up_password up))))"

definition build_create_payload :: "('b, 's) env \<Rightarrow> CreateSecretRequest \<Rightarrow> ('s, Payload) api" where
  "build_create_payload E req =
     (if cs_username req \<noteq> None \<or> cs_password req \<noteq> None
      then
        if cs_value req \<noteq> None then raise (BadRequest ValueAndUserpass)
        else
          bind (check (ok_or (BadRequest UsernameRequired) (cs_username req))) (\<lambda>username.
          bind (check (validate_field ''username'' username)) (\<lambda>_.
          bind (case cs_password req of
                  Some password \<Rightarrow> bind (check (validate_field ''password'' password)) (\<lambda>_. ret password)
                | None \<Rightarrow>
                    (case cs_kind req of
                       Manual \<Rightarrow> raise (BadRequest PasswordRequired)
                     | Automatic \<Rightarrow> generate_token E)) (\<lambda>password.
          ret \<lparr>pl_format = Userpass, pl_bytes = encode_userpass E username password, pl_value = None,
               pl_username = Some username, pl_password = Some password\<rparr>)))
      else
        bind (case cs_value req of
                Some v \<Rightarrow> bind (check (validate_value v)) (\<lambda>_. ret v)
              | None \<Rightarrow>
                  (case cs_kind req of
                     Manual \<Rightarrow> raise (BadRequest ValueRequired)
                   | Automatic \<Rightarrow> generate_token E)) (\<lambda>v.
        ret \<lparr>pl_format = Opaque, pl_bytes = as_bytes v, pl_value = Some v,
             pl_username = None, pl_password = None\<rparr>))"

section \<open>Sealing and opening versions\<close>

definition version_context :: "string \<Rightarrow> i32 \<Rightarrow> kms_context" where
  "version_context name version = [(''secret'', name), (''version'', show_int version)]"

definition seal_version :: "('b, 's) env \<Rightarrow> string \<Rightarrow> i32 \<Rightarrow> bytes \<Rightarrow> i64 \<Rightarrow> ('s, VersionRecord) api" where
  "seal_version E name version plaintext now =
     (let aad = aad_for name version in
      bind (kms_call (\<lambda>n. km_generate_data_key (e_kms E) n (version_context name version))) (\<lambda>data_key.
      bind (generate_nonce E) (\<lambda>nonce.
      bind (check (from_core_error (seal (e_aead E) (dk_plaintext data_key) nonce aad plaintext))) (\<lambda>ciphertext.
      bind (read_store E kms_rewrap_state) (\<lambda>rewrap.
      let generation = (case rewrap of Some s \<Rightarrow> ks_last_completed_rotation_at s | None \<Rightarrow> 0) in
      ret \<lparr>vr_version = version, vr_kms_key_id = dk_key_id data_key, vr_wrapped_dek = dk_wrapped data_key,
           vr_nonce = nonce, vr_ciphertext = ciphertext, vr_aad = aad, vr_created_at = now,
           vr_expires_at = None, vr_wrapped_rotation_at = Some generation\<rparr>)))))"

definition version_dek :: "('b, 's) env \<Rightarrow> string \<Rightarrow> i32 \<Rightarrow> VersionRecord \<Rightarrow> ('s, bytes) api" where
  "version_dek E name version record =
     bind (cache_lookup E (vr_wrapped_dek record)) (\<lambda>hit.
     case hit of
       Some dek \<Rightarrow> ret dek
     | None \<Rightarrow>
         bind (kms_call (\<lambda>n. km_decrypt_data_key (e_kms E) n (vr_wrapped_dek record)
                 (vr_kms_key_id record) (version_context name version))) (\<lambda>dek.
         bind (cache_store E (vr_wrapped_dek record) dek) (\<lambda>_. ret dek)))"

definition open_version :: "('b, 's) env \<Rightarrow> string \<Rightarrow> i32 \<Rightarrow> VersionRecord \<Rightarrow> ('s, bytes) api" where
  "open_version E name version record =
     (let aad = aad_for name version in
      if vr_aad record \<noteq> aad then raise (ApiInternal AadMismatch)
      else if length (vr_nonce record) \<noteq> NONCE_LEN then raise (ApiInternal NonceLength)
      else
        bind (version_dek E name version record) (\<lambda>dek.
        check (from_core_error (open_sealed (e_aead E) dek (vr_nonce record) aad (vr_ciphertext record)))))"

definition load_userpass :: "('b, 's) env \<Rightarrow> string \<Rightarrow> i32 \<Rightarrow> ('s, UserPass) api" where
  "load_userpass E name version =
     bind (read_store E (\<lambda>cd. reader_version cd name version)) (\<lambda>found.
     bind (check (ok_or (ApiInternal MissingVersionRow) found)) (\<lambda>record.
     bind (open_version E name version record) (\<lambda>plaintext.
     check (decode_userpass E plaintext))))"

definition load_current_userpass :: "('b, 's) env \<Rightarrow> string \<Rightarrow> ('s, UserPass) api" where
  "load_current_userpass E name =
     bind (read_store E (\<lambda>cd. reader_current_version cd name)) (\<lambda>found.
     bind (check (ok_or (ApiInternal (LoginSecretNotFound name)) found)) (\<lambda>(_, version).
     bind (open_version E name (vr_version version) version) (\<lambda>plaintext.
     check (decode_userpass E plaintext))))"

definition to_metadata :: "('b, 's) env \<Rightarrow> SecretRecord \<Rightarrow> SecretMetadata" where
  "to_metadata E secret =
     \<lparr>md_name = sr_name secret, md_kind = sr_kind secret, md_format = sr_format secret,
      md_description = sr_description secret, md_version = sr_current_version secret,
      md_rotation_interval_secs = sr_rotation_interval_secs secret,
      md_grace_period_secs = sr_grace_secs secret,
      md_next_rotation_at = rfc3339_opt E (sr_next_rotation_at secret),
      md_created_at = rfc3339 E (sr_created_at secret), md_updated_at = rfc3339 E (sr_updated_at secret),
      md_target = sr_target secret\<rparr>"

definition load_secret :: "('b, 's) env \<Rightarrow> string \<Rightarrow> ('s, SecretRecord) api" where
  "load_secret E name =
     bind (read_store E (\<lambda>cd. reader_secret cd name)) (\<lambda>found. check (ok_or ApiNotFound found))"

definition load_metadata :: "('b, 's) env \<Rightarrow> string \<Rightarrow> ('s, SecretMetadata) api" where
  "load_metadata E name = bind (load_secret E name) (\<lambda>secret. ret (to_metadata E secret))"

section \<open>Handlers\<close>

definition create_secret :: "('b, 's) env \<Rightarrow> string \<Rightarrow> CreateSecretRequest \<Rightarrow> ('s, SecretValue) api" where
  "create_secret E actor req =
     bind (check (validate_name (cs_name req))) (\<lambda>_.
     bind (check (normalize_grace (cs_grace_period_secs req))) (\<lambda>grace.
     bind (case cs_target req of None \<Rightarrow> ret () | Some target \<Rightarrow> validate_target E target) (\<lambda>_.
     bind (case cs_rotation_interval_secs req of None \<Rightarrow> ret () | Some secs \<Rightarrow> check (validate_interval secs)) (\<lambda>_.
     if cs_kind req = Automatic \<and> cs_rotation_interval_secs req = None
     then raise (BadRequest AutomaticNeedsInterval)
     else
       bind (build_create_payload E req) (\<lambda>payload.
       bind (now_unix E) (\<lambda>now.
       bind (seal_version E (cs_name req) 1 (pl_bytes payload) now) (\<lambda>version.
       let next_rotation_at =
             (if cs_kind req = Automatic
              then map_option (next_rotation_unix now) (cs_rotation_interval_secs req) else None);
           secret =
             \<lparr>sr_name = cs_name req, sr_kind = cs_kind req, sr_format = pl_format payload,
              sr_description = cs_description req,
              sr_rotation_interval_secs = cs_rotation_interval_secs req, sr_grace_secs = grace,
              sr_current_version = 1, sr_next_rotation_at = next_rotation_at, sr_created_at = now,
              sr_updated_at = now, sr_target = cs_target req\<rparr>
       in
       bind (write_store E (CreateSecret secret version)) (\<lambda>_.
       bind (audit E (Some actor) None ''create'' (Some (cs_name req)) ''ok'') (\<lambda>_.
       ret \<lparr>sv_name = cs_name req, sv_kind = cs_kind req, sv_format = pl_format payload, sv_version = 1,
            sv_value = pl_value payload, sv_username = pl_username payload,
            sv_password = pl_password payload, sv_created_at = rfc3339 E now\<rparr>)))))))))"

definition read_value :: "('b, 's) env \<Rightarrow> string \<Rightarrow> Ipv4Addr \<Rightarrow> SecretRecord \<Rightarrow> VersionRecord \<Rightarrow> ('s, SecretValue) api" where
  "read_value E name client_ip secret version =
     bind (open_version E name (vr_version version) version) (\<lambda>plaintext.
     bind (check (decode_payload E (sr_format secret) plaintext)) (\<lambda>(v, username, password).
     bind (audit E None (Some client_ip) ''get'' (Some name) ''ok'') (\<lambda>_.
     ret \<lparr>sv_name = name, sv_kind = sr_kind secret, sv_format = sr_format secret,
          sv_version = vr_version version, sv_value = v, sv_username = username,
          sv_password = password, sv_created_at = rfc3339 E (vr_created_at version)\<rparr>)))"

definition get_secret :: "('b, 's) env \<Rightarrow> string \<Rightarrow> Ipv4Addr \<Rightarrow> ('s, SecretValue) api" where
  "get_secret E name client_ip =
     bind (check (known_name name)) (\<lambda>_.
     bind (read_store E (\<lambda>cd. reader_current_version cd name)) (\<lambda>found.
     case found of
       None \<Rightarrow>
         bind (audit E None (Some client_ip) ''get'' (Some name) ''not_found'') (\<lambda>_. raise ApiNotFound)
     | Some (secret, version) \<Rightarrow> read_value E name client_ip secret version))"

definition service_list_secrets :: "('b, 's) env \<Rightarrow> ('s, SecretMetadata list) api" where
  "service_list_secrets E =
     bind (read_store E list_secrets) (\<lambda>secrets. ret (map (to_metadata E) secrets))"

fun get_each :: "('b, 's) env \<Rightarrow> Ipv4Addr \<Rightarrow> string list \<Rightarrow> SecretValue list \<Rightarrow> ('s, SecretValue list) api" where
  "get_each E client_ip [] out = ret out"
| "get_each E client_ip (name # names) out =
     (if \<not> is_ok (known_name name)
      then
        bind (audit E None (Some client_ip) ''get'' (Some name) ''not_found'') (\<lambda>_.
        get_each E client_ip names out)
      else
        bind (read_store E (\<lambda>cd. reader_current_version cd name)) (\<lambda>found.
        case found of
          Some (secret, version) \<Rightarrow>
            bind (read_value E name client_ip secret version) (\<lambda>v. get_each E client_ip names (out @ [v]))
        | None \<Rightarrow>
            bind (audit E None (Some client_ip) ''get'' (Some name) ''not_found'') (\<lambda>_.
            get_each E client_ip names out)))"

definition get_secrets :: "('b, 's) env \<Rightarrow> string list \<Rightarrow> Ipv4Addr \<Rightarrow> ('s, SecretValue list) api" where
  "get_secrets E names client_ip =
     (if length names > MAX_BATCH then raise (BadRequest (BatchTooLarge (length names)))
      else get_each E client_ip names [])"

definition next_version_of :: "i32 \<Rightarrow> ApiError + i32" where
  "next_version_of current = ok_or (ApiConflict TooManyVersions) (next_version current)"

definition update_bytes ::
  "('b, 's) env \<Rightarrow> string \<Rightarrow> SecretRecord \<Rightarrow> UpdateSecretRequest \<Rightarrow> ('s, bytes) api" where
  "update_bytes E name secret req =
     (case sr_format secret of
        Opaque \<Rightarrow>
          (let v = unwrap_or [] (us_value req) in
           bind (check (validate_value v)) (\<lambda>_. ret (as_bytes v)))
      | Userpass \<Rightarrow>
          bind (load_userpass E name (sr_current_version secret)) (\<lambda>current.
          let username = unwrap_or (up_username current) (us_username req);
              password = unwrap_or (up_password current) (us_password req)
          in
          bind (check (validate_field ''username'' username)) (\<lambda>_.
          bind (check (validate_field ''password'' password)) (\<lambda>_.
          ret (encode_userpass E username password)))))"

definition update_secret ::
  "('b, 's) env \<Rightarrow> string \<Rightarrow> string \<Rightarrow> UpdateSecretRequest \<Rightarrow> ('s, SecretMetadata) api" where
  "update_secret E actor name req =
     bind (case us_rotation_interval_secs req of None \<Rightarrow> ret () | Some secs \<Rightarrow> check (validate_interval secs)) (\<lambda>_.
     bind (case us_grace_period_secs req of
             None \<Rightarrow> ret () | Some secs \<Rightarrow> bind (check (normalize_grace (Some secs))) (\<lambda>_. ret ())) (\<lambda>_.
     bind (load_secret E name) (\<lambda>secret.
     let current_version = sr_current_version secret;
         userpass_given = (us_username req \<noteq> None \<or> us_password req \<noteq> None) in
     if sr_format secret = Opaque \<and> userpass_given then raise (BadRequest OpaqueTakesValue)
     else if sr_format secret = Userpass \<and> us_value req \<noteq> None then raise (BadRequest UserpassTakesFields)
     else
       let secret_changed = (case sr_format secret of Opaque \<Rightarrow> us_value req \<noteq> None | Userpass \<Rightarrow> userpass_given) in
       bind (now_unix E) (\<lambda>now.
       let effective_interval =
             (case us_rotation_interval_secs req of
                Some secs \<Rightarrow> secs | None \<Rightarrow> unwrap_or 0 (sr_rotation_interval_secs secret)) in
       bind (if secret_changed
             then
               bind (update_bytes E name secret req) (\<lambda>bs.
               bind (check (next_version_of current_version)) (\<lambda>new_version.
               bind (seal_version E name new_version bs now) (\<lambda>version.
               ret (PutVersion name current_version version
                      (Some (grace_expiry_unix now (sr_grace_secs secret)))
                      (us_description req) (us_rotation_interval_secs req) (us_grace_period_secs req)
                      (if sr_kind secret = Automatic
                       then Set (Some (next_rotation_unix now effective_interval)) else Keep)
                      now))))
             else
               ret (UpdateMeta name current_version (us_description req)
                      (us_rotation_interval_secs req) (us_grace_period_secs req)
                      (if sr_kind secret = Automatic \<and> us_rotation_interval_secs req \<noteq> None
                       then Set (Some (next_rotation_unix now effective_interval)) else Keep)
                      now)) (\<lambda>command.
       bind (write_store E command) (\<lambda>_.
       bind (audit E (Some actor) None ''update'' (Some name) ''ok'') (\<lambda>_.
       load_metadata E name)))))))"

definition delete_secret :: "('b, 's) env \<Rightarrow> string \<Rightarrow> string \<Rightarrow> ('s, unit) api" where
  "delete_secret E actor name =
     bind (write_store E (DeleteSecret name)) (\<lambda>_.
     audit E (Some actor) None ''delete'' (Some name) ''ok'')"

section \<open>Rotation\<close>

fun login_of_versions :: "('b, 's) env \<Rightarrow> string \<Rightarrow> i32 list \<Rightarrow> UserPass list \<Rightarrow> ('s, UserPass list) api" where
  "login_of_versions E name [] out = ret out"
| "login_of_versions E name (version # versions) out =
     bind (read_store E (\<lambda>cd. reader_version cd name version)) (\<lambda>found.
     case found of
       None \<Rightarrow> login_of_versions E name versions out
     | Some record \<Rightarrow>
         bind (open_version E name version record) (\<lambda>plaintext.
         login_of_versions E name versions
           (case decode_userpass E plaintext of Inr login \<Rightarrow> out @ [login] | Inl _ \<Rightarrow> out)))"

fun push_versions :: "i32 list \<Rightarrow> VersionRecord list \<Rightarrow> i32 list" where
  "push_versions versions [] = versions"
| "push_versions versions (record # records) =
     push_versions (if vr_version record \<in> set versions then versions else versions @ [vr_version record]) records"

definition self_login_candidates :: "('b, 's) env \<Rightarrow> string \<Rightarrow> i32 \<Rightarrow> i64 \<Rightarrow> ('s, UserPass list) api" where
  "self_login_candidates E name previous_version now =
     bind (read_store E (\<lambda>cd. live_versions cd name now)) (\<lambda>live.
     login_of_versions E name (take MAX_LOGIN_CANDIDATES (push_versions [previous_version] live)) [])"

fun try_logins ::
  "('b, 's) env \<Rightarrow> PgRoleTarget \<Rightarrow> string \<Rightarrow> string \<Rightarrow> UserPass list \<Rightarrow> pg_error option \<Rightarrow> ('s, pg_error option) api" where
  "try_logins E pg role new_password [] last_err = ret last_err"
| "try_logins E pg role new_password (login # logins) last_err =
     bind (pg_apply E pg (up_username login) (up_password login) role new_password) (\<lambda>res.
     case res of
       Inr _ \<Rightarrow> ret None
     | Inl err \<Rightarrow> try_logins E pg role new_password logins (Some err))"

definition apply_target ::
  "('b, 's) env \<Rightarrow> string \<Rightarrow> i32 \<Rightarrow> i64 \<Rightarrow> RotationTarget \<Rightarrow> string \<Rightarrow> string \<Rightarrow> ('s, unit) api" where
  "apply_target E name previous_version now target role_username new_password =
     (case target of PgReplica pg \<Rightarrow>
        bind (case pg_login_secret pg of
                Some login \<Rightarrow>
                  (if login \<noteq> name then bind (load_current_userpass E login) (\<lambda>up. ret [up])
                   else self_login_candidates E name previous_version now)
              | None \<Rightarrow> self_login_candidates E name previous_version now) (\<lambda>logins.
        if logins = [] then raise (ApiInternal (NoCredential name))
        else
          bind (try_logins E pg (unwrap_or role_username (pg_role pg)) new_password logins None) (\<lambda>last_err.
          case last_err of
            None \<Rightarrow> ret ()
          | Some err \<Rightarrow> raise (ApiInternal (PgApplyFailed err)))))"

definition schedule_apply_retry :: "('b, 's) env \<Rightarrow> string \<Rightarrow> i32 \<Rightarrow> i64 \<Rightarrow> ('s, unit) api" where
  "schedule_apply_retry E name current_version now =
     ignore (write_store E (UpdateMeta name current_version None None None
       (Set (Some (next_rotation_unix now APPLY_RETRY_SECS))) now))"

definition rotate_payload :: "('b, 's) env \<Rightarrow> string \<Rightarrow> SecretRecord \<Rightarrow> ('s, Payload) api" where
  "rotate_payload E name secret =
     (case sr_format secret of
        Opaque \<Rightarrow>
          bind (generate_token E) (\<lambda>v.
          ret \<lparr>pl_format = Opaque, pl_bytes = as_bytes v, pl_value = Some v,
               pl_username = None, pl_password = None\<rparr>)
      | Userpass \<Rightarrow>
          bind (load_userpass E name (sr_current_version secret)) (\<lambda>current.
          bind (generate_token E) (\<lambda>password.
          ret \<lparr>pl_format = Userpass, pl_bytes = encode_userpass E (up_username current) password,
               pl_value = None, pl_username = Some (up_username current), pl_password = Some password\<rparr>)))"

text \<open>The first half of a rotation, up to the commit, and the second, on the external system.\<close>

definition rotate_commit ::
  "('b, 's) env \<Rightarrow> string \<Rightarrow> ('s, SecretRecord \<times> i32 \<times> i64 \<times> Payload) api" where
  "rotate_commit E name =
     bind (load_secret E name) (\<lambda>secret.
     if sr_kind secret \<noteq> Automatic then raise (BadRequest OnlyAutomaticRotates)
     else
       let current_version = sr_current_version secret in
       bind (check (next_version_of current_version)) (\<lambda>new_version.
       bind (now_unix E) (\<lambda>now.
       bind (rotate_payload E name secret) (\<lambda>payload.
       bind (seal_version E name new_version (pl_bytes payload) now) (\<lambda>version.
       let interval = unwrap_or 0 (sr_rotation_interval_secs secret) in
       bind (write_store E (PutVersion name current_version version
               (Some (grace_expiry_unix now (sr_grace_secs secret))) None None None
               (Set (Some (next_rotation_unix now interval))) now)) (\<lambda>_.
       ret (secret, new_version, now, payload)))))))"

definition rotate ::
  "('b, 's) env \<Rightarrow> string \<Rightarrow> Ipv4Addr option \<Rightarrow> string \<Rightarrow> ('s, SecretValue) api" where
  "rotate E actor client_ip name =
     bind (rotate_commit E name) (\<lambda>(secret, new_version, now, payload).
     bind (case sr_target secret of
             Some target \<Rightarrow>
               (if sr_format secret = Userpass
                then
                  bind (catch (apply_target E name (sr_current_version secret) now target
                          (unwrap_or [] (pl_username payload)) (unwrap_or [] (pl_password payload)))) (\<lambda>res.
                  case res of
                    Inr _ \<Rightarrow> ret ()
                  | Inl err \<Rightarrow>
                      bind (schedule_apply_retry E name new_version now) (\<lambda>_.
                      bind (audit E (Some actor) client_ip ''rotate'' (Some name) ''apply_failed'') (\<lambda>_.
                      raise err)))
                else ret ())
           | None \<Rightarrow> ret ()) (\<lambda>_.
     bind (audit E (Some actor) client_ip ''rotate'' (Some name) ''ok'') (\<lambda>_.
     ret \<lparr>sv_name = name, sv_kind = sr_kind secret, sv_format = sr_format secret, sv_version = new_version,
          sv_value = pl_value payload, sv_username = pl_username payload,
          sv_password = pl_password payload, sv_created_at = rfc3339 E now\<rparr>)))"

section \<open>Verification\<close>

definition presented_matches :: "('b, 's) env \<Rightarrow> SecretFormat \<Rightarrow> string \<Rightarrow> bytes \<Rightarrow> bool" where
  "presented_matches E format presented plaintext =
     (case format of
        Opaque \<Rightarrow> fingerprints_match (as_bytes presented) plaintext
      | Userpass \<Rightarrow>
          (case decode_userpass E plaintext of
             Inr up \<Rightarrow> fingerprints_match (as_bytes presented) (as_bytes (up_password up))
           | Inl _ \<Rightarrow> False))"

fun find_match ::
  "('b, 's) env \<Rightarrow> string \<Rightarrow> SecretFormat \<Rightarrow> string \<Rightarrow> VersionRecord list \<Rightarrow> ('s, i32 option) api" where
  "find_match E name format presented [] = ret None"
| "find_match E name format presented (version # versions) =
     bind (open_version E name (vr_version version) version) (\<lambda>plaintext.
     if presented_matches E format presented plaintext then ret (Some (vr_version version))
     else find_match E name format presented versions)"

definition verify_invalid ::
  "('b, 's) env \<Rightarrow> string \<Rightarrow> Ipv4Addr \<Rightarrow> IpAddr \<Rightarrow> ('s, VerifyResponse) api" where
  "verify_invalid E name client_ip peer_ip =
     bind (audit E None (Some client_ip) ''verify'' (Some name) ''invalid'') (\<lambda>_.
     bind (record_verify E peer_ip name) (\<lambda>_.
     ret \<lparr>vf_valid = False, vf_version = None\<rparr>))"

definition verify ::
  "('b, 's) env \<Rightarrow> string \<Rightarrow> Ipv4Addr \<Rightarrow> IpAddr \<Rightarrow> string \<Rightarrow> ('s, VerifyResponse) api" where
  "verify E name client_ip peer_ip presented =
     bind (check (known_name name)) (\<lambda>_.
     bind (check_verify E peer_ip name) (\<lambda>_.
     if presented = [] then verify_invalid E name client_ip peer_ip
     else
       bind (now_unix E) (\<lambda>now.
       bind (read_store E (\<lambda>cd. reader_secret cd name)) (\<lambda>found.
       bind (case found of
               None \<Rightarrow> ret None
             | Some secret \<Rightarrow>
                 bind (read_store E (\<lambda>cd. live_versions cd name now)) (\<lambda>versions.
                 find_match E name (sr_format secret) presented versions)) (\<lambda>matched.
       case matched of
         Some version \<Rightarrow>
           bind (audit E None (Some client_ip) ''verify'' (Some name) ''valid'') (\<lambda>_.
           ret \<lparr>vf_valid = True, vf_version = Some version\<rparr>)
       | None \<Rightarrow> verify_invalid E name client_ip peer_ip)))))"

end
