(* ===== verification/Service_Invariant.thy ===== *)
theory Service_Invariant
  imports Service
begin

text \<open>
  Invariants of the handlers of \<open>service.rs\<close>. Every handler keeps every invariant of the
  interface \<open>api_invariant\<close>, whatever other requests do in between, because the
  commands it issues are admissible. Instances are the invariant of the store, the soundness of
  the cache of data keys, and the confinement of connections to rotation targets.
\<close>

section \<open>Every handler keeps every invariant\<close>

context api_core begin

lemma keeps_seal_version:
  "keeps I (seal_version E name v bs now) (\<lambda>r. vr_version r = v \<and> vr_expires_at r = None)"
  unfolding seal_version_def by (intro keep_intro) simp

lemma keep_version_dek [keep_intro]: "keep I (version_dek E name v r)"
proof -
  let ?call = "\<lambda>n. km_decrypt_data_key (e_kms E) n (vr_wrapped_dek r) (vr_kms_key_id r) (version_context name v)"
  have "keep I (bind (kms_call ?call) (\<lambda>dek. bind (cache_store E (vr_wrapped_dek r) dek) (\<lambda>_. ret dek)))"
  proof (rule keeps_bind)
    show "keeps I (kms_call ?call) (\<lambda>dek. \<exists>n. ?call n = Inr dek)" by (rule keeps_kms_call) blast
  qed (auto intro!: keep_bind keep_cache_store keeps_ret)
  then show ?thesis unfolding version_dek_def
    by (intro keep_bind [OF keep_cache_lookup] keeps_case_option keeps_ret) simp_all
qed

lemma keep_open_version [keep_intro]: "keep I (open_version E name v r)"
  unfolding open_version_def by (intro keep_intro)

lemma keep_loads [keep_intro]:
  "keep I (load_userpass E name v)" "keep I (load_current_userpass E name)"
  "keep I (load_secret E name)" "keep I (load_metadata E name)"
  unfolding load_userpass_def load_current_userpass_def load_metadata_def load_secret_def
  by (intro keep_intro; simp)+

lemma keep_validate_target [keep_intro]: "keep I (validate_target E target)"
  unfolding validate_target_def by (intro keep_intro) simp_all

lemma keep_build_create_payload [keep_intro]: "keep I (build_create_payload E req)"
  unfolding build_create_payload_def by (intro keep_intro) simp_all

lemma keep_read_value [keep_intro]: "keep I (read_value E name ip s v)"
  unfolding read_value_def by (intro keep_intro) simp

lemma keep_get_secret [keep_intro]: "keep I (get_secret E name ip)"
  unfolding get_secret_def by (intro keep_intro)

lemma keep_list_secrets [keep_intro]: "keep I (service_list_secrets E)"
  unfolding service_list_secrets_def by (intro keep_intro) simp

lemma keep_get_secrets [keep_intro]: "keep I (get_secrets E names ip)"
proof -
  have "keep I (get_each E ip names out)" for out
  proof (induction names arbitrary: out)
    case (Cons name names)
    then show ?case unfolding get_each.simps by (intro keep_intro)
  qed (simp add: keeps_ret)
  then show ?thesis unfolding get_secrets_def by (intro keep_intro)
qed

lemma keep_update_bytes [keep_intro]: "keep I (update_bytes E name s req)"
  unfolding update_bytes_def by (intro keep_intro) simp_all

lemma keeps_next_version: "keeps I (check (next_version_of c)) (\<lambda>v. next_version c = Some v)"
  by (simp add: keeps_def next_version_of_def ok_or_def split: option.splits)

lemma keep_self_login_candidates [keep_intro]: "keep I (self_login_candidates E name v now)"
proof -
  have "keep I (login_of_versions E name vs out)" for vs out
  proof (induction vs arbitrary: out)
    case (Cons v vs)
    then show ?case unfolding login_of_versions.simps by (intro keep_intro)
  qed (simp add: keeps_ret)
  then show ?thesis unfolding self_login_candidates_def by (intro keep_intro)
qed

lemma keep_rotate_payload [keep_intro]: "keep I (rotate_payload E name s)"
  unfolding rotate_payload_def by (intro keep_intro) simp_all

lemma keep_verify [keep_intro]: "keep I (verify E name ip peer presented)"
proof -
  have f [keep_intro]: "keep I (find_match E name fmt presented vs)" for fmt vs
  proof (induction vs)
    case (Cons v vs)
    then show ?case unfolding find_match.simps by (intro keep_intro) simp
  qed (simp only: find_match.simps, rule keeps_ret, simp)
  have i: "keep I (verify_invalid E name ip peer)"
    unfolding verify_invalid_def by (intro keep_intro) simp
  show ?thesis unfolding verify_def by (intro keep_intro f i) simp_all
qed

end

context api_writer begin

lemma keep_create_secret [keep_intro]: "keep I (create_secret E actor req)"
  unfolding create_secret_def
  by (intro keep_intro keeps_bind [OF keeps_seal_version] keep_admissible)
     (simp_all add: command_ok_def i32_max_def)

lemma keep_update_secret [keep_intro]: "keep I (update_secret E actor name req)"
proof -
  have cmd: "keeps I (if changed
      then bind (update_bytes E name s req) (\<lambda>bs.
           bind (check (next_version_of ec)) (\<lambda>v.
           bind (seal_version E name v bs now) (\<lambda>r. ret (PutVersion name ec r ex d i g nxt now))))
      else ret (UpdateMeta name ec d i g nxt' now)) (command_ok (e_codec E))" for changed s ec now ex d i g nxt nxt'
    by (intro keeps_if keep_bind [OF keep_update_bytes] keeps_bind [OF keeps_next_version]
        keeps_bind [OF keeps_seal_version] keeps_ret) (simp_all add: command_ok_def)
  show ?thesis
    unfolding update_secret_def
    by (intro keep_intro keeps_bind [OF cmd] keep_admissible) simp_all
qed

lemma keep_delete_secret [keep_intro]: "keep I (delete_secret E actor name)"
  unfolding delete_secret_def by (intro keep_intro keep_admissible) (simp add: command_ok_def)

lemma keep_schedule_apply_retry [keep_intro]: "keep I (schedule_apply_retry E name v now)"
  unfolding schedule_apply_retry_def by (intro keep_intro keep_admissible) (simp add: command_ok_def)

lemma keep_rotate_commit [keep_intro]: "keep I (rotate_commit E name)"
  unfolding rotate_commit_def
  by (intro keep_intro keeps_bind [OF keeps_next_version] keeps_bind [OF keeps_seal_version] keep_admissible)
     (simp_all add: command_ok_def)

end

context api_target begin

lemma keep_try_logins [keep_intro]: "keep I (try_logins E pg role pw logins e)"
proof (induction logins arbitrary: e)
  case (Cons l ls)
  then show ?case by simp (intro keep_intro; simp)
qed (simp add: keeps_ret)

lemma keep_apply_target [keep_intro]: "keep I (apply_target E name v now target user pw)"
  unfolding apply_target_def by (intro keep_intro) simp_all

end

context api_invariant begin

lemma keep_rotate [keep_intro]: "keep I (rotate E actor ip name)"
  unfolding rotate_def by (intro keep_intro) simp_all

end

end
