(* ===== verification/Rewrap.thy ===== *)
theory Rewrap
  imports Service_Invariant
begin

text \<open>
  \<open>rewrap.rs\<close>, \<open>rewrap_worker.rs\<close> and \<open>rotation_worker.rs\<close>: re-wrapping the data
  keys of live versions after a rotation of the master key, and the two background workers. A
  worker's tick is modelled; the loop around it only waits for the next tick and logs a failed
  one, and \<open>pace\<close> only sleeps.
\<close>

abbreviation any_store :: "StoreError \<Rightarrow> ApiError" where
  "any_store e \<equiv> ApiInternal (AnyStore e)"

record RewrapSummary =
  su_scanned :: nat
  su_rewrapped :: nat
  su_failed :: nat

definition needs_rewrap :: "VersionRecord \<Rightarrow> i64 \<Rightarrow> bool" where
  "needs_rewrap version target =
     (case vr_wrapped_rotation_at version of None \<Rightarrow> True | Some current \<Rightarrow> current < target)"

definition target_rotation :: "('b, 's) env \<Rightarrow> ('s, i64 option) api" where
  "target_rotation E = kms_call (km_latest_rotation_at (e_kms E))"

definition rewrap_one :: "('b, 's) env \<Rightarrow> string \<Rightarrow> VersionRecord \<Rightarrow> i64 \<Rightarrow> ('s, unit) api" where
  "rewrap_one E name version target =
     bind (kms_call (\<lambda>n. km_reencrypt_data_key (e_kms E) n (vr_wrapped_dek version) (vr_kms_key_id version)
             (version_context name (vr_version version)))) (\<lambda>(wrapped_dek, kms_key_id).
     write_with any_store E (RewrapVersion name (vr_version version) kms_key_id wrapped_dek target))"

fun rewrap_versions ::
  "('b, 's) env \<Rightarrow> i64 \<Rightarrow> string \<Rightarrow> VersionRecord list \<Rightarrow> RewrapSummary \<Rightarrow> ('s, RewrapSummary) api" where
  "rewrap_versions E target name [] summary = ret summary"
| "rewrap_versions E target name (version # versions) summary =
     (let summary = summary\<lparr>su_scanned := Suc (su_scanned summary)\<rparr> in
      if \<not> needs_rewrap version target then rewrap_versions E target name versions summary
      else
        bind (catch (rewrap_one E name version target)) (\<lambda>res.
        rewrap_versions E target name versions
          (case res of
             Inr _ \<Rightarrow> summary\<lparr>su_rewrapped := Suc (su_rewrapped summary)\<rparr>
           | Inl _ \<Rightarrow> summary\<lparr>su_failed := Suc (su_failed summary)\<rparr>)))"

fun rewrap_secrets ::
  "('b, 's) env \<Rightarrow> i64 \<Rightarrow> i64 \<Rightarrow> SecretRecord list \<Rightarrow> RewrapSummary \<Rightarrow> ('s, RewrapSummary) api" where
  "rewrap_secrets E target now [] summary = ret summary"
| "rewrap_secrets E target now (secret # secrets) summary =
     bind (read_with any_store E (\<lambda>cd. live_versions cd (sr_name secret) now)) (\<lambda>versions.
     bind (rewrap_versions E target (sr_name secret) versions summary) (\<lambda>summary.
     rewrap_secrets E target now secrets summary))"

definition guarded_pass :: "('b, 's) env \<Rightarrow> i64 \<Rightarrow> ('s, RewrapSummary) api" where
  "guarded_pass E target =
     bind (now_unix E) (\<lambda>now.
     bind (read_with any_store E list_secrets) (\<lambda>secrets.
     rewrap_secrets E target now secrets \<lparr>su_scanned = 0, su_rewrapped = 0, su_failed = 0\<rparr>))"

text \<open>The flag is set first, and the guard clears it whatever the pass returns.\<close>

definition run_pass :: "('b, 's) env \<Rightarrow> i64 \<Rightarrow> ('s, RewrapSummary) api" where
  "run_pass E target w =
     (if w_rewrap_busy w then (Inl (ApiInternal RewrapBusy), w)
      else
        (case guarded_pass E target (w\<lparr>w_rewrap_busy := True\<rparr>) of
           (res, w') \<Rightarrow> (res, w'\<lparr>w_rewrap_busy := False\<rparr>)))"

definition persist_completed :: "('b, 's) env \<Rightarrow> i64 \<Rightarrow> ('s, unit) api" where
  "persist_completed E target =
     bind (now_unix E) (\<lambda>now.
     write_with any_store E (SetKmsRewrapState
       \<lparr>ks_last_completed_rotation_at = target, ks_last_swept_at = now, ks_updated_at = now\<rparr>))"

definition rewrap_force :: "('b, 's) env \<Rightarrow> ('s, RewrapRunResponse) api" where
  "rewrap_force E =
     bind (target_rotation E) (\<lambda>latest.
     let target = unwrap_or 0 latest in
     bind (run_pass E target) (\<lambda>summary.
     bind (if su_failed summary = 0 \<and> target > 0 then persist_completed E target else ret ()) (\<lambda>_.
     ret \<lparr>rw_scanned = su_scanned summary, rw_rewrapped = su_rewrapped summary, rw_failed = su_failed summary,
          rw_target_rotation_at = (if target > 0 then Some (rfc3339 E target) else None)\<rparr>)))"

fun count_pending ::
  "('b, 's) env \<Rightarrow> i64 \<Rightarrow> i64 \<Rightarrow> SecretRecord list \<Rightarrow> nat \<times> nat \<Rightarrow> ('s, nat \<times> nat) api" where
  "count_pending E target now [] counts = ret counts"
| "count_pending E target now (secret # secrets) (seen, pending) =
     bind (read_with any_store E (\<lambda>cd. live_versions cd (sr_name secret) now)) (\<lambda>versions.
     count_pending E target now secrets
       (seen + length versions, pending + length (filter (\<lambda>v. needs_rewrap v target) versions)))"

definition rewrap_status :: "('b, 's) env \<Rightarrow> ('s, RewrapStatusResponse) api" where
  "rewrap_status E =
     bind (read_with any_store E kms_rewrap_state) (\<lambda>persisted.
     bind (catch (target_rotation E)) (\<lambda>res.
     let latest = (case res of Inr l \<Rightarrow> l | Inl _ \<Rightarrow> None);
         last_completed = (case persisted of Some s \<Rightarrow> ks_last_completed_rotation_at s | None \<Rightarrow> 0);
         target = unwrap_or last_completed latest in
     bind (now_unix E) (\<lambda>now.
     bind (read_with any_store E list_secrets) (\<lambda>secrets.
     bind (count_pending E target now secrets (0, 0)) (\<lambda>(seen, pending).
     bind (\<lambda>w. (Inr (w_rewrap_busy w), w)) (\<lambda>busy.
     ret \<lparr>rs_enabled = e_kms_rewrap_enabled E, rs_busy = busy,
          rs_last_completed_rotation_at = (if last_completed > 0 then Some (rfc3339 E last_completed) else None),
          rs_latest_rotation_at = map_option (rfc3339 E) latest,
          rs_total_versions = seen, rs_pending_versions = pending\<rparr>))))))"

section \<open>Workers\<close>

definition is_leader :: "('b, 's) env \<Rightarrow> ('s, bool) api" where
  "is_leader E =
     (if \<not> e_clustered E then ret True
      else numbered (\<lambda>n. Inr (e_current_leader E n = Some (e_node_id E))))"

definition rewrap_tick :: "('b, 's) env \<Rightarrow> ('s, unit) api" where
  "rewrap_tick E =
     bind (is_leader E) (\<lambda>leader.
     if \<not> leader then ret ()
     else
       bind (target_rotation E) (\<lambda>latest.
       bind (read_with any_store E kms_rewrap_state) (\<lambda>persisted.
       case persisted of
         None \<Rightarrow> persist_completed E (unwrap_or 0 latest)
       | Some p \<Rightarrow>
           (case latest of
              None \<Rightarrow> ret ()
            | Some target \<Rightarrow>
                (if target \<le> ks_last_completed_rotation_at p then ret ()
                 else
                   bind (run_pass E target) (\<lambda>summary.
                   if su_failed summary = 0 then persist_completed E target else ret ()))))))"

fun rotate_each :: "('b, 's) env \<Rightarrow> SecretRecord list \<Rightarrow> ('s, unit) api" where
  "rotate_each E [] = ret ()"
| "rotate_each E (secret # secrets) =
     bind (ignore (rotate E ''rotation-worker'' None (sr_name secret))) (\<lambda>_.
     rotate_each E secrets)"

definition rotation_tick :: "('b, 's) env \<Rightarrow> ('s, unit) api" where
  "rotation_tick E =
     bind (is_leader E) (\<lambda>leader.
     if \<not> leader then ret ()
     else
       bind (now_unix E) (\<lambda>now.
       bind (write_with any_store E (ExpireGraceVersions now)) (\<lambda>_.
       bind (now_unix E) (\<lambda>now'.
       bind (read_with any_store E (\<lambda>cd. due_rotations cd now')) (\<lambda>due.
       rotate_each E due)))))"

section \<open>Invariants\<close>

context api_core begin

lemma keep_target_rotation [keep_intro]: "keep I (target_rotation E)"
  unfolding target_rotation_def by (intro keep_intro)

lemma keep_rewrap_status [keep_intro]: "keep I (rewrap_status E)"
proof -
  have c: "keep I (count_pending E target now ss cs)" for target now ss cs
  proof (induction ss arbitrary: cs)
    case (Cons s ss)
    obtain t p where "cs = (t, p)" by (cases cs)
    then show ?case using Cons by (simp only: count_pending.simps) (intro keep_intro)
  qed (simp only: count_pending.simps, rule keeps_ret, simp)
  have b: "keep I (\<lambda>w. (Inr (w_rewrap_busy w), w))" by (simp add: keeps_def)
  show ?thesis unfolding rewrap_status_def by (intro keep_intro c b) simp
qed

lemma keep_is_leader [keep_intro]: "keep I (is_leader E)"
  unfolding is_leader_def by (intro keep_intro keeps_numbered) simp_all

end

context api_invariant begin

lemma keep_persist_completed [keep_intro]: "keep I (persist_completed E target)"
  unfolding persist_completed_def by (intro keep_intro keep_admissible) (simp add: command_ok_def)

lemma keep_rewrap_one [keep_intro]: "keep I (rewrap_one E name v target)"
  unfolding rewrap_one_def by (intro keep_intro keep_admissible) (simp add: command_ok_def)

lemma keep_rewrap_versions [keep_intro]: "keep I (rewrap_versions E target name vs su)"
proof (induction vs arbitrary: su)
  case (Cons v vs)
  then show ?case unfolding rewrap_versions.simps by (intro keep_intro)
qed (simp only: rewrap_versions.simps, rule keeps_ret, simp)

lemma keep_rewrap_secrets [keep_intro]: "keep I (rewrap_secrets E target now ss su)"
proof (induction ss arbitrary: su)
  case (Cons s ss)
  then show ?case unfolding rewrap_secrets.simps by (intro keep_intro)
qed (simp only: rewrap_secrets.simps, rule keeps_ret, simp)

lemma keep_run_pass [keep_intro]: "keep I (run_pass E target)"
proof -
  have g: "keep I (guarded_pass E target)" unfolding guarded_pass_def by (intro keep_intro)
  have "I (snd (run_pass E target w))" if "I w" for w
    using keepsD [OF g on_busy [OF that, of True]] that
    by (auto simp: run_pass_def on_busy split: prod.splits)
  then show ?thesis by (simp add: keeps_def)
qed

lemma keep_rewrap_force [keep_intro]: "keep I (rewrap_force E)"
  unfolding rewrap_force_def by (intro keep_intro) simp_all

lemma keep_rewrap_tick [keep_intro]: "keep I (rewrap_tick E)"
  unfolding rewrap_tick_def by (intro keep_intro) simp_all

lemma keep_rotation_tick [keep_intro]: "keep I (rotation_tick E)"
proof -
  have r: "keep I (rotate_each E ss)" for ss
  proof (induction ss)
    case (Cons s ss)
    then show ?case unfolding rotate_each.simps by (intro keep_intro keep_rotate)
  qed (simp only: rotate_each.simps, rule keeps_ret, simp)
  show ?thesis
    unfolding rotation_tick_def by (intro keep_intro keep_admissible r) (simp_all add: command_ok_def)
qed

end

end
