(* ===== verification/Routes.thy ===== *)
theory Routes
  imports Guards Manage Rewrap
begin

text \<open>
  \<open>routes.rs\<close>: the HTTP interface. A handler runs its guard first, then the
  authorization, then the service. The request body is given decoded, except for
  \<open>verify\<close>, which decodes it itself; decoding JSON and matching the path to a route are the
  framework's. A response is a status code and a body.
\<close>

datatype 'b response_body =
    NoBody
  | Text string
  | ValueBody SecretValue
  | ValuesBody "SecretValue list"
  | MetadataBody SecretMetadata
  | MetadataListBody "SecretMetadata list"
  | VerifyBody VerifyResponse
  | RoleBody RoleInfo
  | RolesBody "RoleInfo list"
  | TokenBody TokenCreated
  | TokensBody "TokenInfo list"
  | BackupBody "'b BackupData"
  | RewrapBody RewrapRunResponse
  | RewrapStatusBody RewrapStatusResponse

type_synonym 'b response = "nat \<times> 'b response_body"

definition reply :: "nat \<Rightarrow> ('a \<Rightarrow> 'b response_body) \<Rightarrow> ('s, 'a) api \<Rightarrow> ('s, 'b response) api" where
  "reply status body m = bind m (\<lambda>a. ret (status, body a))"

definition healthz :: "('s, 'b response) api" where
  "healthz = ret (200, Text ''ok'')"

definition readyz :: "('b, 's) env \<Rightarrow> ('s, 'b response) api" where
  "readyz E = reply 200 (\<lambda>_. Text ''ready'') (read_store E list_roles)"

definition route_create_secret :: "('b, 's) env \<Rightarrow> request_parts \<Rightarrow> CreateSecretRequest \<Rightarrow> ('s, 'b response) api" where
  "route_create_secret E parts req =
     bind (admin_actor E parts) (\<lambda>actor.
     bind (authz_authorize E actor ''create'' (cs_name req)) (\<lambda>_.
     bind (authorize_rotation_target E actor req) (\<lambda>_.
     reply 201 ValueBody (create_secret E (aa_name actor) req))))"

definition route_list_secrets :: "('b, 's) env \<Rightarrow> request_parts \<Rightarrow> ('s, 'b response) api" where
  "route_list_secrets E parts =
     bind (admin_actor E parts) (\<lambda>actor.
     bind (service_list_secrets E) (\<lambda>all.
     ret (200, MetadataListBody
       (filter (\<lambda>m. visible (aa_is_admin actor) (aa_rules actor) (md_name m)) all))))"

definition route_get_secret :: "('b, 's) env \<Rightarrow> request_parts \<Rightarrow> string \<Rightarrow> ('s, 'b response) api" where
  "route_get_secret E parts name =
     bind (reader_guard E parts) (\<lambda>guard. reply 200 ValueBody (get_secret E name (rg_client_ip guard)))"

definition route_batch_get :: "('b, 's) env \<Rightarrow> request_parts \<Rightarrow> string list \<Rightarrow> ('s, 'b response) api" where
  "route_batch_get E parts names =
     bind (reader_guard E parts) (\<lambda>guard. reply 200 ValuesBody (get_secrets E names (rg_client_ip guard)))"

definition route_update_secret ::
  "('b, 's) env \<Rightarrow> request_parts \<Rightarrow> string \<Rightarrow> UpdateSecretRequest \<Rightarrow> ('s, 'b response) api" where
  "route_update_secret E parts name req =
     bind (admin_actor E parts) (\<lambda>actor.
     bind (authz_authorize E actor ''update'' name) (\<lambda>_.
     reply 200 MetadataBody (update_secret E (aa_name actor) name req)))"

definition route_delete_secret :: "('b, 's) env \<Rightarrow> request_parts \<Rightarrow> string \<Rightarrow> ('s, 'b response) api" where
  "route_delete_secret E parts name =
     bind (admin_actor E parts) (\<lambda>actor.
     bind (authz_authorize E actor ''delete'' name) (\<lambda>_.
     reply 204 (\<lambda>_. NoBody) (delete_secret E (aa_name actor) name)))"

definition secret_action :: "('b, 's) env \<Rightarrow> request_parts \<Rightarrow> string \<Rightarrow> string option \<Rightarrow> ('s, 'b response) api" where
  "secret_action E parts path body =
     bind (check (ok_or ApiNotFound (rsplit_once (CHR ''/'') path))) (\<lambda>(name, action).
     if action = ''rotate'' then
       bind (admin_actor E parts) (\<lambda>actor.
       bind (authz_authorize E actor ''rotate'' name) (\<lambda>_.
       reply 200 ValueBody (rotate E (aa_name actor) None name)))
     else if action = ''verify'' then
       bind (reader_guard E parts) (\<lambda>guard.
       bind (check (ok_or (BadRequest BodyRejected) body)) (\<lambda>presented.
       reply 200 VerifyBody (verify E name (rg_client_ip guard) (rg_peer_ip guard) presented)))
     else raise ApiNotFound)"

definition as_admin :: "('b, 's) env \<Rightarrow> request_parts \<Rightarrow> (AdminActor \<Rightarrow> ('s, 'b response) api) \<Rightarrow> ('s, 'b response) api" where
  "as_admin E parts f =
     bind (admin_actor E parts) (\<lambda>actor. bind (require_admin E actor) (\<lambda>_. f actor))"

definition route_create_role :: "('b, 's) env \<Rightarrow> request_parts \<Rightarrow> CreateRoleRequest \<Rightarrow> ('s, 'b response) api" where
  "route_create_role E parts req = as_admin E parts (\<lambda>_. reply 201 RoleBody (create_role E req))"

definition route_list_roles :: "('b, 's) env \<Rightarrow> request_parts \<Rightarrow> ('s, 'b response) api" where
  "route_list_roles E parts = as_admin E parts (\<lambda>_. reply 200 RolesBody (manage_list_roles E))"

definition route_get_role :: "('b, 's) env \<Rightarrow> request_parts \<Rightarrow> string \<Rightarrow> ('s, 'b response) api" where
  "route_get_role E parts name = as_admin E parts (\<lambda>_. reply 200 RoleBody (get_role E name))"

definition route_set_permissions ::
  "('b, 's) env \<Rightarrow> request_parts \<Rightarrow> string \<Rightarrow> PermissionRule list \<Rightarrow> ('s, 'b response) api" where
  "route_set_permissions E parts name perms =
     as_admin E parts (\<lambda>_. reply 200 RoleBody (set_permissions E name perms))"

definition route_delete_role :: "('b, 's) env \<Rightarrow> request_parts \<Rightarrow> string \<Rightarrow> ('s, 'b response) api" where
  "route_delete_role E parts name = as_admin E parts (\<lambda>_. reply 204 (\<lambda>_. NoBody) (delete_role E name))"

definition route_create_token :: "('b, 's) env \<Rightarrow> request_parts \<Rightarrow> CreateTokenRequest \<Rightarrow> ('s, 'b response) api" where
  "route_create_token E parts req = as_admin E parts (\<lambda>_. reply 201 TokenBody (create_token E req))"

definition route_list_tokens :: "('b, 's) env \<Rightarrow> request_parts \<Rightarrow> ('s, 'b response) api" where
  "route_list_tokens E parts = as_admin E parts (\<lambda>_. reply 200 TokensBody (manage_list_tokens E))"

definition route_revoke_token :: "('b, 's) env \<Rightarrow> request_parts \<Rightarrow> string \<Rightarrow> ('s, 'b response) api" where
  "route_revoke_token E parts name = as_admin E parts (\<lambda>_. reply 204 (\<lambda>_. NoBody) (revoke_token E name))"

definition route_backup :: "('b, 's) env \<Rightarrow> request_parts \<Rightarrow> ('s, 'b response) api" where
  "route_backup E parts = as_admin E parts (\<lambda>actor. reply 200 BackupBody (backup E (aa_name actor)))"

definition route_restore :: "('b, 's) env \<Rightarrow> request_parts \<Rightarrow> 'b BackupData \<Rightarrow> ('s, 'b response) api" where
  "route_restore E parts data =
     as_admin E parts (\<lambda>actor. reply 204 (\<lambda>_. NoBody) (restore E (aa_name actor) data))"

definition route_kms_rewrap :: "('b, 's) env \<Rightarrow> request_parts \<Rightarrow> ('s, 'b response) api" where
  "route_kms_rewrap E parts = as_admin E parts (\<lambda>_. reply 200 RewrapBody (rewrap_force E))"

definition route_kms_rewrap_status :: "('b, 's) env \<Rightarrow> request_parts \<Rightarrow> ('s, 'b response) api" where
  "route_kms_rewrap_status E parts = as_admin E parts (\<lambda>_. reply 200 RewrapStatusBody (rewrap_status E))"

section \<open>The router\<close>

datatype 'b api_request =
    Healthz
  | Readyz
  | PostSecret CreateSecretRequest
  | ListSecrets
  | GetSecret string
  | BatchGet "string list"
  | PutSecret string UpdateSecretRequest
  | RemoveSecret string
  | SecretAction string "string option"
  | PostRole CreateRoleRequest
  | ListRoles
  | GetRole string
  | PutPermissions string "PermissionRule list"
  | RemoveRole string
  | PostToken CreateTokenRequest
  | ListTokens
  | RemoveToken string
  | GetBackup
  | PostRestore "'b BackupData"
  | PostRewrap
  | GetRewrapStatus

fun router :: "('b, 's) env \<Rightarrow> request_parts \<Rightarrow> 'b api_request \<Rightarrow> ('s, 'b response) api" where
  "router E parts Healthz = healthz"
| "router E parts Readyz = readyz E"
| "router E parts (PostSecret req) = route_create_secret E parts req"
| "router E parts ListSecrets = route_list_secrets E parts"
| "router E parts (GetSecret name) = route_get_secret E parts name"
| "router E parts (BatchGet names) = route_batch_get E parts names"
| "router E parts (PutSecret name req) = route_update_secret E parts name req"
| "router E parts (RemoveSecret name) = route_delete_secret E parts name"
| "router E parts (SecretAction path body) = secret_action E parts path body"
| "router E parts (PostRole req) = route_create_role E parts req"
| "router E parts ListRoles = route_list_roles E parts"
| "router E parts (GetRole name) = route_get_role E parts name"
| "router E parts (PutPermissions name perms) = route_set_permissions E parts name perms"
| "router E parts (RemoveRole name) = route_delete_role E parts name"
| "router E parts (PostToken req) = route_create_token E parts req"
| "router E parts ListTokens = route_list_tokens E parts"
| "router E parts (RemoveToken name) = route_revoke_token E parts name"
| "router E parts GetBackup = route_backup E parts"
| "router E parts (PostRestore data) = route_restore E parts data"
| "router E parts PostRewrap = route_kms_rewrap E parts"
| "router E parts GetRewrapStatus = route_kms_rewrap_status E parts"

text \<open>The answer the client sees.\<close>

definition respond :: "ApiError + 'b response \<Rightarrow> nat" where
  "respond r = (case r of Inl e \<Rightarrow> api_status e | Inr (status, _) \<Rightarrow> status)"

lemmas route_defs = healthz_def readyz_def route_create_secret_def route_list_secrets_def
  route_get_secret_def route_batch_get_def route_update_secret_def route_delete_secret_def
  route_create_role_def route_list_roles_def route_get_role_def route_set_permissions_def
  route_delete_role_def route_create_token_def route_list_tokens_def route_revoke_token_def
  route_backup_def route_restore_def route_kms_rewrap_def route_kms_rewrap_status_def

lemma keep_reply [keep_intro]: "keep I m \<Longrightarrow> keep I (reply status body m)"
  unfolding reply_def by (intro keep_intro) simp_all

context api_core begin

lemma keep_as_admin: "(\<And>actor. keep I (f actor)) \<Longrightarrow> keep I (as_admin E parts f)"
  unfolding as_admin_def by (intro keep_intro)

end

context api_invariant begin

lemma keep_router:
  assumes "\<And>data. req = PostRestore data \<Longrightarrow> C (RestoreDatabase data)"
  shows "keep I (router E parts req)"
proof -
  have action: "keep I (secret_action E parts path body)" for path body
    unfolding secret_action_def by (intro keep_intro)
  show ?thesis
    using assms
    by (cases req; simp only: router.simps route_defs;
        intro keep_intro keep_as_admin action keep_restore; simp)
qed

end

end
