(* ===== verification/Api_Safety.thy ===== *)
theory Api_Safety
  imports Routes
begin

text \<open>
  Safety of the service as a whole. Events are requests to the router and ticks of the two
  workers, in any order, with other requests interfering between any two calls. Three
  invariants hold of every run: the one of the store, the soundness of the cached data keys,
  and the confinement of connections to rotation targets.
\<close>

section \<open>Runs\<close>

datatype 'b event = Request request_parts "'b api_request" | RotationTick | RewrapTick

definition on_event :: "('b, 's) env \<Rightarrow> 'b event \<Rightarrow> 's world \<Rightarrow> 's world" where
  "on_event E ev w =
     (case ev of
        Request parts req \<Rightarrow> snd (router E parts req w)
      | RotationTick \<Rightarrow> snd (rotation_tick E w)
      | RewrapTick \<Rightarrow> snd (rewrap_tick E w))"

definition run_events :: "('b, 's) env \<Rightarrow> 'b event list \<Rightarrow> 's world \<Rightarrow> 's world" where
  "run_events E evs w = fold (on_event E) evs w"

text \<open>Restores are admissible commands.\<close>

definition restores_only :: "('b Command \<Rightarrow> bool) \<Rightarrow> 'b event \<Rightarrow> bool" where
  "restores_only C ev = (case ev of Request _ (PostRestore data) \<Rightarrow> C (RestoreDatabase data) | _ \<Rightarrow> True)"

context api_invariant begin

lemma on_event_inv:
  assumes "restores_only C ev" "I w"
  shows "I (on_event E ev w)"
proof (cases ev)
  case (Request parts req)
  with assms(1) have "keep I (router E parts req)"
    by (intro keep_router) (simp add: restores_only_def)
  with Request assms(2) show ?thesis by (simp add: on_event_def keepsD)
next
  case RotationTick
  then show ?thesis using keepsD [OF keep_rotation_tick assms(2)] by (simp add: on_event_def)
next
  case RewrapTick
  then show ?thesis using keepsD [OF keep_rewrap_tick assms(2)] by (simp add: on_event_def)
qed

lemma run_events_inv: "list_all (restores_only C) evs \<Longrightarrow> I w \<Longrightarrow> I (run_events E evs w)"
  unfolding run_events_def by (induction evs arbitrary: w) (simp_all add: on_event_inv)

end

section \<open>The store\<close>

definition restore_as_command :: "('b, 's) env \<Rightarrow> 'b BackupData \<Rightarrow> 's \<Rightarrow> bool" where
  "restore_as_command E data st \<longleftrightarrow>
     (case e_store_restore E data st of
        (Inr _, st') \<Rightarrow> apply_command (e_codec E) (e_store_node E st) (RestoreDatabase data) (e_store_view E st) =
                        (Inr (), e_store_view E st')
      | (Inl _, st') \<Rightarrow> e_store_view E st' = e_store_view E st)"

definition store_ok :: "('b, 's) env \<Rightarrow> bool" where
  "store_ok E \<longleftrightarrow> codec_ok (e_codec E) \<and>
     vault_store (e_codec E) (e_store_apply E) (e_store_view E) (e_store_node E) \<and>
     (\<forall>data st. restore_as_command E data st) \<and>
     (\<forall>n st. vault_inv (e_codec E) (e_store_view E st) \<longrightarrow> vault_inv (e_codec E) (e_store_view E (e_others E n st)))"

abbreviation store_inv :: "('b, 's) env \<Rightarrow> 's world \<Rightarrow> bool" where
  "store_inv E w \<equiv> store_ok E \<longrightarrow> vault_inv (e_codec E) (e_store_view E (w_store w))"

lemma bookkeeping_ok: "bookkeeping c \<Longrightarrow> command_ok cd c"
  by (cases c) (simp_all add: bookkeeping_def command_ok_def)

lemma cache_lookup_world:
  "w_store (snd (cache_lookup E k w)) = w_store w" "w_attempts (snd (cache_lookup E k w)) = w_attempts w"
  "w_store (snd (cache_store E k d w)) = w_store w" "w_attempts (snd (cache_store E k d w)) = w_attempts w"
  "w_store (snd (pg_apply E pg u p r n w)) = w_store w" "w_cache (snd (pg_apply E pg u p r n w)) = w_cache w"
  by (simp_all add: cache_lookup_def cache_store_def pg_apply_def split: prod.split)

lemma store_okD:
  assumes "store_ok E"
  shows "codec_ok (e_codec E)" "vault_store (e_codec E) (e_store_apply E) (e_store_view E) (e_store_node E)"
    and "e_store_restore E data st = (Inr u, st') \<Longrightarrow>
      apply_command (e_codec E) (e_store_node E st) (RestoreDatabase data) (e_store_view E st) = (Inr (), e_store_view E st')"
    and "e_store_restore E data st = (Inl e, st') \<Longrightarrow> e_store_view E st' = e_store_view E st"
    and "vault_inv (e_codec E) (e_store_view E st) \<Longrightarrow> vault_inv (e_codec E) (e_store_view E (e_others E n st))"
proof -
  from assms have r: "restore_as_command E data st" by (simp add: store_ok_def)
  then show "e_store_restore E data st = (Inr u, st') \<Longrightarrow>
      apply_command (e_codec E) (e_store_node E st) (RestoreDatabase data) (e_store_view E st) = (Inr (), e_store_view E st')"
    "e_store_restore E data st = (Inl e, st') \<Longrightarrow> e_store_view E st' = e_store_view E st"
    by (simp_all add: restore_as_command_def)
qed (use assms in \<open>simp_all add: store_ok_def\<close>)

lemma write_keeps_inv:
  assumes "store_ok E" "vault_inv (e_codec E) (e_store_view E st)" "command_ok (e_codec E) c"
  shows "vault_inv (e_codec E) (e_store_view E (snd (e_store_apply E c st)))"
proof -
  obtain res st' where "e_store_apply E c st = (res, st')" by force
  then show ?thesis
    using vault_store.write_inv [OF store_okD(2,1) [OF assms(1)] assms(2,3)] by simp
qed

lemma restore_keeps_inv:
  assumes "store_ok E" "vault_inv (e_codec E) (e_store_view E st)" "command_ok (e_codec E) (RestoreDatabase data)"
  shows "vault_inv (e_codec E) (e_store_view E (snd (e_store_restore E data st)))"
proof -
  obtain res st' where r: "e_store_restore E data st = (res, st')" by force
  show ?thesis
  proof (cases res)
    case (Inl e)
    then show ?thesis using store_okD(4) [OF assms(1)] r assms(2) by simp
  next
    case (Inr u)
    then have "apply_command (e_codec E) (e_store_node E st) (RestoreDatabase data) (e_store_view E st) =
        (Inr (), e_store_view E st')"
      using store_okD(3) [OF assms(1)] r by simp
    then show ?thesis
      using apply_command_good [OF store_okD(1) [OF assms(1)] assms(2,3), of "e_store_node E st"] r
      by (simp add: good_outcome_def)
  qed
qed

interpretation store_run: api_invariant E "store_inv E" "command_ok (e_codec E)"
  for E :: "('b, 's) env"
  by unfold_locales
    (simp_all add: cache_lookup_world bookkeeping_ok write_keeps_inv restore_keeps_inv store_okD(5))

section \<open>A vault on one node\<close>

text \<open>A concrete environment: the store of one node, the local key provider, nobody else.\<close>

definition sample_wrapper :: LocalKeyWrapper where
  "sample_wrapper = \<lparr>lk_master = replicate 32 7, lk_key_id = ''master-1''\<rparr>"

definition sample_kms :: kms where
  "sample_kms = local_kms prefix_aead sample_wrapper (\<lambda>_. (replicate 32 1, replicate 24 2))"

definition sample_enc_userpass :: "UserPass \<Rightarrow> bytes" where
  "sample_enc_userpass up =
     replicate (length (up_username up)) 1 @ 0 # as_bytes (up_username up) @ as_bytes (up_password up)"

definition sample_dec_userpass :: "bytes \<Rightarrow> UserPass option" where
  "sample_dec_userpass bs =
     (let n = length (takeWhile (\<lambda>b. b = 1) bs); rest = drop (Suc n) bs
      in Some \<lparr>up_username = of_bytes (take n rest), up_password = of_bytes (drop n rest)\<rparr>)"

definition sample_env :: "(row, row RedbStore) env" where
  "sample_env =
     \<lparr>e_codec = row_codec, e_store_apply = redb_apply row_codec, e_store_restore = redb_restore,
      e_store_view = redb_db, e_store_node = redb_node_id, e_others = (\<lambda>_ st. st),
      e_cache_others = (\<lambda>_ c. c), e_kms = sample_kms, e_aead = prefix_aead,
      e_system_time = (\<lambda>_. Some 1000), e_instant = (\<lambda>n. n), e_random = (\<lambda>n k. replicate k (of_nat n)),
      e_b64url = map (\<lambda>b. digit_char (unat b mod 10)), e_sha256 = (\<lambda>bs. bs),
      e_enc_userpass = sample_enc_userpass, e_dec_userpass = sample_dec_userpass,
      e_backup_size = (\<lambda>_. Some 0), e_format_date = (\<lambda>t. Some (show_int t)),
      e_pg_targets = \<lparr>pt_hosts = [(''db1'', 5432)], pt_mode = VerifyFull, pt_tls = True\<rparr>,
      e_pg = (\<lambda>_ _. Some True), e_clustered = False, e_node_id = 1, e_current_leader = (\<lambda>_. None),
      e_auth_max_failures = 5, e_auth_lockout_secs = 300, e_auth_window_secs = 60, e_token_touch_secs = 60,
      e_kms_rewrap_enabled = True, e_trust_proxy = False, e_allowed = (\<lambda>ip. ip = Ipv4 10 0 0 5)\<rparr>"

definition sample_world :: "row RedbStore world" where
  "sample_world =
     \<lparr>w_store = from_database row_codec empty_db 1, w_cache = cache_new 300, w_calls = 0,
      w_attempts = [], w_rewrap_busy = False\<rparr>"

lemma sample_env_simps [simp]:
  "e_codec sample_env = row_codec" "e_store_apply sample_env = redb_apply row_codec"
  "e_store_restore sample_env = redb_restore" "e_store_view sample_env = redb_db"
  "e_store_node sample_env = redb_node_id" "e_others sample_env = (\<lambda>_ st. st)"
  "e_cache_others sample_env = (\<lambda>_ c. c)" "e_kms sample_env = sample_kms" "e_aead sample_env = prefix_aead"
  by (simp_all add: sample_env_def)

lemma redb_restore_as_command:
  assumes "e_codec E = row_codec" "e_store_restore E = redb_restore" "e_store_view E = redb_db"
    "e_store_node E = redb_node_id"
  shows "restore_as_command E data st"
  using assms by (auto simp: restore_as_command_def redb_restore_def restore_database_def
      apply_restore_database_def split: prod.splits sum.splits)

lemma sample_env_ok: "store_ok sample_env"
  using redb.vault_store_axioms [of row_codec]
  by (simp add: store_ok_def redb_restore_as_command row_codec_ok)

lemma sample_world_inv: "vault_inv row_codec (redb_db (w_store sample_world))"
  by (simp add: sample_world_def from_database_def seed_admin_role_inv row_codec_ok vault_inv_empty)

section \<open>The properties\<close>

text \<open>
  C1: the store stays consistent. From a consistent store, every sequence of requests to the
  router and of ticks of the workers, with other requests interfering, leads to a
  consistent store again: every secret has its current version, every version belongs to a
  secret and is not above its current version, and tokens and their index agree. Only a restore
  is conditional, on the backup being one of a consistent store.
\<close>

theorem requests_keep_store_consistent:
  assumes "store_ok E" "vault_inv (e_codec E) (e_store_view E (w_store w))"
    "list_all (restores_only (command_ok (e_codec E))) evs"
  shows "vault_inv (e_codec E) (e_store_view E (w_store (run_events E evs w)))"
  using store_run.run_events_inv [OF assms(3), of w] assms(1,2) by simp

theorem requests_keep_store_consistent_witness:
  "vault_inv row_codec (redb_db (w_store (run_events sample_env
     [Request \<lparr>rq_authorization = None, rq_forwarded_for = None, rq_connect_info = None\<rparr> (RemoveSecret ''a''),
      RotationTick, RewrapTick] sample_world)))"
  using requests_keep_store_consistent [OF sample_env_ok, of sample_world] sample_world_inv
  by (simp add: restores_only_def)

section \<open>Rotation targets\<close>

interpretation target_run: api_invariant E "\<lambda>w. list_all (attempt_confined (e_pg_targets E)) (w_attempts w)"
  "\<lambda>_. True" for E :: "('b, 's) env"
  by unfold_locales
    (simp_all add: cache_lookup_world, simp add: pg_apply_def apply_password_attempts split: prod.split,
      metis apply_password_attempts snd_conv)

text \<open>
  C16: no request and no tick of a worker ever makes the vault connect to a host that is not on the
  list of rotation targets, or with less TLS than the configured mode demands,
  whatever the stored targets and login secrets are and however requests interleave.
\<close>

theorem connections_confined:
  "list_all (attempt_confined (e_pg_targets E)) (w_attempts (run_events E evs (w\<lparr>w_attempts := []\<rparr>)))"
  by (rule target_run.run_events_inv) (simp_all add: list.pred_set restores_only_def split: event.split api_request.split)

end
