(* ===== verification/Service_Laws.thy ===== *)
theory Service_Laws
  imports Api_Safety
begin

text \<open>
  What the secret service promises its clients: what is read is what was stored for that
  name, verification accepts exactly the live values, and reads change nothing.
\<close>

section \<open>Cached data keys\<close>

definition unwraps :: "('b, 's) env \<Rightarrow> bytes \<Rightarrow> bytes \<Rightarrow> bool" where
  "unwraps E wrapped dek \<longleftrightarrow> (\<exists>n kid ctx. km_decrypt_data_key (e_kms E) n wrapped kid ctx = Inr dek)"

definition cache_sound :: "('b, 's) env \<Rightarrow> DekCache \<Rightarrow> bool" where
  "cache_sound E c \<longleftrightarrow> cache_wf c \<and>
     (\<forall>wrapped stored dek. map_of (dc_map c) wrapped = Some (stored, dek) \<longrightarrow> unwraps E wrapped dek)"

definition cache_calm :: "('b, 's) env \<Rightarrow> bool" where
  "cache_calm E \<longleftrightarrow> (\<forall>n c. cache_sound E c \<longrightarrow> cache_sound E (e_cache_others E n c))"

lemma cache_sound_get: "cache_sound E c \<Longrightarrow> cache_sound E (snd (cache_get now k c))"
  using cache_get_sub [of now k c] by (auto simp: cache_sound_def cache_wf_get dest: map_le_SomeD)

lemma cache_get_hit: "cache_get now k c = (Some dek, c') \<Longrightarrow> \<exists>stored. map_of (dc_map c) k = Some (stored, dek)"
  by (auto simp: cache_get_def split: if_splits option.splits)

lemma cache_sound_put:
  assumes "cache_sound E c" "unwraps E k dek"
  shows "cache_sound E (cache_put now k dek c)"
proof -
  have wf: "cache_wf c" using assms(1) by (simp add: cache_sound_def)
  show ?thesis
    unfolding cache_sound_def
  proof (intro conjI allI impI)
    fix k' stored dek'
    assume "map_of (dc_map (cache_put now k dek c)) k' = Some (stored, dek')"
    from cache_put_entry [OF wf this] show "unwraps E k' dek'"
      using assms by (auto simp: cache_sound_def split: if_splits)
  qed (rule cache_wf_put [OF wf])
qed

lemma cache_lookup_cache:
  "w_cache (snd (cache_lookup E k w)) =
     snd (cache_get (e_instant E (w_calls w)) k (e_cache_others E (w_calls w) (w_cache w)))"
  by (simp add: cache_lookup_def split: prod.split)

interpretation cache_run: api_invariant E "\<lambda>w. cache_calm E \<longrightarrow> cache_sound E (w_cache w)" "\<lambda>_. True"
  for E :: "('b, 's) env"
proof unfold_locales
  fix w :: "'s world" and k :: bytes
  assume I: "cache_calm E \<longrightarrow> cache_sound E (w_cache w)"
  then show "cache_calm E \<longrightarrow> cache_sound E (w_cache (snd (cache_lookup E k w)))"
    by (simp add: cache_lookup_cache cache_calm_def cache_sound_get)
  fix n kid ctx dek
  assume "km_decrypt_data_key (e_kms E) n k kid ctx = Inr dek"
  with I show "cache_calm E \<longrightarrow> cache_sound E (w_cache (snd (cache_store E k dek w)))"
    by (auto simp: cache_store_def cache_calm_def intro!: cache_sound_put) (auto simp: unwraps_def)
qed (simp_all add: cache_lookup_world)

text \<open>
  C24: whatever requests and worker ticks the vault processes, and whatever other requests do in
  between, a data key found in the cache is one the key management service has
  returned for that wrapped key.
\<close>

theorem cached_keys_sound:
  assumes "cache_calm E"
  shows "case cache_get now k (w_cache (run_events E evs (w\<lparr>w_cache := cache_new ttl\<rparr>))) of
     (Some dek, _) \<Rightarrow> unwraps E k dek | (None, _) \<Rightarrow> True"
proof -
  have "cache_sound E (cache_new ttl)"
    by (simp add: cache_sound_def cache_wf_def cache_new_def)
  then have "cache_sound E (w_cache (run_events E evs (w\<lparr>w_cache := cache_new ttl\<rparr>)))"
    using cache_run.run_events_inv [of evs E "w\<lparr>w_cache := cache_new ttl\<rparr>"] assms
    by (simp add: list.pred_set restores_only_def split: event.split api_request.split)
  then show ?thesis
    by (auto simp: cache_sound_def split: prod.split option.split dest!: cache_get_hit)
qed

lemma sample_env_calm: "cache_calm sample_env"
  by (simp add: cache_calm_def)

theorem cached_keys_sound_witness:
  "case cache_get 5 [1] (w_cache (run_events sample_env [RotationTick, RewrapTick]
       (sample_world\<lparr>w_cache := cache_new 300\<rparr>))) of
     (Some dek, _) \<Rightarrow> unwraps sample_env [1] dek | (None, _) \<Rightarrow> True"
  by (rule cached_keys_sound [OF sample_env_calm])

section \<open>Opening a version\<close>

text \<open>The plaintext of a version row of a secret: sealed for that secret and version
  under the data key that the service returns for the row's wrapped key.\<close>

definition plaintext_of :: "('b, 's) env \<Rightarrow> string \<Rightarrow> VersionRecord \<Rightarrow> bytes \<Rightarrow> bool" where
  "plaintext_of E name r pt \<longleftrightarrow>
     vr_aad r = aad_for name (vr_version r) \<and>
     (\<exists>dek. unwraps E (vr_wrapped_dek r) dek \<and>
        seal (e_aead E) dek (vr_nonce r) (aad_for name (vr_version r)) pt = Inr (vr_ciphertext r))"

lemma version_dek_sound:
  assumes "cache_calm E" "cache_sound E (w_cache w)" "version_dek E name v r w = (Inr dek, w')"
  shows "unwraps E (vr_wrapped_dek r) dek"
proof -
  let ?c = "e_cache_others E (w_calls w) (w_cache w)"
  have sound: "cache_sound E ?c" using assms(1,2) by (simp add: cache_calm_def)
  obtain hit c where g: "cache_get (e_instant E (w_calls w)) (vr_wrapped_dek r) ?c = (hit, c)" by force
  show ?thesis
  proof (cases hit)
    case None
    with assms(3) g show ?thesis
      by (auto simp: version_dek_def bind_Inr cache_lookup_def kms_call_Inr unwraps_def)
  next
    case (Some d)
    with assms(3) g have "d = dek" by (auto simp: version_dek_def bind_Inr cache_lookup_def)
    with Some g obtain stored where "map_of (dc_map ?c) (vr_wrapped_dek r) = Some (stored, dek)"
      using cache_get_hit by blast
    with sound show ?thesis by (simp add: cache_sound_def)
  qed
qed

lemma open_version_Inr:
  "open_version E name v r w = (Inr pt, w') \<longleftrightarrow>
     vr_aad r = aad_for name v \<and> length (vr_nonce r) = NONCE_LEN \<and>
     (\<exists>dek. version_dek E name v r w = (Inr dek, w') \<and>
        open_sealed (e_aead E) dek (vr_nonce r) (aad_for name v) (vr_ciphertext r) = Inr pt)"
  by (auto simp: open_version_def Let_def bind_Inr)

lemma open_version_plaintext:
  assumes "aead_ok (e_aead E)" "cache_calm E" "cache_sound E (w_cache w)"
    "open_version E name (vr_version r) r w = (Inr pt, w')"
  shows "plaintext_of E name r pt"
proof -
  from assms(4) obtain dek where "version_dek E name (vr_version r) r w = (Inr dek, w')"
    and o: "vr_aad r = aad_for name (vr_version r)"
      "open_sealed (e_aead E) dek (vr_nonce r) (aad_for name (vr_version r)) (vr_ciphertext r) = Inr pt"
    by (auto simp: open_version_Inr)
  from version_dek_sound [OF assms(2,3) this(1)] o show ?thesis
    unfolding plaintext_of_def open_sealed_iff_seal [OF assms(1)] by blast
qed

lemma get_secret_opens:
  assumes "aead_ok (e_aead E)" "cache_calm E" "cache_sound E (w_cache w)"
    "get_secret E name ip w = (Inr v, w')"
  shows "\<exists>s r pt. reader_current_version (e_codec E) name (e_store_view E (e_others E (w_calls w) (w_store w))) =
           Inr (Some (s, r)) \<and>
         plaintext_of E name r pt \<and>
         decode_payload E (sr_format s) pt = Inr (sv_value v, sv_username v, sv_password v) \<and>
         sv_name v = name \<and> sv_version v = vr_version r \<and> sv_format v = sr_format s \<and> sv_kind v = sr_kind s"
proof -
  obtain s r where read: "reader_current_version (e_codec E) name (e_store_view E (w_store (sync E w))) = Inr (Some (s, r))"
    and run: "read_value E name ip s r (sync E w) = (Inr v, w')"
    using assms(4) by (auto simp: get_secret_def bind_Inr read_with_Inr known_name_def split: option.splits if_splits)
  then obtain pt w1 where pt: "open_version E name (vr_version r) r (sync E w) = (Inr pt, w1)"
    and v: "decode_payload E (sr_format s) pt = Inr (sv_value v, sv_username v, sv_password v)"
      "sv_name v = name" "sv_version v = vr_version r" "sv_format v = sr_format s" "sv_kind v = sr_kind s"
    by (auto simp: read_value_def bind_Inr)
  have "plaintext_of E name r pt"
    using open_version_plaintext [OF assms(1,2) _ pt] assms(3) by simp
  with read v show ?thesis by auto
qed

text \<open>
  C3: a read returns what was stored under that name. If reading a secret succeeds, there is a
  moment during the read at which the store held that secret with that version as its current
  one, and the value returned is the decoded plaintext of that version row, which was sealed
  for exactly this name and version: a row copied from another secret or another version is
  never returned.
\<close>

theorem get_secret_authentic:
  assumes "aead_ok (e_aead E)" "cache_calm E" "cache_sound E (w_cache w)"
  shows "case get_secret E name ip w of
     (Inr v, _) \<Rightarrow>
       (\<exists>s r pt. reader_current_version (e_codec E) name (e_store_view E (e_others E (w_calls w) (w_store w))) =
           Inr (Some (s, r)) \<and>
         plaintext_of E name r pt \<and>
         decode_payload E (sr_format s) pt = Inr (sv_value v, sv_username v, sv_password v) \<and>
         sv_name v = name \<and> sv_version v = vr_version r \<and> sv_format v = sr_format s \<and> sv_kind v = sr_kind s)
   | (Inl _, _) \<Rightarrow> True"
  by (simp split: prod.split sum.split, intro allI impI, elim exE, rule get_secret_opens [OF assms, simplified])

lemma sample_world_sound: "cache_sound sample_env (w_cache sample_world)"
  by (simp add: sample_world_def cache_sound_def cache_new_def cache_wf_def)

theorem get_secret_authentic_witness:
  "case get_secret sample_env ''a'' (Ipv4 10 0 0 5) sample_world of
     (Inr v, _) \<Rightarrow>
       (\<exists>s r pt. reader_current_version row_codec ''a'' (redb_db (w_store sample_world)) = Inr (Some (s, r)) \<and>
         plaintext_of sample_env ''a'' r pt \<and>
         decode_payload sample_env (sr_format s) pt = Inr (sv_value v, sv_username v, sv_password v) \<and>
         sv_name v = ''a'' \<and> sv_version v = vr_version r \<and> sv_format v = sr_format s \<and> sv_kind v = sr_kind s)
   | (Inl _, _) \<Rightarrow> True"
  using get_secret_authentic [of sample_env sample_world "''a''" "Ipv4 10 0 0 5", unfolded sample_env_simps,
      OF prefix_aead_ok sample_env_calm sample_world_sound] .

section \<open>Reads change nothing\<close>

definition quiet :: "('b, 's) env \<Rightarrow> bool" where
  "quiet E \<longleftrightarrow> (\<forall>n st. e_others E n st = st) \<and> (\<forall>n c. e_cache_others E n c = c)"

text \<open>
  What only an authorized write may change: all tables but the audit log and the counters of
  failed attempts, with the tokens up to the time of their last use.
\<close>

definition token_rows :: "'b codec \<Rightarrow> 'b db \<Rightarrow> bytes \<Rightarrow> TokenRecord option option" where
  "token_rows cd d f =
     map_option (\<lambda>b. map_option (\<lambda>t. t\<lparr>tr_last_used_at := None\<rparr>) (dec_token cd b)) (tget (TOKENS d) f)"

definition protected :: "'b codec \<Rightarrow> 'b db \<Rightarrow> 'b db \<times> (bytes \<Rightarrow> TokenRecord option option)" where
  "protected cd d = (d\<lparr>TOKENS := [], AUDIT := [], LOCKOUTS := []\<rparr>, token_rows cd d)"

lemma protected_eqD:
  assumes "protected cd d = protected cd d'"
  shows "SECRETS d = SECRETS d'" "VERSIONS d = VERSIONS d'" "ROLES d = ROLES d'"
    "TOKENS_BY_NAME d = TOKENS_BY_NAME d'" "KMS_REWRAP d = KMS_REWRAP d'"
  using arg_cong [OF assms, of "\<lambda>p. SECRETS (fst p)"] arg_cong [OF assms, of "\<lambda>p. VERSIONS (fst p)"]
    arg_cong [OF assms, of "\<lambda>p. ROLES (fst p)"] arg_cong [OF assms, of "\<lambda>p. TOKENS_BY_NAME (fst p)"]
    arg_cong [OF assms, of "\<lambda>p. KMS_REWRAP (fst p)"]
  by (simp_all add: protected_def)

lemma bookkeeping_protected:
  assumes cd: "codec_ok cd" and "db_wf d" "bookkeeping c" "apply_command cd n c d = (Inr (), d')"
  shows "protected cd d' = protected cd d"
proof (cases c)
  case (AppendAudit entry)
  with assms show ?thesis
    by (auto simp: apply_append_audit_def protected_def token_rows_def Let_def split: option.splits sum.splits if_splits)
next
  case (TouchToken f at)
  note touch = assms(4) [unfolded TouchToken apply_command.simps apply_touch_token_def]
  show ?thesis
  proof (cases "tget (TOKENS d) f")
    case None
    then show ?thesis using touch by simp
  next
    case (Some b)
    with touch obtain t where t: "dec_token cd b = Some t"
      and d': "d' = d\<lparr>TOKENS := tinsert f (enc_token cd (t\<lparr>tr_last_used_at := Some at\<rparr>)) (TOKENS d)\<rparr>"
      by (auto split: option.splits)
    have "token_rows cd d' g = token_rows cd d g" for g
      using Some t d' assms(2) by (simp add: token_rows_def table_simps db_wfD codec_okD [OF cd])
    then have "token_rows cd d' = token_rows cd d" by (rule ext)
    then show ?thesis using d' by (simp add: protected_def)
  qed
next
  case (RecordAuthFailure k now mx win lock)
  with assms show ?thesis
    by (auto simp: apply_record_auth_failure_def protected_def token_rows_def Let_def split: option.splits sum.splits)
qed (use assms in \<open>simp_all add: bookkeeping_def\<close>)

lemma bookkeeping_write:
  assumes "store_ok E" "bookkeeping c" "vault_inv (e_codec E) (e_store_view E st)"
  shows "protected (e_codec E) (e_store_view E (snd (e_store_apply E c st))) = protected (e_codec E) (e_store_view E st)"
proof -
  obtain res st' where r: "e_store_apply E c st = (res, st')" by force
  note vs = store_okD(2) [OF assms(1)]
  show ?thesis
  proof (cases res)
    case (Inl e)
    then show ?thesis using vault_store.write_err [OF vs] r by simp
  next
    case (Inr u)
    then have "apply_command (e_codec E) (e_store_node E st) c (e_store_view E st) = (Inr (), e_store_view E st')"
      using vault_store.write_ok [OF vs] r by simp
    then show ?thesis
      using bookkeeping_protected [OF store_okD(1) [OF assms(1)] vault_invD(1) [OF assms(3)] assms(2)] r by simp
  qed
qed

abbreviation same_protected ::
  "('b, 's) env \<Rightarrow> 'b db \<times> (bytes \<Rightarrow> TokenRecord option option) \<Rightarrow> 's world \<Rightarrow> bool" where
  "same_protected E p w \<equiv> quiet E \<and> store_ok E \<longrightarrow>
     vault_inv (e_codec E) (e_store_view E (w_store w)) \<and> protected (e_codec E) (e_store_view E (w_store w)) = p"

interpretation reads: api_target E "same_protected E p" bookkeeping for E :: "('b, 's) env" and p
  by unfold_locales
    (simp_all add: cache_lookup_world bookkeeping_write write_keeps_inv bookkeeping_ok quiet_def)

text \<open>Without interference a read sees the store as it is, and a write applies its command to it.\<close>

lemma quiet_others [simp]:
  "quiet E \<Longrightarrow> e_others E n st = st" "quiet E \<Longrightarrow> e_cache_others E n c = c"
  by (simp_all add: quiet_def)

lemma quiet_read:
  "quiet E \<Longrightarrow> read_with conv E reader w = (Inr r, w') \<longleftrightarrow>
     w' = sync E w \<and> reader (e_codec E) (e_store_view E (w_store w)) = Inr r"
  by (auto simp: read_with_Inr)

lemma quiet_write:
  assumes "quiet E" "store_ok E" "write_with conv E c w = (Inr u, w')"
  shows "apply_command (e_codec E) (e_store_node E (w_store w)) c (e_store_view E (w_store w)) =
           (Inr (), e_store_view E (w_store w'))"
    "w_cache w' = w_cache w" "w_attempts w' = w_attempts w" "w_calls w' = Suc (w_calls w)"
  using assms vault_store.write_ok [OF store_okD(2) [OF assms(2)]]
  by (auto simp: write_with_Inr)

end
