(* ===== verification/Access_Laws.thy ===== *)
theory Access_Laws
  imports Service_Laws
begin

text \<open>
  Access control of the HTTP interface, against a specification that reads the rights of a
  request off the database: the bearer token, its role, and the permissions of the role.
\<close>

section \<open>Rights\<close>

definition rights_of :: "('b, 's) env \<Rightarrow> 'b db \<Rightarrow> request_parts \<Rightarrow> (bool \<times> rules) option" where
  "rights_of E d parts =
     (case bearer_token parts of
        None \<Rightarrow> None
      | Some token \<Rightarrow>
          (case token_by_fingerprint (e_codec E) (fingerprint (e_sha256 E) token) d of
             Inr (Some t) \<Rightarrow>
               (if tr_revoked_at t \<noteq> None then None
                else
                  (case tr_role t of
                     None \<Rightarrow> Some (False, [])
                   | Some role \<Rightarrow>
                       (case reader_role (e_codec E) role d of
                          Inr (Some r) \<Rightarrow> Some (rr_is_admin r, rr_permissions r)
                        | Inr None \<Rightarrow> Some (False, [])
                        | Inl _ \<Rightarrow> None)))
           | _ \<Rightarrow> None))"

definition target_permitted :: "bool \<Rightarrow> rules \<Rightarrow> CreateSecretRequest \<Rightarrow> bool" where
  "target_permitted adm rules req =
     (case cs_target req of
        None \<Rightarrow> True
      | Some (PgReplica pg) \<Rightarrow>
          (case pg_login_secret pg of Some login \<Rightarrow> visible adm rules login | None \<Rightarrow> True) \<and>
          (case pg_role pg of Some role \<Rightarrow> adm \<or> role = unwrap_or [] (cs_username req) | None \<Rightarrow> True))"

definition rotates :: "string \<Rightarrow> string option" where
  "rotates path =
     (case rsplit_once (CHR ''/'') path of
        Some (name, action) \<Rightarrow> (if action = ''rotate'' then Some name else None)
      | None \<Rightarrow> None)"

definition write_request :: "'b api_request \<Rightarrow> bool" where
  "write_request req =
     (case req of
        PostSecret _ \<Rightarrow> True | PutSecret _ _ \<Rightarrow> True | RemoveSecret _ \<Rightarrow> True
      | SecretAction path _ \<Rightarrow> rotates path \<noteq> None
      | PostRole _ \<Rightarrow> True | PutPermissions _ _ \<Rightarrow> True | RemoveRole _ \<Rightarrow> True
      | PostToken _ \<Rightarrow> True | RemoveToken _ \<Rightarrow> True | PostRestore _ \<Rightarrow> True | PostRewrap \<Rightarrow> True
      | _ \<Rightarrow> False)"

definition permitted :: "bool \<times> rules \<Rightarrow> 'b api_request \<Rightarrow> bool" where
  "permitted rights req =
     (case rights of (adm, rules) \<Rightarrow>
      case req of
        PostSecret r \<Rightarrow> authorize adm rules ''create'' (cs_name r) \<and> target_permitted adm rules r
      | PutSecret name _ \<Rightarrow> authorize adm rules ''update'' name
      | RemoveSecret name \<Rightarrow> authorize adm rules ''delete'' name
      | SecretAction path _ \<Rightarrow>
          (case rotates path of Some name \<Rightarrow> authorize adm rules ''rotate'' name | None \<Rightarrow> True)
      | _ \<Rightarrow> adm)"

section \<open>What the guard finds\<close>

lemma lockout_check_store:
  assumes "quiet E" "lockout_check E ip w = (r, w')"
  shows "w_store w' = w_store w"
proof -
  have "w_store (snd (check_key E key u)) = w_store u" for key and u
    using assms(1)
    by (simp add: check_key_def bind_def read_with_def now_unix_def numbered_def Let_def
        split: sum.split option.split)
  then have "w_store (snd (lockout_check E ip w)) = w_store w"
    by (simp add: lockout_check_def check_ip_def split: option.split)
  with assms(2) show ?thesis by simp
qed

lemma admin_actor_rights:
  assumes "quiet E" "admin_actor E parts w = (Inr actor, w')"
  shows "rights_of E (e_store_view E (w_store w)) parts = Some (aa_is_admin actor, aa_rules actor)"
proof -
  have q: "e_others E n st = st" for n st using assms(1) by simp
  let ?d = "e_store_view E (w_store w)"
  obtain w1 token t where l: "lockout_check E (peer_ip parts) w = (Inr (), w1)"
    and token: "bearer_token parts = Some token"
    and t: "token_by_fingerprint (e_codec E) (fingerprint (e_sha256 E) token) (e_store_view E (w_store (sync E w1))) = Inr (Some t)"
      "tr_revoked_at t = None"
    and run: "\<exists>w2. role_rights E (tr_role t) (sync E w1) = (Inr (aa_is_admin actor, aa_rules actor), w2)"
    using assms(2)
    by (auto simp: admin_actor_def Let_def bind_Inr read_with_Inr split: option.splits if_splits)
  have d: "e_store_view E (w_store (sync E (sync E w1))) = ?d" "e_store_view E (w_store (sync E w1)) = ?d"
    using lockout_check_store [OF assms(1) l] by (simp_all add: q)
  have "\<exists>w2. role_rights E (tr_role t) (sync E w1) = (Inr (aa_is_admin actor, aa_rules actor), w2)" by (rule run)
  then show ?thesis
    using token t d
    by (auto simp: rights_of_def role_rights_def bind_Inr read_with_Inr split: option.splits)
qed

lemma bind_raise [simp]: "bind (bind m (\<lambda>_. raise e)) f = bind m (\<lambda>_. raise e)"
  by (simp add: fun_eq_iff bind_def split: prod.split sum.split)

lemma bind_raise_fails: "fst (bind m (\<lambda>_. raise e) w) \<noteq> Inr a"
  by (auto simp: bind_def split: prod.split sum.split)

text \<open>A step that always fails and only keeps books.\<close>

definition refuses :: "('b, 's) env \<Rightarrow> ('s, 'a) api \<Rightarrow> bool" where
  "refuses E m \<longleftrightarrow> (\<forall>p. keep (same_protected E p) m) \<and> (\<forall>w a. fst (m w) \<noteq> Inr a)"

lemma refuses_record: "refuses E (bind (lockout_record E ip) (\<lambda>_. raise e))"
  unfolding refuses_def
  by (intro conjI allI keep_intro bind_raise_fails reads.keep_lockout)

lemma bind_simps [simp]: "bind (ret a) f = f a" "bind (check (Inr a)) f = f a"
  by (simp_all add: fun_eq_iff bind_def)

lemma refuses_authorize:
  "\<not> authorize (aa_is_admin actor) (aa_rules actor) action name \<Longrightarrow>
   refuses E (bind (authz_authorize E actor action name) f)"
  using refuses_record by (simp add: authz_authorize_def)

lemma refuses_admin: "\<not> aa_is_admin actor \<Longrightarrow> refuses E (bind (require_admin E actor) f)"
  using refuses_record by (simp add: require_admin_def)

lemma refuses_create:
  assumes "\<not> (authorize (aa_is_admin actor) (aa_rules actor) ''create'' (cs_name req) \<and>
              target_permitted (aa_is_admin actor) (aa_rules actor) req)"
  shows "refuses E (bind (authz_authorize E actor ''create'' (cs_name req))
    (\<lambda>_. bind (authorize_rotation_target E actor req) f))"
proof (cases "authorize (aa_is_admin actor) (aa_rules actor) ''create'' (cs_name req)")
  case True
  with assms obtain pg where "cs_target req = Some (PgReplica pg)" "\<not> target_permitted (aa_is_admin actor) (aa_rules actor) req"
    by (auto simp: target_permitted_def split: option.splits RotationTarget.splits)
  then have "authorize_rotation_target E actor req = bind (lockout_record E (aa_peer_ip actor)) (\<lambda>_. raise Forbidden)"
    by (auto simp: authorize_rotation_target_def target_permitted_def Let_def split: option.splits)
  then show ?thesis using True refuses_record by (simp add: authz_authorize_def)
qed (rule refuses_authorize)

lemma denied_request:
  assumes "quiet E" "store_ok E" "vault_inv (e_codec E) (e_store_view E (w_store w))"
    and deny: "\<And>actor. rights_of E (e_store_view E (w_store w)) parts = Some (aa_is_admin actor, aa_rules actor) \<Longrightarrow>
       refuses E (k actor)"
  shows "(\<exists>e. fst (bind (admin_actor E parts) k w) = Inl e) \<and>
     protected (e_codec E) (e_store_view E (w_store (snd (bind (admin_actor E parts) k w)))) =
     protected (e_codec E) (e_store_view E (w_store w))"
proof -
  let ?p = "protected (e_codec E) (e_store_view E (w_store w))"
  have start: "same_protected E ?p w" using assms(3) by simp
  obtain res w1 where a: "admin_actor E parts w = (res, w1)" by force
  have mid: "same_protected E ?p w1" using keepsD [OF reads.keep_admin_actor start, of parts] a by simp
  show ?thesis
  proof (cases res)
    case (Inl e)
    then show ?thesis using a mid assms(1,2) by (simp add: bind_def)
  next
    case (Inr actor)
    then have r: "refuses E (k actor)" using admin_actor_rights [OF assms(1)] a deny by simp
    then have "keep (same_protected E ?p) (k actor)" unfolding refuses_def by blast
    then have "same_protected E ?p (snd (k actor w1))" using mid by (rule keepsD)
    moreover have "\<exists>e. fst (k actor w1) = Inl e"
      using r by (cases "fst (k actor w1)") (auto simp: refuses_def)
    ultimately show ?thesis using a Inr assms(1,2) by (simp add: bind_run)
  qed
qed

lemma write_request_cases:
  assumes "write_request req"
  shows "(\<exists>r. req = PostSecret r) \<or> (\<exists>name r. req = PutSecret name r) \<or> (\<exists>name. req = RemoveSecret name) \<or>
    (\<exists>path body. req = SecretAction path body) \<or>
    (\<exists>f. router E parts req = as_admin E parts f \<and> (\<forall>adm rules. permitted (adm, rules) req = adm))"
  using assms by (cases req) (auto simp: write_request_def permitted_def route_defs)

text \<open>
  C2: nobody writes without the right to. A request that creates, updates, deletes or rotates a
  secret, manages roles or tokens, restores a backup or re-wraps keys is refused unless it
  carries a token that is stored and not revoked and whose role, as stored, permits the action
  on that name, or is an administrator's where the action is administrative; and a refused
  request changes no secret, no version, no role, no token but for the time of its last
  use, and no re-wrap state.
\<close>

theorem unauthorized_writes_refused:
  assumes "quiet E" "store_ok E" "vault_inv (e_codec E) (e_store_view E (w_store w))" "write_request req"
    and no: "\<not> (case rights_of E (e_store_view E (w_store w)) parts of
                 None \<Rightarrow> False | Some rights \<Rightarrow> permitted rights req)"
  shows "(\<exists>e. fst (router E parts req w) = Inl e) \<and>
     protected (e_codec E) (e_store_view E (w_store (snd (router E parts req w)))) =
     protected (e_codec E) (e_store_view E (w_store w))"
proof -
  have as_admin: ?thesis if "router E parts req = as_admin E parts f" "\<And>adm rules. permitted (adm, rules) req = adm" for f
    unfolding that(1) as_admin_def using no that(2)
    by (intro denied_request [OF assms(1-3)] refuses_admin) simp
  have named: ?thesis
    if "router E parts req = bind (admin_actor E parts) (\<lambda>actor. bind (authz_authorize E actor action name) (f actor))"
      "\<And>adm rules. permitted (adm, rules) req = authorize adm rules action name" for action name f
    unfolding that(1) using no that(2)
    by (intro denied_request [OF assms(1-3)] refuses_authorize) simp
  consider (create) r where "req = PostSecret r"
    | (update) name r where "req = PutSecret name r"
    | (delete) name where "req = RemoveSecret name"
    | (action) path body where "req = SecretAction path body"
    | (admin) f where "router E parts req = as_admin E parts f" "\<And>adm rules. permitted (adm, rules) req = adm"
    using write_request_cases [OF assms(4)] by blast
  then show ?thesis
  proof cases
    case create
    then show ?thesis
      unfolding create router.simps route_create_secret_def using no create
      by (intro denied_request [OF assms(1-3)] refuses_create) (simp add: permitted_def)
  next
    case action
    with assms(4) obtain name where "rsplit_once (CHR ''/'') path = Some (name, ''rotate'')"
      by (auto simp: write_request_def rotates_def split: option.splits if_splits)
    then show ?thesis
      by (intro named [of "''rotate''" name]) (simp_all add: action secret_action_def permitted_def rotates_def)
  next
    case admin
    then show ?thesis by (rule as_admin)
  next
    case update
    then show ?thesis by (intro named) (simp_all add: route_defs permitted_def)
  next
    case delete
    then show ?thesis by (intro named) (simp_all add: route_defs permitted_def)
  qed
qed

lemma sample_env_quiet: "quiet sample_env"
  by (simp add: quiet_def)

definition anonymous :: request_parts where
  "anonymous = \<lparr>rq_authorization = None, rq_forwarded_for = None, rq_connect_info = None\<rparr>"

theorem unauthorized_writes_refused_witness:
  "\<exists>e. fst (router sample_env anonymous (RemoveSecret ''a'') sample_world) = Inl e"
  using unauthorized_writes_refused [OF sample_env_quiet sample_env_ok, of sample_world "RemoveSecret ''a''" anonymous]
    sample_world_inv
  by (simp add: write_request_def rights_of_def bearer_token_def anonymous_def)

section \<open>Reads\<close>

lemma keep_read_requests:
  assumes "\<not> write_request req"
  shows "keep (same_protected E p) (router E parts req)"
proof -
  note rules = keep_intro reads.keep_lockout reads.keep_admin_actor reads.keep_reader_guard reads.keep_authz
    reads.keep_as_admin reads.keep_get_secret reads.keep_get_secrets reads.keep_list_secrets reads.keep_verify
    reads.keep_manage_reads reads.keep_backup reads.keep_rewrap_status reads.keep_read
  show ?thesis
  proof (cases req)
    case (SecretAction path body)
    show ?thesis
    proof (cases "rsplit_once (CHR ''/'') path")
      case None
      then show ?thesis by (simp add: SecretAction secret_action_def bind_def keeps_def ok_or_def)
    next
      case (Some na)
      with assms SecretAction obtain name action where "rsplit_once (CHR ''/'') path = Some (name, action)"
        "action \<noteq> ''rotate''"
        by (cases na) (auto simp: write_request_def rotates_def split: if_splits)
      then show ?thesis
        by (simp add: SecretAction secret_action_def) (intro rules conjI impI)
    qed
  qed (use assms in \<open>simp_all add: write_request_def\<close>, (simp add: route_defs, intro rules; simp)+)
qed

text \<open>
  C26: reading never changes what it reads. Every request that is not a write, that is reading
  one secret or many, verifying a value, listing, taking a backup, asking for the re-wrap status,
  whether it succeeds or fails, leaves every secret, version, role and token as it was,
  up to the time a token was last used.
\<close>

theorem reads_change_nothing:
  assumes "quiet E" "store_ok E" "vault_inv (e_codec E) (e_store_view E (w_store w))" "\<not> write_request req"
  shows "protected (e_codec E) (e_store_view E (w_store (snd (router E parts req w)))) =
     protected (e_codec E) (e_store_view E (w_store w))"
  using keepsD [OF keep_read_requests [OF assms(4), of E "protected (e_codec E) (e_store_view E (w_store w))" parts], of w]
    assms(1-3) by simp

theorem reads_change_nothing_witness:
  "protected row_codec (redb_db (w_store (snd (router sample_env anonymous (GetSecret ''a'') sample_world)))) =
   protected row_codec (redb_db (w_store sample_world))"
  using reads_change_nothing [OF sample_env_quiet sample_env_ok, of sample_world "GetSecret ''a''" anonymous]
    sample_world_inv
  by (simp add: write_request_def)


definition local_reader :: request_parts where
  "local_reader = \<lparr>rq_authorization = None, rq_forwarded_for = Some ''10.0.0.9'',
     rq_connect_info = Some (V4 (Ipv4 10 0 0 5))\<rparr>"


section \<open>The life of a token\<close>

definition bearer :: "string \<Rightarrow> request_parts" where
  "bearer token = \<lparr>rq_authorization = Some (''Bearer '' @ token), rq_forwarded_for = None, rq_connect_info = None\<rparr>"

text \<open>What the encoding of random bytes looks like: not empty, and without blanks around.\<close>

definition b64url_ok :: "(bytes \<Rightarrow> string) \<Rightarrow> bool" where
  "b64url_ok enc \<longleftrightarrow> (\<forall>bs. bs \<noteq> [] \<longrightarrow> enc bs \<noteq> [] \<and> trim (enc bs) = enc bs)"

lemma bearer_token_bearer: "token \<noteq> [] \<Longrightarrow> trim token = token \<Longrightarrow> bearer_token (bearer token) = Some token"
  by (simp add: bearer_token_def bearer_def strip_prefix_def starts_with_def Let_def)

lemma create_token_effect:
  assumes "quiet E" "store_ok E" "create_token E req w = (Inr c, w1)"
    and "b64url_ok (e_b64url E)" "\<And>n k. length (e_random E n k) = k"
  obtains role now where
    "reader_role (e_codec E) (ct_role req) (e_store_view E (w_store w)) = Inr (Some role)"
    "tc_token c \<noteq> []" "trim (tc_token c) = tc_token c"
    "apply_add_token (e_codec E) \<lparr>tr_name = ct_name req, tr_role = Some (ct_role req),
       tr_fingerprint = fingerprint (e_sha256 E) (tc_token c), tr_created_at = now, tr_last_used_at = None,
       tr_revoked_at = None\<rparr> (e_store_view E (w_store w)) = (Inr (), e_store_view E (w_store w1))"
proof -
  from assms(3) obtain role where role: "reader_role (e_codec E) (ct_role req) (e_store_view E (w_store w)) = Inr (Some role)"
    and run: "bind (generate_token E) (\<lambda>token. bind (now_unix E) (\<lambda>now.
       bind (write_store E (AddToken \<lparr>tr_name = ct_name req, tr_role = Some (ct_role req),
         tr_fingerprint = fingerprint (e_sha256 E) token, tr_created_at = now, tr_last_used_at = None,
         tr_revoked_at = None\<rparr>)) (\<lambda>_. ret \<lparr>tc_name = ct_name req, tc_role = ct_role req, tc_token = token\<rparr>)))
       (sync E w) = (Inr c, w1)"
    by (auto simp: create_token_def bind_Inr quiet_read [OF assms(1)] Let_def split: if_splits)
  define u where "u = sync E w\<lparr>w_calls := Suc (Suc (Suc (w_calls w)))\<rparr>"
  define now where "now = (case e_system_time E (Suc (Suc (w_calls w))) of None \<Rightarrow> 0 | Some x \<Rightarrow> sint x)"
  have t: "tc_token c = e_b64url E (e_random E (Suc (w_calls w)) TOKEN_BYTES)"
    and wr: "write_store E (AddToken \<lparr>tr_name = ct_name req, tr_role = Some (ct_role req),
         tr_fingerprint = fingerprint (e_sha256 E) (tc_token c), tr_created_at = now, tr_last_used_at = None,
         tr_revoked_at = None\<rparr>) u = (Inr (), w1)"
    using run by (auto simp: bind_Inr generate_token_def now_unix_def numbered_Inr u_def now_def)
  have u: "w_store u = w_store w" using assms(1) by (simp add: u_def)
  have "e_random E (Suc (w_calls w)) TOKEN_BYTES \<noteq> []"
    using assms(5) [of "Suc (w_calls w)" TOKEN_BYTES] by (auto simp: TOKEN_BYTES_def)
  then have "tc_token c \<noteq> []" "trim (tc_token c) = tc_token c"
    using assms(4) t by (auto simp: b64url_ok_def)
  from that [OF role this, of now] quiet_write(1) [OF assms(1,2) wr] u show ?thesis by simp
qed

lemma token_rights:
  assumes "quiet E" "store_ok E" "vault_inv (e_codec E) (e_store_view E (w_store w))"
    "b64url_ok (e_b64url E)" "\<And>n k. length (e_random E n k) = k"
    "create_token E req w = (Inr c, w1)" "revoke_token E (ct_name req) w1 = (Inr (), w2)"
  shows "(\<exists>role. reader_role (e_codec E) (ct_role req) (e_store_view E (w_store w)) = Inr (Some role) \<and>
            rights_of E (e_store_view E (w_store w1)) (bearer (tc_token c)) =
              Some (rr_is_admin role, rr_permissions role)) \<and>
         rights_of E (e_store_view E (w_store w2)) (bearer (tc_token c)) = None"
proof -
  let ?cd = "e_codec E" and ?fp = "fingerprint (e_sha256 E) (tc_token c)"
  obtain role now where role: "reader_role ?cd (ct_role req) (e_store_view E (w_store w)) = Inr (Some role)"
    and tok: "tc_token c \<noteq> []" "trim (tc_token c) = tc_token c"
    and add: "apply_add_token ?cd \<lparr>tr_name = ct_name req, tr_role = Some (ct_role req), tr_fingerprint = ?fp,
       tr_created_at = now, tr_last_used_at = None, tr_revoked_at = None\<rparr> (e_store_view E (w_store w)) =
       (Inr (), e_store_view E (w_store w1))"
    using create_token_effect [OF assms(1,2,6,4,5)] by metis
  have wf: "db_wf (e_store_view E (w_store w))" using vault_invD(1) [OF assms(3)] .
  note cd = codec_okD [OF store_okD(1) [OF assms(2)]]
  define t where "t = \<lparr>tr_name = ct_name req, tr_role = Some (ct_role req), tr_fingerprint = ?fp,
       tr_created_at = now, tr_last_used_at = None, tr_revoked_at = None\<rparr>"
  have d1: "tget (TOKENS (e_store_view E (w_store w1))) ?fp = Some (enc_token ?cd t)"
    "tget (TOKENS_BY_NAME (e_store_view E (w_store w1))) (ct_name req) = Some ?fp"
    "ROLES (e_store_view E (w_store w1)) = ROLES (e_store_view E (w_store w))"
    "twf (TOKENS (e_store_view E (w_store w1)))"
    using add wf by (auto simp: apply_add_token_def Let_def t_def table_simps db_wfD split: if_splits
        dest!: sym [of _ "e_store_view E (w_store w1)"])
  note tb = bearer_token_bearer [OF tok]
  have "rights_of E (e_store_view E (w_store w1)) (bearer (tc_token c)) = Some (rr_is_admin role, rr_permissions role)"
    using role d1 by (simp add: rights_of_def tb token_by_fingerprint_def decode_opt_def cd t_def reader_role_def)
  moreover obtain at u where "write_store E (RevokeToken (ct_name req) at) u = (Inr (), w2)" "w_store u = w_store w1"
    using assms(7) by (auto simp: revoke_token_def bind_Inr now_unix_def numbered_Inr)
  with quiet_write(1) [OF assms(1,2)] have "apply_revoke_token ?cd (ct_name req) at (e_store_view E (w_store w1)) =
      (Inr (), e_store_view E (w_store w2))"
    by fastforce
  then have "tget (TOKENS (e_store_view E (w_store w2))) ?fp = Some (enc_token ?cd (t\<lparr>tr_revoked_at := Some at\<rparr>))"
    using d1 by (auto simp: apply_revoke_token_def cd t_def table_simps dest!: sym [of _ "e_store_view E (w_store w2)"])
  then have "rights_of E (e_store_view E (w_store w2)) (bearer (tc_token c)) = None"
    by (simp add: rights_of_def tb token_by_fingerprint_def decode_opt_def cd)
  ultimately show ?thesis using role by blast
qed

lemma rights_admin_actor:
  assumes "quiet E" "rights_of E (e_store_view E (w_store w)) parts = Some (adm, rules)" "peer_ip parts = None"
  shows "\<exists>actor w'. admin_actor E parts w = (Inr actor, w') \<and> aa_is_admin actor = adm \<and> aa_rules actor = rules"
proof -
  let ?d = "e_store_view E (w_store w)"
  obtain token t where token: "bearer_token parts = Some token"
    and t: "token_by_fingerprint (e_codec E) (fingerprint (e_sha256 E) token) ?d = Inr (Some t)" "tr_revoked_at t = None"
    using assms(2) by (auto simp: rights_of_def split: option.splits sum.splits if_splits)
  have read: "read_store E (\<lambda>cd. token_by_fingerprint cd (fingerprint (e_sha256 E) token)) w = (Inr (Some t), sync E w)"
    using assms(1) t by (simp add: quiet_read)
  have "\<exists>w1. role_rights E (tr_role t) (sync E w) = (Inr (adm, rules), w1)"
    using assms(1,2) token t
    by (auto simp: rights_of_def role_rights_def bind_Inr quiet_read split: option.splits sum.splits)
  then obtain w1 where role: "role_rights E (tr_role t) (sync E w) = (Inr (adm, rules), w1)" ..
  show ?thesis
    using assms(3) token read role t
    by (auto simp: admin_actor_def lockout_check_def Let_def bind_def ret_def ignore_def catch_def now_unix_def
        numbered_def split: prod.splits)
qed


lemma sample_b64url_ok: "b64url_ok (e_b64url sample_env)"
proof -
  have "graphic (digit_char (n mod 10))" for n :: nat
    using digit_char_digit [of "n mod 10"] by (simp add: graphic_def is_ascii_digit_iff)
  then show ?thesis
    by (auto simp: b64url_ok_def sample_env_def list_all_iff intro!: trim_graphic)
qed

lemma sample_world_db:
  "redb_db (w_store sample_world) = empty_db\<lparr>ROLES := [(''admin'', RowRole admin_role)]\<rparr>"
  by (simp add: sample_world_def from_database_def seed_admin_role_def empty_db_def admin_role_def)

lemma sample_add_token:
  assumes "redb_db (w_store u) = redb_db (w_store sample_world)"
  shows "\<exists>u'. write_store sample_env (AddToken t) u = (Inr (), u') \<and>
    TOKENS (redb_db (w_store u')) = [(tr_fingerprint t, RowToken t)] \<and>
    TOKENS_BY_NAME (redb_db (w_store u')) = [(tr_name t, tr_fingerprint t)]"
  using assms
  by (simp add: write_with_def Let_def redb_apply_def apply_add_token_def sample_world_db empty_db_def tget_def)

lemma sample_revoke_token:
  assumes "TOKENS (redb_db (w_store u)) = [(tr_fingerprint t, RowToken t)]"
    "TOKENS_BY_NAME (redb_db (w_store u)) = [(tr_name t, tr_fingerprint t)]" "tr_revoked_at t = None"
  shows "\<exists>u'. write_store sample_env (RevokeToken (tr_name t) at) u = (Inr (), u')"
  using assms by (simp add: write_with_def Let_def redb_apply_def apply_revoke_token_def tget_def)

lemma sample_token_runs:
  obtains c w1 w2 where
    "create_token sample_env \<lparr>ct_name = ''t'', ct_role = ''admin''\<rparr> sample_world = (Inr c, w1)"
    "revoke_token sample_env ''t'' w1 = (Inr (), w2)"
proof -
  let ?r = "\<lambda>token now. \<lparr>tr_name = ''t'', tr_role = Some ''admin'', tr_fingerprint = fingerprint (e_sha256 sample_env) token,
    tr_created_at = now, tr_last_used_at = None, tr_revoked_at = None\<rparr>"
  have name: "trim ''t'' = ''t''" by (rule trim_graphic) (simp add: graphic_def)
  have role: "read_store sample_env (\<lambda>cd. reader_role cd ''admin'') sample_world =
      (Inr (Some admin_role), sync sample_env sample_world)"
    by (simp add: read_with_def Let_def reader_role_def decode_opt_def sample_world_db tget_def)
  obtain token w1 where t: "generate_token sample_env (sync sample_env sample_world) = (Inr token, w1)"
    "w_store w1 = w_store sample_world" by (simp add: generate_token_def numbered_def)
  obtain now w2 where n: "now_unix sample_env w1 = (Inr now, w2)" "w_store w2 = w_store sample_world"
    using t(2) by (simp add: now_unix_def numbered_def)
  obtain w3 where w3: "write_store sample_env (AddToken (?r token now)) w2 = (Inr (), w3)"
    "TOKENS (redb_db (w_store w3)) = [(tr_fingerprint (?r token now), RowToken (?r token now))]"
    "TOKENS_BY_NAME (redb_db (w_store w3)) = [(tr_name (?r token now), tr_fingerprint (?r token now))]"
    using sample_add_token [of w2 "?r token now"] n(2) by auto
  have c: "create_token sample_env \<lparr>ct_name = ''t'', ct_role = ''admin''\<rparr> sample_world =
      (Inr \<lparr>tc_name = ''t'', tc_role = ''admin'', tc_token = token\<rparr>, w3)"
    using name w3(1) by (simp add: create_token_def bind_def role t(1) n(1) Let_def)
  obtain now' w4 where n': "now_unix sample_env w3 = (Inr now', w4)" "w_store w4 = w_store w3"
    by (simp add: now_unix_def numbered_def)
  obtain w5 where "write_store sample_env (RevokeToken ''t'' now') w4 = (Inr (), w5)"
    using sample_revoke_token [of w4 "?r token now"] w3 n'(2) by auto
  then have "revoke_token sample_env ''t'' w3 = (Inr (), w5)"
    by (simp add: revoke_token_def bind_def n'(1))
  with c show ?thesis by (rule that)
qed


end
