(* ===== verification/Secret_Laws.thy ===== *)
theory Secret_Laws
  imports Access_Laws
begin

text \<open>
  What the secret service promises about values over several requests: what was created,
  updated or rotated is what the next read returns and what verification accepts, and a
  rotation never loses the only password a database knows.
\<close>

section \<open>What the service relies on\<close>

text \<open>
  The cipher and the key management service keep their contracts, the random source fills its
  buffer, the JSON encoding of a user and password can be decoded, and encoded random bytes
  are valid UTF-8.
\<close>

definition crypto_ok :: "('b, 's) env \<Rightarrow> bool" where
  "crypto_ok E \<longleftrightarrow> aead_ok (e_aead E) \<and> kms_contract (e_kms E) True \<and> (\<forall>n k. length (e_random E n k) = k)"

definition payloads_ok :: "('b, 's) env \<Rightarrow> bool" where
  "payloads_ok E \<longleftrightarrow> (\<forall>up. e_dec_userpass E (e_enc_userpass E up) = Some up) \<and>
     (\<forall>bs. valid_utf8 (as_bytes (e_b64url E bs)))"

definition kms_failure :: "ApiError \<Rightarrow> bool" where
  "kms_failure e = (case e of ApiInternal (KmsFailed _) \<Rightarrow> True | _ \<Rightarrow> False)"

section \<open>Sealed versions\<close>

definition sealed :: "('b, 's) env \<Rightarrow> string \<Rightarrow> VersionRecord \<Rightarrow> bytes \<Rightarrow> bool" where
  "sealed E name r pt \<longleftrightarrow>
     (\<exists>n dk. km_generate_data_key (e_kms E) n (version_context name (vr_version r)) = Inr dk \<and>
        vr_wrapped_dek r = dk_wrapped dk \<and>
        seal (e_aead E) (dk_plaintext dk) (vr_nonce r) (aad_for name (vr_version r)) pt = Inr (vr_ciphertext r)) \<and>
     vr_aad r = aad_for name (vr_version r) \<and> length (vr_nonce r) = NONCE_LEN"

lemma seal_version_sealed:
  assumes "crypto_ok E" "seal_version E name v pt now w = (Inr r, w')"
  shows "sealed E name r pt" "vr_version r = v" "vr_created_at r = now" "vr_expires_at r = None"
  using assms
  by (auto simp: seal_version_def sealed_def Let_def bind_Inr kms_call_Inr generate_nonce_def numbered_Inr crypto_ok_def)
    blast

lemma open_version_cases:
  assumes "crypto_ok E" "cache_calm E" "cache_sound E (w_cache w)" "sealed E name r pt"
    and "open_version E name (vr_version r) r w = (res, w')"
  shows "res = Inr pt \<or> (\<exists>e. res = Inl e \<and> kms_failure e)"
proof (cases "version_dek E name (vr_version r) r w")
  case (Pair dekr w1)
  have ok: "aead_ok (e_aead E)" "kms_contract (e_kms E) True" using assms(1) by (simp_all add: crypto_ok_def)
  show ?thesis
  proof (cases dekr)
    case (Inl e)
    then have "kms_failure e" using Pair
      by (auto simp: version_dek_def bind_Inl cache_lookup_def kms_call_def numbered_def cache_store_def kms_failure_def
          split: prod.splits option.splits sum.splits)
    then show ?thesis using Inl Pair assms(4,5) by (auto simp: open_version_def Let_def sealed_def bind_def)
  next
    case (Inr dek)
    then obtain m kid c' where "km_decrypt_data_key (e_kms E) m (vr_wrapped_dek r) kid c' = Inr dek"
      using version_dek_sound [OF assms(2,3)] Pair unfolding unwraps_def by blast
    moreover obtain n dk where gen: "km_generate_data_key (e_kms E) n (version_context name (vr_version r)) = Inr dk"
      and r: "vr_wrapped_dek r = dk_wrapped dk"
        "seal (e_aead E) (dk_plaintext dk) (vr_nonce r) (aad_for name (vr_version r)) pt = Inr (vr_ciphertext r)"
      using assms(4) unfolding sealed_def by blast
    ultimately have "dek = dk_plaintext dk" using kms_contract.decrypt_generated [OF ok(2) TrueI gen] by simp
    with r have "open_sealed (e_aead E) dek (vr_nonce r) (aad_for name (vr_version r)) (vr_ciphertext r) = Inr pt"
      by (simp add: open_sealed_iff_seal [OF ok(1)])
    then show ?thesis using Inr Pair assms(4,5)
      by (auto simp: open_version_def Let_def sealed_def bind_def from_core_error_def)
  qed
qed


section \<open>The sample vault keeps the contracts\<close>

lemma valid_utf8_ascii: "list_all (\<lambda>b. b < 0x80) bs \<Longrightarrow> valid_utf8 bs"
  by (induction bs) auto

lemma sample_crypto_ok: "crypto_ok sample_env"
proof -
  have "aead_ok prefix_aead \<and> (\<forall>n. local_draw_ok ((\<lambda>_ :: nat. (replicate 32 1, replicate 24 2)) n))"
    by (simp add: prefix_aead_ok local_draw_ok_def DEK_LEN_def NONCE_LEN_def)
  then have "kms_contract sample_kms True"
    using lkms.kms_contract_axioms [of prefix_aead sample_wrapper "\<lambda>_. (replicate 32 1, replicate 24 2)"]
    unfolding sample_kms_def by simp
  then show ?thesis by (simp add: crypto_ok_def prefix_aead_ok) (simp add: sample_env_def)
qed

lemma sample_payloads_ok: "payloads_ok sample_env"
proof -
  have "e_dec_userpass sample_env (e_enc_userpass sample_env up) = Some up" for up :: UserPass
    by (cases up) (simp add: sample_env_def sample_enc_userpass_def sample_dec_userpass_def Let_def takeWhile_append)
  moreover have "valid_utf8 (as_bytes (e_b64url sample_env bs))" for bs
  proof (rule valid_utf8_ascii)
    have "(word_of_nat (of_char (digit_char d)) :: u8) < 0x80" if "d < 10" for d
    proof -
      have "d \<in> {0, 1, 2, 3, 4, 5, 6, 7, 8, 9}" using that by auto
      then show ?thesis by (auto simp: digit_char_def)
    qed
    then show "list_all (\<lambda>b. b < 0x80) (as_bytes (e_b64url sample_env bs))"
      by (simp add: sample_env_def as_bytes_def list.pred_set)
  qed
  ultimately show ?thesis by (simp add: payloads_ok_def)
qed

section \<open>Reading back what was written\<close>

text \<open>A payload decodes to what was shown to the client that wrote it.\<close>

definition payload_reads :: "('b, 's) env \<Rightarrow> Payload \<Rightarrow> bool" where
  "payload_reads E p \<longleftrightarrow> decode_payload E (pl_format p) (pl_bytes p) = Inr (pl_value p, pl_username p, pl_password p)"

definition request_utf8 :: "CreateSecretRequest \<Rightarrow> bool" where
  "request_utf8 req \<longleftrightarrow> pred_option (\<lambda>v. valid_utf8 (as_bytes v)) (cs_value req)"

lemma create_payload_reads:
  assumes "payloads_ok E" "request_utf8 req" "build_create_payload E req w = (Inr p, w')"
  shows "payload_reads E p"
  using assms
  by (auto simp: build_create_payload_def bind_Inr payload_reads_def decode_payload_def payloads_ok_def request_utf8_def
      decode_userpass_def encode_userpass_def generate_token_def numbered_Inr
      split: if_splits option.splits SecretKind.splits)

lemma rotate_payload_reads:
  assumes "payloads_ok E" "rotate_payload E name s w = (Inr p, w')"
  shows "payload_reads E p" "pl_format p = sr_format s"
  using assms
  by (auto simp: rotate_payload_def bind_Inr payload_reads_def decode_payload_def payloads_ok_def
      decode_userpass_def encode_userpass_def generate_token_def numbered_Inr split: SecretFormat.splits)

lemma read_value_cases:
  assumes "crypto_ok E" "cache_calm E" "cache_sound E (w_cache w)" "sealed E name r (pl_bytes p)" "payload_reads E p"
    and "sr_format s = pl_format p" "read_value E name ip s r w = (res, w')"
  shows "res = Inr \<lparr>sv_name = name, sv_kind = sr_kind s, sv_format = pl_format p, sv_version = vr_version r,
            sv_value = pl_value p, sv_username = pl_username p, sv_password = pl_password p,
            sv_created_at = rfc3339 E (vr_created_at r)\<rparr> \<or> (\<exists>e. res = Inl e \<and> kms_failure e)"
proof (cases "open_version E name (vr_version r) r w")
  case (Pair o1 w1)
  from open_version_cases [OF assms(1-4) this] show ?thesis
    using assms(5-7) Pair audit_run [of E None "Some ip" "''get''" "Some name" "''ok''" w1]
    by (auto simp: read_value_def bind_def payload_reads_def)
qed

lemma get_secret_cases:
  assumes "quiet E" "crypto_ok E" "cache_sound E (w_cache w)" "is_valid_secret_name name"
    and "reader_current_version (e_codec E) name (e_store_view E (w_store w)) = Inr (Some (s, r))"
    and "sealed E name r (pl_bytes p)" "payload_reads E p" "sr_format s = pl_format p"
    and "get_secret E name ip w = (res, w')"
  shows "res = Inr \<lparr>sv_name = name, sv_kind = sr_kind s, sv_format = pl_format p, sv_version = vr_version r,
            sv_value = pl_value p, sv_username = pl_username p, sv_password = pl_password p,
            sv_created_at = rfc3339 E (vr_created_at r)\<rparr> \<or> (\<exists>e. res = Inl e \<and> kms_failure e)"
proof -
  have calm: "cache_calm E" using assms(1) by (simp add: cache_calm_def)
  have "read_value E name ip s r (sync E w) = (res, w')"
    using assms(1,4,5,9) by (simp add: get_secret_def bind_def known_name_def read_with_def Let_def)
  from read_value_cases [OF assms(2) calm _ assms(6-8) this] assms(3) show ?thesis by simp
qed

text \<open>Bookkeeping after a write leaves what a read of a secret sees.\<close>

lemma protected_read:
  assumes "protected cd d = protected cd d'"
  shows "reader_current_version cd name d = reader_current_version cd name d'"
  unfolding reader_current_version_def protected_eqD [OF assms] ..

lemma same_read:
  assumes "quiet E" "store_ok E" "vault_inv (e_codec E) (e_store_view E (w_store w))"
    and "keep (same_protected E (protected (e_codec E) (e_store_view E (w_store w)))) m" "m w = (res, w')"
  shows "reader_current_version (e_codec E) name (e_store_view E (w_store w')) =
         reader_current_version (e_codec E) name (e_store_view E (w_store w))"
proof (rule protected_read)
  show "protected (e_codec E) (e_store_view E (w_store w')) = protected (e_codec E) (e_store_view E (w_store w))"
    using keepsD [OF assms(4), of w] assms(1-3,5) by simp
qed

lemma validate_target_world: "validate_target E t w = (res, w') \<Longrightarrow> w' = w"
  by (auto simp: validate_target_def bind_def split: RotationTarget.splits option.splits sum.splits)

definition new_secret :: "CreateSecretRequest \<Rightarrow> i64 \<Rightarrow> Payload \<Rightarrow> i64 \<Rightarrow> SecretRecord" where
  "new_secret req grace p now =
     \<lparr>sr_name = cs_name req, sr_kind = cs_kind req, sr_format = pl_format p, sr_description = cs_description req,
      sr_rotation_interval_secs = cs_rotation_interval_secs req, sr_grace_secs = grace, sr_current_version = 1,
      sr_next_rotation_at = (if cs_kind req = Automatic
        then map_option (next_rotation_unix now) (cs_rotation_interval_secs req) else None),
      sr_created_at = now, sr_updated_at = now, sr_target = cs_target req\<rparr>"

lemma create_secret_steps:
  assumes "create_secret E actor req w = (Inr c, w1)"
  obtains grace p now r u v v' where "is_valid_secret_name (cs_name req)" "build_create_payload E req w = (Inr p, u)"
    "seal_version E (cs_name req) 1 (pl_bytes p) now (u\<lparr>w_calls := Suc (w_calls u)\<rparr>) = (Inr r, v)"
    "write_store E (CreateSecret (new_secret req grace p now) r) v = (Inr (), v')"
    "audit E (Some actor) None ''create'' (Some (cs_name req)) ''ok'' v' = (Inr (), w1)"
    "c = \<lparr>sv_name = cs_name req, sv_kind = cs_kind req, sv_format = pl_format p, sv_version = 1,
          sv_value = pl_value p, sv_username = pl_username p, sv_password = pl_password p,
          sv_created_at = rfc3339 E now\<rparr>"
proof -
  have "\<exists>grace. is_valid_secret_name (cs_name req) \<and>
    bind (build_create_payload E req) (\<lambda>p. bind (now_unix E) (\<lambda>now.
      bind (seal_version E (cs_name req) 1 (pl_bytes p) now) (\<lambda>r.
      bind (write_store E (CreateSecret (new_secret req grace p now) r)) (\<lambda>_.
      bind (audit E (Some actor) None ''create'' (Some (cs_name req)) ''ok'') (\<lambda>_.
      ret \<lparr>sv_name = cs_name req, sv_kind = cs_kind req, sv_format = pl_format p, sv_version = 1,
          sv_value = pl_value p, sv_username = pl_username p, sv_password = pl_password p,
          sv_created_at = rfc3339 E now\<rparr>))))) w = (Inr c, w1)"
    using assms unfolding create_secret_def Let_def new_secret_def [symmetric] bind_Inr [of "check _"]
      bind_Inr [of "case_option _ _ _"]
    by (auto simp: validate_name_def split: if_splits option.splits dest!: validate_target_world)
  then show ?thesis
    using that by (auto simp: bind_Inr now_unix_def numbered_Inr)
qed

lemma keeps_run: "keeps I m Q \<Longrightarrow> m w = (res, w') \<Longrightarrow> I w \<Longrightarrow> I w'"
  using keepsD [of I m Q w] by simp

lemma quiet_calm: "quiet E \<Longrightarrow> cache_calm E"
  by (simp add: cache_calm_def)


definition sample_request :: CreateSecretRequest where
  "sample_request = \<lparr>cs_name = ''db/password'', cs_kind = Manual, cs_value = Some ''s3cret'',
     cs_username = None, cs_password = None, cs_description = None, cs_rotation_interval_secs = None,
     cs_grace_period_secs = None, cs_target = None\<rparr>"

lemma sample_request_utf8: "request_utf8 sample_request"
  by (simp add: request_utf8_def sample_request_def as_bytes_def)


text \<open>The sample vault after a secret was created.\<close>

definition vault_with :: "CreateSecretRequest \<Rightarrow> row RedbStore world" where
  "vault_with req = snd (create_secret sample_env ''ops'' req sample_world)"

lemma vault_with_ok:
  "vault_inv (e_codec sample_env) (e_store_view sample_env (w_store (vault_with req)))"
  "cache_sound sample_env (w_cache (vault_with req))"
  using keepsD [OF store_run.keep_create_secret [of sample_env "''ops''" req], of sample_world] sample_env_ok sample_world_inv
    keepsD [OF cache_run.keep_create_secret [of sample_env "''ops''" req], of sample_world] sample_env_calm sample_world_sound
  by (simp_all add: vault_with_def)

definition sample_login :: CreateSecretRequest where
  "sample_login = \<lparr>cs_name = ''db/login'', cs_kind = Automatic, cs_value = None,
     cs_username = Some ''app'', cs_password = Some ''pw0'', cs_description = None, cs_rotation_interval_secs = Some 3600,
     cs_grace_period_secs = Some 60,
     cs_target = Some (PgReplica \<lparr>pg_hosts = [''db1:5432''], pg_database = ''postgres'', pg_role = None,
       pg_login_secret = None\<rparr>)\<rparr>"

section \<open>Rotation\<close>

interpretation attempts: api_writer E "\<lambda>w. w_attempts w = A" "\<lambda>_. True"
  for E :: "('b, 's) env" and A
  by unfold_locales (simp_all add: cache_lookup_world)

text \<open>Every attempt that the second half of a rotation adds offers the new password.\<close>

definition offers :: "string \<Rightarrow> pg_attempt list \<Rightarrow> 's world \<Rightarrow> bool" where
  "offers pw before w \<longleftrightarrow>
     (\<exists>new. w_attempts w = before @ new \<and> list_all (\<lambda>a. pa_new_password a = pw) new)"

lemma apply_password_offers:
  "list_all (\<lambda>a. pa_new_password a = pw) (snd (apply_password pg n p target user password role pw))"
proof (cases "policy_check p target")
  case (Inr u)
  let ?f = "\<lambda>hostport. let hp = split_hostport hostport
     in try_rotate p (fst hp) (snd hp) (pg_database target) user password role pw"
  show ?thesis
    using Inr try_hosts_attempts [of pg n ?f "pg_hosts target" "NoWritablePrimary (pg_hosts target)"]
    by (auto simp: apply_password_def list.pred_set try_rotate_def Let_def)
qed (simp add: apply_password_def)

lemma offers_pg_apply: "offers pw A w \<Longrightarrow> offers pw A (snd (pg_apply E pg user password role pw w))"
  using apply_password_offers [of pw "e_pg E" "length (w_attempts w)" "e_pg_targets E" pg user password role]
  by (auto simp: offers_def pg_apply_def split: prod.split)

lemma offers_try_logins: "offers pw A w \<Longrightarrow> offers pw A (snd (try_logins E pg role pw logins e w))"
proof (induction logins arbitrary: e w)
  case (Cons l ls)
  show ?case
    using Cons.IH offers_pg_apply [OF Cons.prems, of E pg "up_username l" "up_password l" role]
    by (auto simp: bind_def split: prod.split sum.split)
qed simp

lemma offers_apply_target:
  assumes "w_attempts w = A" "apply_target E name v now target user pw w = (res, w')"
  shows "offers pw A w'"
proof (cases target)
  case (PgReplica pg)
  let ?logins = "case pg_login_secret pg of
      Some login \<Rightarrow> (if login \<noteq> name then bind (load_current_userpass E login) (\<lambda>up. ret [up])
                     else self_login_candidates E name v now)
    | None \<Rightarrow> self_login_candidates E name v now"
  define L where "L = ?logins"
  have "keep (\<lambda>w. w_attempts w = A) L" unfolding L_def by (intro keep_intro) simp_all
  then have "w_attempts (snd (L w)) = A" using keepsD assms(1) by blast
  then have start: "offers pw A (snd (L w))" by (simp add: offers_def)
  have "w' = snd (L w) \<or> (\<exists>logins. w' = snd (try_logins E pg (unwrap_or user (pg_role pg)) pw logins None (snd (L w))))"
    using assms(2) unfolding apply_target_def PgReplica RotationTarget.case L_def [symmetric]
    by (auto simp: bind_def split: sum.splits prod.splits if_splits option.splits) (metis snd_conv)+
  with start show ?thesis using offers_try_logins by auto
qed

text \<open>What is committed before a rotation target is contacted.\<close>

lemma rotate_commit_effect:
  fixes E :: "('b, 's) env"
  assumes "quiet E" "store_ok E" "vault_inv (e_codec E) (e_store_view E (w_store w))" "crypto_ok E" "payloads_ok E"
    and run: "rotate_commit E name w = (Inr (secret, nv, now, p), w1)"
  obtains r s where "sealed E name r (pl_bytes p)" "payload_reads E p" "sr_format s = pl_format p"
    "pl_format p = sr_format secret" "vr_version r = nv" "vr_created_at r = now" "sr_kind s = sr_kind secret"
    "reader_current_version (e_codec E) name (e_store_view E (w_store w1)) = Inr (Some (s, r))"
    "vault_inv (e_codec E) (e_store_view E (w_store w1))" "next_version (sr_current_version secret) = Some nv"
    "sr_current_version s = nv"
proof -
  let ?I = "same_protected E (protected (e_codec E) (e_store_view E (w_store w)))" and ?c = "sr_current_version secret"
  define cmd where "cmd = (\<lambda>r. PutVersion name ?c r (Some (grace_expiry_unix now (sr_grace_secs secret))) None None None
       (Set (Some (next_rotation_unix now (unwrap_or 0 (sr_rotation_interval_secs secret))))) now :: 'b Command)"
  obtain u u' v r where sec: "reader_secret (e_codec E) name (e_store_view E (w_store w)) = Inr (Some secret)"
    and nv: "next_version ?c = Some nv" and p: "rotate_payload E name secret u = (Inr p, u')" and "?I u"
    and r: "seal_version E name nv (pl_bytes p) now u' = (Inr r, v)"
    and wr: "write_store E (cmd r) v = (Inr (), w1)"
    using run assms(1,3)
    by (auto simp: rotate_commit_def Let_def bind_Inr load_secret_def quiet_read next_version_of_def now_unix_def
        numbered_Inr cmd_def split: if_splits)
  note sl = seal_version_sealed [OF assms(4) r]
  have "?I u'" by (rule keeps_run [OF reads.keep_rotate_payload p]) fact
  then have "?I v" by (rule keeps_run [OF reads.keeps_seal_version r])
  then have v: "vault_inv (e_codec E) (e_store_view E (w_store v))"
    and vs: "SECRETS (e_store_view E (w_store v)) = SECRETS (e_store_view E (w_store w))"
    using assms(1,2) by (auto dest: protected_eqD)
  obtain st where st: "e_store_apply E (cmd r) (w_store v) = (Inr (), st)" "w_store w1 = st"
    using wr assms(1) by (auto simp: write_with_Inr)
  have ok: "command_ok (e_codec E) (cmd r)" using nv sl by (simp add: command_ok_def cmd_def)
  obtain s where s: "reader_secret (e_codec E) name (e_store_view E (w_store v)) = Inr (Some s)"
    "reader_current_version (e_codec E) name (e_store_view E st) =
      Inr (Some (apply_meta None None None (Set (Some (next_rotation_unix now (unwrap_or 0 (sr_rotation_interval_secs secret)))))
        now (s\<lparr>sr_current_version := vr_version r\<rparr>), r))"
    using vault_store.read_after_put [OF store_okD(2) [OF assms(2)] store_okD(1) [OF assms(2)] v ok [unfolded cmd_def]
        st(1) [unfolded cmd_def]] by blast
  have "s = secret" using s(1) sec vs by (simp add: reader_secret_def)
  then show ?thesis
    using that [OF sl(1) rotate_payload_reads(1) [OF assms(5) p] _ rotate_payload_reads(2) [OF assms(5) p] sl(2,3) _
        s(2) [folded st(2)] _ nv] write_keeps_inv [OF assms(2) v ok] st rotate_payload_reads(2) [OF assms(5) p] sl(2)
    by (simp add: apply_meta_def)
qed

text \<open>What a read of a secret returns, up to the schedule of its rotations.\<close>

definition serves :: "('b, 's) env \<Rightarrow> string \<Rightarrow> SecretKind \<Rightarrow> SecretFormat \<Rightarrow> VersionRecord \<Rightarrow> 's world \<Rightarrow> bool" where
  "serves E name kind format r w \<longleftrightarrow> vault_inv (e_codec E) (e_store_view E (w_store w)) \<and>
     (\<exists>s. reader_current_version (e_codec E) name (e_store_view E (w_store w)) = Inr (Some (s, r)) \<and>
        sr_kind s = kind \<and> sr_format s = format)"

lemma serves_keep:
  assumes "quiet E" "store_ok E" "\<And>p. keep (same_protected E p) m" "m w = (res, w')" "serves E name k f r w"
  shows "serves E name k f r w'"
proof -
  have I: "vault_inv (e_codec E) (e_store_view E (w_store w))" using assms(5) by (simp add: serves_def)
  have "vault_inv (e_codec E) (e_store_view E (w_store w'))"
    using keeps_run [OF assms(3) [of "protected (e_codec E) (e_store_view E (w_store w))"] assms(4)] assms(1,2) I by simp
  then show ?thesis
    using same_read [OF assms(1,2) I assms(3,4)] assms(5) by (simp add: serves_def)
qed

lemma update_meta_read:
  assumes "codec_ok cd" "db_wf d" "apply_update_meta cd name v desc intv grc nxt upd d = (Inr (), d')"
    and "reader_current_version cd name d = Inr (Some (s, r))"
  shows "reader_current_version cd name d' = Inr (Some (apply_meta desc intv grc nxt upd s, r))"
proof -
  obtain b where b: "tget (SECRETS d) name = Some b" "dec_secret cd b = Some s"
    using assms(4) by (auto simp: reader_current_version_def split: option.splits)
  then have "d' = d\<lparr>SECRETS := tinsert name (enc_secret cd (apply_meta desc intv grc nxt upd s)) (SECRETS d)\<rparr>"
    using assms(3) by (simp add: apply_update_meta_def Let_def split: if_splits)
  then show ?thesis
    using assms(2,4) b
    by (auto simp: reader_current_version_def table_simps db_wfD codec_okD [OF assms(1)] split: option.splits)
qed

lemma serves_retry:
  assumes "quiet E" "store_ok E" "serves E name k f r w"
  shows "serves E name k f r (snd (schedule_apply_retry E name v now w))"
proof -
  define c where "c = (UpdateMeta name v None None None (Set (Some (next_rotation_unix now APPLY_RETRY_SECS))) now :: 'a Command)"
  obtain res st where st: "e_store_apply E c (w_store w) = (res, st)" by force
  have w': "w_store (snd (schedule_apply_retry E name v now w)) = st"
    using st assms(1) by (simp add: schedule_apply_retry_def c_def ignore_run write_with_def Let_def split: prod.split)
  obtain s where s: "vault_inv (e_codec E) (e_store_view E (w_store w))"
    "reader_current_version (e_codec E) name (e_store_view E (w_store w)) = Inr (Some (s, r))" "sr_kind s = k" "sr_format s = f"
    using assms(3) by (auto simp: serves_def)
  have I: "vault_inv (e_codec E) (e_store_view E st)"
    using write_keeps_inv [OF assms(2) s(1), of c] st by (simp add: command_ok_def c_def)
  note vs = store_okD(2) [OF assms(2)]
  show ?thesis
  proof (cases res)
    case (Inl e)
    then have "e_store_view E st = e_store_view E (w_store w)" using vault_store.write_err [OF vs] st by blast
    then show ?thesis using s w' by (simp add: serves_def)
  next
    case (Inr u)
    then have "apply_command (e_codec E) (e_store_node E (w_store w)) c (e_store_view E (w_store w)) = (Inr (), e_store_view E st)"
      using vault_store.write_ok [OF vs] st by simp
    then have "apply_update_meta (e_codec E) name v None None None (Set (Some (next_rotation_unix now APPLY_RETRY_SECS))) now
        (e_store_view E (w_store w)) = (Inr (), e_store_view E st)" by (simp add: c_def)
    from update_meta_read [OF store_okD(1) [OF assms(2)] vault_invD(1) [OF s(1)] this s(2)] show ?thesis
      using s I w' by (simp add: serves_def apply_meta_def)
  qed
qed

lemma serves_get:
  assumes "quiet E" "crypto_ok E" "cache_sound E (w_cache w)" "serves E name k (pl_format p) r w"
    and "sealed E name r (pl_bytes p)" "payload_reads E p"
  shows "fst (get_secret E name ip w) = Inr \<lparr>sv_name = name, sv_kind = k, sv_format = pl_format p,
            sv_version = vr_version r, sv_value = pl_value p, sv_username = pl_username p,
            sv_password = pl_password p, sv_created_at = rfc3339 E (vr_created_at r)\<rparr> \<or>
         (\<exists>e. fst (get_secret E name ip w) = Inl e \<and> kms_failure e)"
proof -
  obtain s where I: "vault_inv (e_codec E) (e_store_view E (w_store w))"
    and s: "reader_current_version (e_codec E) name (e_store_view E (w_store w)) = Inr (Some (s, r))"
      "sr_kind s = k" "sr_format s = pl_format p"
    using assms(4) by (auto simp: serves_def)
  obtain b where "tget (SECRETS (e_store_view E (w_store w))) name = Some b"
    using s(1) by (auto simp: reader_current_version_def split: option.splits)
  then have "is_valid_secret_name name"
    using secrets_inv_secret [OF vault_invD(2) [OF I]] by (metis secret_row_ok_def)
  from get_secret_cases [OF assms(1-3) this s(1) assms(5,6) s(3) prod.collapse [symmetric]] s(2) show ?thesis by simp
qed

text \<open>The second half of a rotation: whatever its outcome, the committed version is served.\<close>

lemma serves_audit:
  assumes "quiet E" "store_ok E" "serves E name k f r w"
  shows "serves E name k f r (snd (audit E actor ip action n outcome w))"
    "w_attempts (snd (audit E actor ip action n outcome w)) = w_attempts w"
    "fst (audit E actor ip action n outcome w) = Inr ()"
  using serves_keep [OF assms(1,2) reads.keep_audit prod.collapse [symmetric] assms(3)]
    keepsD [OF attempts.keep_audit] audit_run [of E actor ip action n outcome w] by (blast, blast, auto)

lemma rotate_tail:
  assumes "quiet E" "store_ok E" "rotate_commit E name w = (Inr (secret, nv, now, p), w2)"
    and "serves E name k f r w2" "pl_format p = sr_format secret" "payload_reads E p"
    and run: "rotate E actor cip name w = (res, w1)"
  shows "serves E name k f r w1 \<and>
    (\<exists>new. w_attempts w1 = w_attempts w2 @ new \<and> list_all (\<lambda>a. pl_password p = Some (pa_new_password a)) new) \<and>
    (res = Inr c \<longrightarrow> c = \<lparr>sv_name = name, sv_kind = sr_kind secret, sv_format = sr_format secret, sv_version = nv,
       sv_value = pl_value p, sv_username = pl_username p, sv_password = pl_password p, sv_created_at = rfc3339 E now\<rparr>)"
    (is "?serves \<and> ?new \<and> (_ \<longrightarrow> c = ?sv)")
proof -
  let ?audit = "\<lambda>outcome. audit E (Some actor) cip ''rotate'' (Some name) outcome"
  have finish: ?thesis if "serves E name k f r w3" "w_attempts w3 = w_attempts w2 @ new"
    "list_all (\<lambda>a. pl_password p = Some (pa_new_password a)) new"
    "w1 = snd (?audit outcome w3)" "res = Inr ?sv \<or> (\<exists>e. res = Inl e)" for w3 new outcome
    using that serves_audit [OF assms(1,2) that(1)] by auto
  show ?thesis
  proof (cases "sr_format secret = Userpass \<and> sr_target secret \<noteq> None")
    case False
    then have "bind (?audit ''ok'') (\<lambda>_. ret ?sv) w2 = (res, w1)"
      using assms(3) run by (auto simp: rotate_def bind_def split: option.splits if_splits)
    then show ?thesis
      using serves_audit(3) [OF assms(1,2,4)]
      by (intro finish [OF assms(4), of "[]" "''ok''"]) (auto simp: bind_def split: prod.splits sum.splits)
  next
    case True
    then obtain t where t: "sr_target secret = Some t" "sr_format secret = Userpass" by auto
    obtain user pw where up: "pl_username p = Some user" "pl_password p = Some pw"
      using assms(5,6) t(2) by (auto simp: payload_reads_def decode_payload_def split: sum.splits dest!: sym [of "Some _"])
    obtain ares w3 where T: "apply_target E name (sr_current_version secret) now t user pw w2 = (ares, w3)" by force
    obtain new where new: "w_attempts w3 = w_attempts w2 @ new" "list_all (\<lambda>a. pl_password p = Some (pa_new_password a)) new"
      using offers_apply_target [OF refl T] up by (auto simp: offers_def list.pred_set)
    have s3: "serves E name k f r w3" by (rule serves_keep [OF assms(1,2) reads.keep_apply_target T assms(4)])
    obtain w4 where w4: "schedule_apply_retry E name nv now w3 = (Inr (), w4)"
      by (simp add: schedule_apply_retry_def ignore_run)
    have s4: "serves E name k f r w4" using serves_retry [OF assms(1,2) s3, of nv now] w4 by simp
    have a4: "w_attempts w4 = w_attempts w3" by (rule keeps_run [OF attempts.keep_schedule_apply_retry w4]) simp
    show ?thesis
    proof (cases ares)
      case (Inr u)
      then have "bind (?audit ''ok'') (\<lambda>_. ret ?sv) w3 = (res, w1)"
        using assms(3) run t up T by (simp add: rotate_def bind_def catch_def unwrap_or_def)
      then show ?thesis
        using serves_audit(3) [OF assms(1,2) s3]
        by (intro finish [OF s3 new, of "''ok''"]) (auto simp: bind_def split: prod.splits sum.splits)
    next
      case (Inl err)
      then have "bind (schedule_apply_retry E name nv now) (\<lambda>_. bind (?audit ''apply_failed'') (\<lambda>_. raise err)) w3 = (res, w1)"
        using assms(3) run t up T
        by (simp add: rotate_def bind_def catch_def unwrap_or_def split: prod.splits sum.splits)
      then show ?thesis
        using serves_audit(3) [OF assms(1,2) s4]
        by (intro finish [OF s4 _ new(2), of "''apply_failed''"])
          (auto simp: a4 new bind_def w4 split: prod.splits sum.splits)
    qed
  qed
qed



section \<open>Verification\<close>

definition value_is :: "('b, 's) env \<Rightarrow> SecretFormat \<Rightarrow> string \<Rightarrow> bytes \<Rightarrow> bool" where
  "value_is E format presented pt \<longleftrightarrow>
     (case format of
        Opaque \<Rightarrow> pt = as_bytes presented
      | Userpass \<Rightarrow> (\<exists>user. e_dec_userpass E pt = Some \<lparr>up_username = user, up_password = presented\<rparr>))"

text \<open>The latest live version whose plaintext is the presented value.\<close>

definition verify_spec :: "('b, 's) env \<Rightarrow> 'b db \<Rightarrow> i64 \<Rightarrow> string \<Rightarrow> string \<Rightarrow> i32 option" where
  "verify_spec E d now name presented =
     (case (reader_secret (e_codec E) name d, live_versions (e_codec E) name now d) of
        (Inr (Some s), Inr rs) \<Rightarrow>
          (if presented = [] then None
           else map_option vr_version
             (find (\<lambda>r. \<exists>pt. plaintext_of E name r pt \<and> value_is E (sr_format s) presented pt) rs))
      | _ \<Rightarrow> None)"

lemma presented_matches_iff: "presented_matches E format presented pt \<longleftrightarrow> value_is E format presented pt"
proof -
  have "up_password up = presented \<longleftrightarrow> (\<exists>user. up = \<lparr>up_username = user, up_password = presented\<rparr>)" for up :: UserPass
    by (cases up) auto
  then show ?thesis
    by (auto simp: presented_matches_def value_is_def fingerprints_match_def decode_userpass_def ok_or_def
        split: SecretFormat.splits option.splits)
qed

lemma plaintext_unique:
  assumes "crypto_ok E" "plaintext_of E name r pt" "plaintext_of E name r pt'"
  shows "pt = pt'"
proof -
  have ok: "aead_ok (e_aead E)" "kms_contract (e_kms E) True" using assms(1) by (simp_all add: crypto_ok_def)
  obtain dek dek' where d: "unwraps E (vr_wrapped_dek r) dek" "unwraps E (vr_wrapped_dek r) dek'"
    and s: "seal (e_aead E) dek (vr_nonce r) (aad_for name (vr_version r)) pt = Inr (vr_ciphertext r)"
      "seal (e_aead E) dek' (vr_nonce r) (aad_for name (vr_version r)) pt' = Inr (vr_ciphertext r)"
    using assms(2,3) unfolding plaintext_of_def by blast
  have "dek = dek'" using d kms_contract.decrypt_deterministic [OF ok(2) TrueI] unfolding unwraps_def by blast
  then show ?thesis using s unfolding open_sealed_iff_seal [OF ok(1), symmetric] by simp
qed

lemma find_match_find:
  assumes "quiet E" "crypto_ok E" "cache_sound E (w_cache w)" "find_match E name format presented rs w = (Inr m, w')"
  shows "m = map_option vr_version
    (find (\<lambda>r. \<exists>pt. plaintext_of E name r pt \<and> value_is E format presented pt) rs)"
  using assms(3,4)
proof (induction rs arbitrary: w)
  case (Cons r rs)
  obtain pt w1 where o1: "open_version E name (vr_version r) r w = (Inr pt, w1)"
    and rest: "(if value_is E format presented pt then ret (Some (vr_version r))
                else find_match E name format presented rs) w1 = (Inr m, w')"
    using Cons.prems(2) by (auto simp: bind_Inr presented_matches_iff)
  have calm: "cache_calm E" and aead: "aead_ok (e_aead E)" using assms(1,2) by (simp_all add: quiet_calm crypto_ok_def)
  note pt = open_version_plaintext [OF aead calm Cons.prems(1) o1]
  have "cache_calm E \<longrightarrow> cache_sound E (w_cache w1)"
    by (rule keeps_run [OF cache_run.keep_open_version o1]) (simp add: Cons.prems)
  then have cs: "cache_sound E (w_cache w1)" using calm by simp
  have "(\<exists>pt'. plaintext_of E name r pt' \<and> value_is E format presented pt') \<longleftrightarrow> value_is E format presented pt"
    using pt plaintext_unique [OF assms(2) pt] by blast
  then show ?case using rest Cons.IH [OF cs] by (auto split: if_splits)
qed simp

lemma check_verify_store:
  assumes "quiet E" "check_verify E peer name w = (res, w')"
  shows "w_store w' = w_store w"
  using assms
  by (auto simp: check_verify_def check_key_def bind_def read_with_def Let_def now_unix_def numbered_def
      split: if_splits sum.splits option.splits)

text \<open>
  C18: verification is exact. A verification that returns an answer accepts a value if and only if it is
  not empty and is the value, or the password, of a version of that secret that is live at
  that time: the current version, or a superseded one within its grace period. The version it
  reports is the latest such version.
\<close>

theorem verify_exact:
  assumes "quiet E" "store_ok E" "vault_inv (e_codec E) (e_store_view E (w_store w))" "cache_sound E (w_cache w)" "crypto_ok E"
  shows "case verify E name cip peer presented w of
     (Inl _, _) \<Rightarrow> True
   | (Inr answer, _) \<Rightarrow>
       (\<exists>n. let now = (case e_system_time E n of Some secs \<Rightarrow> sint secs | None \<Rightarrow> 0);
                version = verify_spec E (e_store_view E (w_store w)) now name presented
            in answer = \<lparr>vf_valid = (version \<noteq> None), vf_version = version\<rparr>)"
proof -
  let ?d = "e_store_view E (w_store w)" and ?clock = "\<lambda>n. case e_system_time E n of Some secs \<Rightarrow> sint secs | None \<Rightarrow> 0"
  have "\<exists>n. answer = \<lparr>vf_valid = (verify_spec E ?d (?clock n) name presented \<noteq> None),
      vf_version = verify_spec E ?d (?clock n) name presented\<rparr>"
    if run: "verify E name cip peer presented w = (Inr answer, w')" for answer w'
  proof -
    define M where "M = (\<lambda>(found :: SecretRecord option) now. case found of None \<Rightarrow> ret None
       | Some secret \<Rightarrow> bind (read_store E (\<lambda>cd. live_versions cd name now)) (\<lambda>versions.
           find_match E name (sr_format secret) presented versions))"
    obtain w1 where chk: "check_verify E peer name w = (Inr (), w1)"
      and rest: "(if presented = [] then verify_invalid E name cip peer
        else bind (now_unix E) (\<lambda>now. bind (read_store E (\<lambda>cd. reader_secret cd name)) (\<lambda>found.
         bind (M found now) (\<lambda>matched.
         case matched of
           Some version \<Rightarrow> bind (audit E None (Some cip) ''verify'' (Some name) ''valid'') (\<lambda>_.
             ret \<lparr>vf_valid = True, vf_version = Some version\<rparr>)
         | None \<Rightarrow> verify_invalid E name cip peer)))) w1 = (Inr answer, w')"
      using run unfolding M_def by (auto simp: verify_def bind_Inr)
    have st: "w_store w1 = w_store w" by (rule check_verify_store [OF assms(1) chk])
    have "cache_calm E \<longrightarrow> cache_sound E (w_cache w1)"
      by (rule keeps_run [OF cache_run.keep_lockout(4) chk]) (simp add: assms)
    then have cs: "cache_sound E (w_cache w1)" using quiet_calm [OF assms(1)] by simp
    have invalid: "answer = \<lparr>vf_valid = False, vf_version = None\<rparr>"
      if "verify_invalid E name cip peer u = (Inr answer, w')" for u
      using that by (auto simp: verify_invalid_def bind_Inr)
    show ?thesis
    proof (cases "presented = []")
      case True
      then show ?thesis using rest invalid by (auto simp: verify_spec_def split: sum.split option.split)
    next
      case False
      let ?now = "?clock (w_calls w1)" and ?u = "sync E (w1\<lparr>w_calls := Suc (w_calls w1)\<rparr>)"
      obtain found m u where found: "reader_secret (e_codec E) name ?d = Inr found"
        and m: "M found ?now ?u = (Inr m, u)"
        and "(case m of
           Some version \<Rightarrow> bind (audit E None (Some cip) ''verify'' (Some name) ''valid'') (\<lambda>_.
             ret \<lparr>vf_valid = True, vf_version = Some version\<rparr>)
         | None \<Rightarrow> verify_invalid E name cip peer) u = (Inr answer, w')"
        using rest False st assms(1) by (simp add: bind_Inr [of "M _ _"] bind_Inr [of "numbered _"]
            bind_Inr [of "read_with _ _ _"] now_unix_def numbered_Inr quiet_read) blast
      then have ans: "answer = \<lparr>vf_valid = (m \<noteq> None), vf_version = m\<rparr>"
        using invalid by (auto simp: bind_Inr split: option.splits)
      have "m = verify_spec E ?d ?now name presented"
        using found m st assms(1) False cs
        by (auto simp: M_def verify_spec_def bind_Inr quiet_read split: option.splits sum.splits
            dest!: find_match_find [OF assms(1,5), rotated])
      then show ?thesis using ans by blast
    qed
  qed
  then show ?thesis unfolding Let_def by (auto split: prod.splits sum.splits)
qed

theorem verify_exact_witness:
  "case verify sample_env ''db/password'' (Ipv4 10 0 0 5) (V4 (Ipv4 10 0 0 5)) ''s3cret'' (vault_with sample_request) of
     (Inl _, _) \<Rightarrow> True
   | (Inr answer, _) \<Rightarrow>
       (\<exists>n. let now = (case e_system_time sample_env n of Some secs \<Rightarrow> sint secs | None \<Rightarrow> 0);
                version = verify_spec sample_env (e_store_view sample_env (w_store (vault_with sample_request))) now ''db/password'' ''s3cret''
            in answer = \<lparr>vf_valid = (version \<noteq> None), vf_version = version\<rparr>)"
  by (rule verify_exact [OF sample_env_quiet sample_env_ok vault_with_ok sample_crypto_ok])

end
