(* ===== verification/Rewrap_Laws.thy ===== *)
theory Rewrap_Laws
  imports Secret_Laws
begin

text \<open>
  What a pass of re-wrapping achieves: it changes nothing but how data keys are wrapped, and if
  no step failed every live version is wrapped for the rotation it was run for.
\<close>

section \<open>Versions up to their wrapping\<close>

definition bare_version :: "VersionRecord \<Rightarrow> VersionRecord" where
  "bare_version r = r\<lparr>vr_kms_key_id := [], vr_wrapped_dek := [], vr_wrapped_rotation_at := None\<rparr>"

definition bare_rows :: "'b codec \<Rightarrow> 'b db \<Rightarrow> string \<Rightarrow> VersionRecord option option" where
  "bare_rows cd d key = map_option (\<lambda>b. map_option bare_version (dec_version cd b)) (tget (VERSIONS d) key)"

definition settled :: "'b codec \<Rightarrow> i64 \<Rightarrow> 'b db \<Rightarrow> string \<times> i32 \<Rightarrow> bool" where
  "settled cd target d nv =
     (case tget (VERSIONS d) (version_key (fst nv) (snd nv)) of
        None \<Rightarrow> True
      | Some b \<Rightarrow> (case dec_version cd b of None \<Rightarrow> True | Some r \<Rightarrow> \<not> needs_rewrap r target))"

text \<open>Where a pass may be: only wrappings differ from the start, and the versions in \<open>S\<close> are settled.\<close>

definition rewrapping :: "'b codec \<Rightarrow> i64 \<Rightarrow> 'b db \<Rightarrow> (string \<times> i32) set \<Rightarrow> 'b db \<Rightarrow> bool" where
  "rewrapping cd target d0 S d \<longleftrightarrow> vault_inv cd d \<and> SECRETS d = SECRETS d0 \<and> bare_rows cd d = bare_rows cd d0 \<and>
     (\<forall>nv. nv \<in> S \<longrightarrow> settled cd target d nv)"

lemma rewrap_version_effect:
  assumes cd: "codec_ok cd" and wf: "db_wf d" and run: "apply_rewrap_version cd name v kid wr target d = (Inr (), d')"
  shows "SECRETS d' = SECRETS d" "bare_rows cd d' = bare_rows cd d" "settled cd target d' (name, v)"
    "settled cd target d nv \<Longrightarrow> settled cd target d' nv"
proof -
  have "SECRETS d' = SECRETS d \<and> bare_rows cd d' = bare_rows cd d \<and> settled cd target d' (name, v) \<and>
    (settled cd target d nv \<longrightarrow> settled cd target d' nv)"
  proof (cases "tget (VERSIONS d) (version_key name v)")
    case None
    then show ?thesis using run by (auto simp: apply_rewrap_version_def settled_def)
  next
    case (Some b)
    then obtain r where r: "dec_version cd b = Some r" using run by (auto simp: apply_rewrap_version_def split: option.splits)
    show ?thesis
    proof (cases "needs_rewrap r target")
      case False
      then have "d' = d" using run Some r by (auto simp: apply_rewrap_version_def needs_rewrap_def split: option.splits if_splits)
      then show ?thesis using Some r False by (simp add: settled_def)
    next
      case True
      let ?r = "r\<lparr>vr_kms_key_id := kid, vr_wrapped_dek := wr, vr_wrapped_rotation_at := Some target\<rparr>"
      have d': "d' = d\<lparr>VERSIONS := tinsert (version_key name v) (enc_version cd ?r) (VERSIONS d)\<rparr>"
        using run Some r True by (auto simp: apply_rewrap_version_def needs_rewrap_def split: option.splits if_splits)
      have "bare_rows cd d' key = bare_rows cd d key" for key
        using Some r wf by (simp add: d' bare_rows_def table_simps db_wfD codec_okD [OF cd] bare_version_def)
      then show ?thesis
        using wf by (auto simp: d' settled_def table_simps db_wfD codec_okD [OF cd] needs_rewrap_def split: option.splits)
    qed
  qed
  then show "SECRETS d' = SECRETS d" "bare_rows cd d' = bare_rows cd d" "settled cd target d' (name, v)"
    "settled cd target d nv \<Longrightarrow> settled cd target d' nv" by auto
qed

lemma rewrap_one_step:
  assumes "quiet E" "store_ok E" "rewrapping (e_codec E) target d0 S (e_store_view E (w_store w))"
    and run: "rewrap_one E name r target w = (res, w')"
  shows "rewrapping (e_codec E) target d0 (if is_ok res then insert (name, vr_version r) S else S) (e_store_view E (w_store w'))"
proof -
  let ?cd = "e_codec E"
  consider "w_store w' = w_store w" "\<not> is_ok res"
    | kid wr u where "write_with any_store E (RewrapVersion name (vr_version r) kid wr target) u = (res, w')" "w_store u = w_store w"
    using run by (auto simp: rewrap_one_def bind_def kms_call_def numbered_def split: sum.splits prod.splits)
  then show ?thesis
  proof cases
    case 1
    then show ?thesis using assms(3) by simp
  next
    case 2
    have I: "vault_inv ?cd (e_store_view E (w_store w))" using assms(3) by (simp add: rewrapping_def)
    obtain sres st where st: "e_store_apply E (RewrapVersion name (vr_version r) kid wr target) (w_store w) = (sres, st)"
      "w_store w' = st" "is_ok res = is_ok sres"
      using 2 assms(1) by (auto simp: write_with_def Let_def is_ok_def split: prod.splits sum.splits)
    have I': "vault_inv ?cd (e_store_view E st)"
      using write_keeps_inv [OF assms(2) I, of "RewrapVersion name (vr_version r) kid wr target"] st
      by (simp add: command_ok_def)
    note vs = store_okD(2) [OF assms(2)]
    show ?thesis
    proof (cases sres)
      case (Inl e)
      then have "e_store_view E st = e_store_view E (w_store w)" using vault_store.write_err [OF vs] st(1) by blast
      then show ?thesis using assms(3) st Inl by simp
    next
      case (Inr u)
      then have "apply_rewrap_version ?cd name (vr_version r) kid wr target (e_store_view E (w_store w)) = (Inr (), e_store_view E st)"
        using vault_store.write_ok [OF vs, of "RewrapVersion name (vr_version r) kid wr target" "w_store w" st] st(1) by simp
      from rewrap_version_effect [OF store_okD(1) [OF assms(2)] vault_invD(1) [OF I] this] show ?thesis
        using assms(3) I' st Inr by (simp add: rewrapping_def)
    qed
  qed
qed

section \<open>The loops\<close>

lemma rewrap_versions_run:
  assumes "quiet E" "store_ok E"
  shows "rewrapping (e_codec E) target d0 S (e_store_view E (w_store w)) \<Longrightarrow>
     (\<And>r. r \<in> set rs \<Longrightarrow> \<not> needs_rewrap r target \<Longrightarrow> (name, vr_version r) \<in> S) \<Longrightarrow>
     rewrap_versions E target name rs summary w = (Inr summary', w') \<Longrightarrow>
     su_failed summary \<le> su_failed summary' \<and>
     (\<exists>S'. S \<subseteq> S' \<and> rewrapping (e_codec E) target d0 S' (e_store_view E (w_store w')) \<and>
       (su_failed summary' = su_failed summary \<longrightarrow> (\<forall>r. r \<in> set rs \<longrightarrow> (name, vr_version r) \<in> S')))"
proof (induction rs arbitrary: S summary w)
  case (Cons r rs)
  let ?sum = "summary\<lparr>su_scanned := Suc (su_scanned summary)\<rparr>"
  show ?case
  proof (cases "needs_rewrap r target")
    case False
    then have rest: "rewrap_versions E target name rs ?sum w = (Inr summary', w')" using Cons.prems(3) by simp
    have known: "(name, vr_version r') \<in> S" if "r' \<in> set rs" "\<not> needs_rewrap r' target" for r'
      using Cons.prems(2) [of r'] that by simp
    show ?thesis
      using Cons.IH [where S = S and w = w and summary = ?sum, OF Cons.prems(1) known rest] Cons.prems(2) [of r] False by auto
  next
    case True
    obtain res w1 where one: "rewrap_one E name r target w = (res, w1)" by force
    let ?S = "if is_ok res then insert (name, vr_version r) S else S"
    let ?sum' = "case res of Inr _ \<Rightarrow> ?sum\<lparr>su_rewrapped := Suc (su_rewrapped ?sum)\<rparr>
                 | Inl _ \<Rightarrow> ?sum\<lparr>su_failed := Suc (su_failed ?sum)\<rparr>"
    have rest: "rewrap_versions E target name rs ?sum' w1 = (Inr summary', w')"
      using Cons.prems(3) True one by (simp add: bind_def catch_def Let_def cong: sum.case_cong)
    have known: "(name, vr_version r') \<in> ?S" if "r' \<in> set rs" "\<not> needs_rewrap r' target" for r'
      using Cons.prems(2) [of r'] that by simp
    note IH = Cons.IH [where S = ?S and w = w1 and summary = ?sum', OF rewrap_one_step [OF assms Cons.prems(1) one] known rest]
    show ?thesis
    proof (cases res)
      case (Inl e)
      then show ?thesis using IH by auto
    next
      case (Inr u)
      then show ?thesis using IH by auto
    qed
  qed
qed auto

text \<open>A version that is live whatever its wrapping.\<close>

definition live_at :: "'b codec \<Rightarrow> i64 \<Rightarrow> 'b db \<Rightarrow> string \<times> i32 \<Rightarrow> bool" where
  "live_at cd now d nv \<longleftrightarrow> good_version (fst nv) (snd nv) \<and>
     (\<exists>r. bare_rows cd d (version_key (fst nv) (snd nv)) = Some (Some r) \<and> vr_version r = snd nv \<and>
        version_active now (vr_expires_at r))"

lemma live_at_live:
  assumes "vault_inv cd d" "live_versions cd name now d = Inr rs"
  shows "live_at cd now d (name, v) \<longleftrightarrow> (\<exists>r. r \<in> set rs \<and> vr_version r = v)"
    "r \<in> set rs \<Longrightarrow> \<exists>b. tget (VERSIONS d) (version_key name (vr_version r)) = Some b \<and> dec_version cd b = Some r"
  using live_versions_rows [OF assms(1), of name now] assms(2)
  by (auto simp: live_at_def bare_rows_def bare_version_def)

lemma rewrap_secrets_run:
  assumes "quiet E" "store_ok E"
  shows "rewrapping (e_codec E) target d0 S (e_store_view E (w_store w)) \<Longrightarrow>
     rewrap_secrets E target now secrets summary w = (Inr summary', w') \<Longrightarrow>
     su_failed summary \<le> su_failed summary' \<and>
     (\<exists>S'. S \<subseteq> S' \<and> rewrapping (e_codec E) target d0 S' (e_store_view E (w_store w')) \<and>
       (su_failed summary' = su_failed summary \<longrightarrow>
          (\<forall>s v. s \<in> set secrets \<longrightarrow> live_at (e_codec E) now d0 (sr_name s, v) \<longrightarrow> (sr_name s, v) \<in> S')))"
proof (induction secrets arbitrary: S summary w)
  case (Cons s secrets)
  let ?cd = "e_codec E" and ?n = "sr_name s" and ?d = "e_store_view E (w_store w)"
  obtain rs sum1 w1 where rs: "live_versions ?cd ?n now ?d = Inr rs"
    and vs: "rewrap_versions E target ?n rs summary (sync E w) = (Inr sum1, w1)"
    and rest: "rewrap_secrets E target now secrets sum1 w1 = (Inr summary', w')"
    using Cons.prems(2) assms(1) by (auto simp: bind_Inr quiet_read)
  define S0 where "S0 = S \<union> {(?n, vr_version r) | r. r \<in> set rs \<and> \<not> needs_rewrap r target}"
  have I: "vault_inv ?cd ?d" and bare: "bare_rows ?cd ?d = bare_rows ?cd d0"
    using Cons.prems(1) by (simp_all add: rewrapping_def)
  have "settled ?cd target ?d (?n, vr_version r)" if "r \<in> set rs" "\<not> needs_rewrap r target" for r
    using live_at_live(2) [OF I rs that(1)] that(2) by (auto simp: settled_def)
  then have R0: "rewrapping ?cd target d0 S0 (e_store_view E (w_store (sync E w)))"
    using Cons.prems(1) assms(1) by (auto simp: rewrapping_def S0_def)
  have known: "(?n, vr_version r) \<in> S0" if "r \<in> set rs" "\<not> needs_rewrap r target" for r
    using that by (auto simp: S0_def)
  from rewrap_versions_run [OF assms R0 known vs] obtain S1 where le1: "su_failed summary \<le> su_failed sum1"
    and S1: "S0 \<subseteq> S1" "rewrapping ?cd target d0 S1 (e_store_view E (w_store w1))"
      "su_failed sum1 = su_failed summary \<Longrightarrow> r \<in> set rs \<Longrightarrow> (?n, vr_version r) \<in> S1" for r by blast
  from Cons.IH [OF S1(2) rest] obtain S2 where le2: "su_failed sum1 \<le> su_failed summary'"
    and S2: "S1 \<subseteq> S2" "rewrapping ?cd target d0 S2 (e_store_view E (w_store w'))"
      "su_failed summary' = su_failed sum1 \<Longrightarrow> s' \<in> set secrets \<Longrightarrow> live_at ?cd now d0 (sr_name s', v) \<Longrightarrow>
        (sr_name s', v) \<in> S2" for s' v by blast
  have "(sr_name s', v) \<in> S2" if ok: "su_failed summary' = su_failed summary" and s': "s' \<in> set (s # secrets)"
    and live: "live_at ?cd now d0 (sr_name s', v)" for s' v
  proof (cases "s' \<in> set secrets")
    case True
    then show ?thesis using S2(3) [OF _ _ live] ok le1 le2 by simp
  next
    case False
    then have "live_at ?cd now ?d (?n, v)" using s' live bare by (simp add: live_at_def)
    then obtain r where "r \<in> set rs" "vr_version r = v" using live_at_live(1) [OF I rs] by blast
    then show ?thesis using S1(3) S2(1) ok le1 le2 s' False by force
  qed
  moreover have "S \<subseteq> S2" using S1(1) S2(1) by (auto simp: S0_def)
  ultimately show ?case using le1 le2 S2(2) by auto
qed auto

section \<open>A whole pass\<close>

lemma decode_rows_mem:
  "decode_rows dec rows = Inr rs \<Longrightarrow> (k, b) \<in> set rows \<Longrightarrow> dec b = Some r \<Longrightarrow> r \<in> set rs"
  by (induction dec rows arbitrary: rs rule: decode_rows.induct) (auto split: option.splits sum.splits)

lemma list_secrets_mem:
  "list_secrets cd d = Inr ss \<Longrightarrow> tget (SECRETS d) n = Some b \<Longrightarrow> dec_secret cd b = Some s \<Longrightarrow> s \<in> set ss"
  by (auto simp: list_secrets_def map_result_def tget_def split: sum.splits dest!: map_of_SomeD decode_rows_mem)

text \<open>Every live version belongs to a listed secret.\<close>

lemma live_version_listed:
  assumes "vault_inv cd d" "list_secrets cd d = Inr ss" "live_at cd now d (name, v)"
  obtains s where "s \<in> set ss" "sr_name s = name"
proof -
  obtain c where c: "tget (VERSIONS d) (version_key name v) = Some c" and name: "CHR 0x00 \<notin> set name"
    using assms(3) by (auto simp: live_at_def bare_rows_def good_version_def)
  have I: "secrets_inv cd (tget (SECRETS d)) (tget (VERSIONS d))" by (rule vault_invD(2) [OF assms(1)])
  then have "version_row_ok cd (tget (SECRETS d)) (version_key name v) c" using c by (simp add: secrets_inv_def)
  then obtain n b s and r :: VersionRecord where row: "version_key name v = version_key n (vr_version r)" "tget (SECRETS d) n = Some b"
    "dec_secret cd b = Some s" unfolding version_row_ok_def by blast
  then have "secret_row_ok n s" using secrets_inv_secret [OF I row(2)] by auto
  moreover from this have "n = name"
    using version_key_inject [OF valid_name_no_nul name] row(1) [symmetric] unfolding secret_row_ok_def by blast
  ultimately show ?thesis
    using that list_secrets_mem [OF assms(2) row(2,3)] by (simp add: secret_row_ok_def)
qed

lemma guarded_pass_run:
  assumes "quiet E" "store_ok E" "vault_inv (e_codec E) (e_store_view E (w_store w))"
    and run: "guarded_pass E target w = (Inr summary, w')"
  shows "rewrapping (e_codec E) target (e_store_view E (w_store w)) {} (e_store_view E (w_store w'))"
    "su_failed summary = 0 \<Longrightarrow>
     live_versions (e_codec E) name (case e_system_time E (w_calls w) of Some secs \<Rightarrow> sint secs | None \<Rightarrow> 0)
       (e_store_view E (w_store w')) = Inr rs \<Longrightarrow> list_all (\<lambda>r. \<not> needs_rewrap r target) rs"
proof -
  let ?cd = "e_codec E" and ?d = "e_store_view E (w_store w)" and ?d' = "e_store_view E (w_store w')"
  let ?now = "case e_system_time E (w_calls w) of Some secs \<Rightarrow> sint secs | None \<Rightarrow> 0"
  let ?u = "sync E (w\<lparr>w_calls := Suc (w_calls w)\<rparr>)"
  obtain ss where ss: "list_secrets ?cd ?d = Inr ss"
    and rest: "rewrap_secrets E target ?now ss \<lparr>su_scanned = 0, su_rewrapped = 0, su_failed = 0\<rparr> ?u = (Inr summary, w')"
    using run assms(1) by (auto simp: guarded_pass_def bind_Inr now_unix_def numbered_Inr quiet_read)
  have "rewrapping ?cd target ?d {} (e_store_view E (w_store ?u))" using assms(1,3) by (simp add: rewrapping_def)
  from rewrap_secrets_run [OF assms(1,2) this rest] obtain S where R: "rewrapping ?cd target ?d S ?d'"
    and S: "su_failed summary = 0 \<Longrightarrow> s \<in> set ss \<Longrightarrow> live_at ?cd ?now ?d (sr_name s, v) \<Longrightarrow> (sr_name s, v) \<in> S" for s v
    by auto
  then show "rewrapping ?cd target ?d {} ?d'" by (simp add: rewrapping_def)
  assume ok: "su_failed summary = 0" and rs: "live_versions ?cd name ?now ?d' = Inr rs"
  have I': "vault_inv ?cd ?d'" and bare: "bare_rows ?cd ?d' = bare_rows ?cd ?d"
    and st: "\<And>nv. nv \<in> S \<Longrightarrow> settled ?cd target ?d' nv" using R unfolding rewrapping_def by blast+
  have "\<not> needs_rewrap r target" if r: "r \<in> set rs" for r
  proof -
    have "live_at ?cd ?now ?d' (name, vr_version r)" using live_at_live(1) [OF I' rs] r by blast
    then have live: "live_at ?cd ?now ?d (name, vr_version r)" by (simp add: live_at_def bare)
    obtain s where "s \<in> set ss" "sr_name s = name" by (rule live_version_listed [OF assms(3) ss live])
    then have "settled ?cd target ?d' (name, vr_version r)" using S [OF ok] live st by blast
    then show ?thesis using live_at_live(2) [OF I' rs r] by (auto simp: settled_def)
  qed
  then show "list_all (\<lambda>r. \<not> needs_rewrap r target) rs" by (simp add: list.pred_set)
qed

text \<open>
  C25: a re-wrapping pass does all its work and nothing else. It changes no secret and no version
  but for the wrapping of its data key; and if it reports no failure, then every version of every
  secret that is live at the time the pass started with is wrapped for the rotation it was
  run for, or a later one.
\<close>

theorem rewrap_pass_complete:
  assumes "quiet E" "store_ok E" "vault_inv (e_codec E) (e_store_view E (w_store w))"
  shows "case run_pass E target w of
     (Inl _, _) \<Rightarrow> True
   | (Inr summary, w') \<Rightarrow>
       (let d = e_store_view E (w_store w); d' = e_store_view E (w_store w');
            now = (case e_system_time E (w_calls w) of Some secs \<Rightarrow> sint secs | None \<Rightarrow> 0)
        in SECRETS d' = SECRETS d \<and> bare_rows (e_codec E) d' = bare_rows (e_codec E) d \<and>
           (if su_failed summary = 0
            then \<forall>name. case live_versions (e_codec E) name now d' of
                   Inr rs \<Rightarrow> list_all (\<lambda>r. \<not> needs_rewrap r target) rs | Inl _ \<Rightarrow> False
            else True))"
proof -
  let ?w = "w\<lparr>w_rewrap_busy := True\<rparr>"
  have I: "vault_inv (e_codec E) (e_store_view E (w_store ?w))" using assms(3) by simp
  obtain res w1 where g: "guarded_pass E target ?w = (res, w1)" by force
  show ?thesis
  proof (cases "w_rewrap_busy w \<or> \<not> is_ok res")
    case True
    then show ?thesis using g by (auto simp: run_pass_def is_ok_def split: sum.splits)
  next
    case False
    then obtain summary where res: "res = Inr summary" by (auto simp: is_ok_def split: sum.splits)
    note gp = guarded_pass_run [OF assms(1,2) I g [unfolded res], simplified]
    have live: "\<exists>rs. live_versions (e_codec E) name now (e_store_view E (w_store w1)) = Inr rs" for name now
      using live_versions_rows [of "e_codec E" "e_store_view E (w_store w1)" name now] gp(1) by (auto simp: rewrapping_def)
    have "case live_versions (e_codec E) name (case e_system_time E (w_calls w) of Some secs \<Rightarrow> sint secs | None \<Rightarrow> 0)
        (e_store_view E (w_store w1)) of Inr rs \<Rightarrow> list_all (\<lambda>r. \<not> needs_rewrap r target) rs | Inl _ \<Rightarrow> False"
      if "su_failed summary = 0" for name
      using gp(2) [OF that] live [of name "case e_system_time E (w_calls w) of Some secs \<Rightarrow> sint secs | None \<Rightarrow> 0"]
      by (auto split: sum.split)
    then show ?thesis
      using False gp(1) g res by (simp add: run_pass_def Let_def rewrapping_def)
  qed
qed

theorem rewrap_pass_complete_witness:
  "case run_pass sample_env 7 (vault_with sample_login) of
     (Inl _, _) \<Rightarrow> True
   | (Inr summary, w') \<Rightarrow>
       (let d = redb_db (w_store (vault_with sample_login)); d' = redb_db (w_store w');
            now = (case e_system_time sample_env (w_calls (vault_with sample_login)) of Some secs \<Rightarrow> sint secs | None \<Rightarrow> 0)
        in SECRETS d' = SECRETS d \<and> bare_rows row_codec d' = bare_rows row_codec d \<and>
           (if su_failed summary = 0
            then \<forall>name. case live_versions row_codec name now d' of
                   Inr rs \<Rightarrow> list_all (\<lambda>r. \<not> needs_rewrap r 7) rs | Inl _ \<Rightarrow> False
            else True))"
  using rewrap_pass_complete [OF sample_env_quiet sample_env_ok vault_with_ok(1), of sample_login 7]
  unfolding sample_env_simps .

end
