(* ===== verification/Vault_Config.thy ===== *)
theory Vault_Config
  imports Pg_Targets Ip_Parse Core_Types
begin

text \<open>
  \<open>config.rs\<close>: the settings read from the environment. The environment is a map from names
  to the values that are valid text; every failing \<open>parse\<close>, \<open>bail\<close> and \<open>expect\<close>
  is an error value. Also the socket addresses of the standard library, which the listeners
  are configured with.
\<close>

type_synonym process_env = "string \<Rightarrow> string option"

datatype KmsMode = Aws | Local

datatype config_error =
    NodeIdNotInteger
  | NodeIdZero
  | PeerNotPair string
  | PeerIdNotInteger string
  | PeerAddressEmpty string
  | ApiPortNotPort
  | ApiListenPanic
  | KmsModeUnknown
  | KmsKeyIdMissing
  | ClusterTokenMissing
  | PgTlsUnknown
  | NotInteger string

section \<open>Socket addresses\<close>

datatype SocketAddr = SocketV4 Ipv4Addr nat | SocketV6 Ipv6Addr nat nat

definition read_given_char :: "char \<Rightarrow> string \<Rightarrow> string option" where
  "read_given_char c s = (case s of [] \<Rightarrow> None | d # rest \<Rightarrow> (if d = c then Some rest else None))"

definition read_port :: "string \<Rightarrow> (nat \<times> string) option" where
  "read_port s =
     (case read_given_char (CHR '':'') s of
        None \<Rightarrow> None | Some s \<Rightarrow> read_number 10 (length s) True 65535 s)"

definition read_socket_v4 :: "string \<Rightarrow> (SocketAddr \<times> string) option" where
  "read_socket_v4 s =
     (case read_ipv4 s of None \<Rightarrow> None | Some (ip, s) \<Rightarrow>
     (case read_port s of None \<Rightarrow> None | Some (port, s) \<Rightarrow> Some (SocketV4 ip port, s)))"

definition read_scope_id :: "string \<Rightarrow> nat \<times> string" where
  "read_scope_id s =
     (case read_given_char (CHR ''%'') s of
        None \<Rightarrow> (0, s)
      | Some t \<Rightarrow> (case read_number 10 (length t) True 4294967295 t of None \<Rightarrow> (0, s) | Some r \<Rightarrow> r))"

definition read_socket_v6 :: "string \<Rightarrow> (SocketAddr \<times> string) option" where
  "read_socket_v6 s =
     (case read_given_char (CHR ''['') s of None \<Rightarrow> None | Some s \<Rightarrow>
     (case read_ipv6 s of None \<Rightarrow> None | Some (ip, s) \<Rightarrow>
     (case read_scope_id s of (scope, s) \<Rightarrow>
     (case read_given_char (CHR '']'') s of None \<Rightarrow> None | Some s \<Rightarrow>
     (case read_port s of None \<Rightarrow> None | Some (port, s) \<Rightarrow> Some (SocketV6 ip scope port, s))))))"

definition socket_addr_from_str :: "string \<Rightarrow> SocketAddr option" where
  "socket_addr_from_str s =
     parse_all (\<lambda>s. case read_socket_v4 s of Some r \<Rightarrow> Some r | None \<Rightarrow> read_socket_v6 s) s"

section \<open>Reading values\<close>

definition env_or :: "process_env \<Rightarrow> string \<Rightarrow> string \<Rightarrow> string" where
  "env_or env key dflt = (case env key of Some v \<Rightarrow> v | None \<Rightarrow> dflt)"

definition env_opt :: "process_env \<Rightarrow> string \<Rightarrow> string option" where
  "env_opt env key =
     (case env key of Some v \<Rightarrow> (if v = [] then None else Some v) | None \<Rightarrow> None)"

text \<open>
  The source lowers with \<open>to_lowercase\<close> and compares with constants of ASCII characters. The only
  character outside ASCII whose lower case is a single ASCII character is the Kelvin sign, and
  none of the constants has the letter k, so lowering the ASCII letters decides the same.
\<close>

definition lowers_to :: "string \<Rightarrow> string \<Rightarrow> bool" where
  "lowers_to v c \<longleftrightarrow> to_ascii_lowercase v = c"

definition parse_bool :: "string \<Rightarrow> bool" where
  "parse_bool v \<longleftrightarrow> list_ex (lowers_to v) [''1'', ''true'', ''yes'', ''on'']"

definition parse_u64 :: "string \<Rightarrow> u64 option" where
  "parse_u64 s = map_option of_nat (parse_uint (2 ^ 64 - 1) s)"

definition parse_u32 :: "string \<Rightarrow> u32 option" where
  "parse_u32 s = map_option of_nat (parse_uint (2 ^ 32 - 1) s)"

definition parse_i64 :: "string \<Rightarrow> i64 option" where
  "parse_i64 s =
     (case s of
        CHR ''-'' # ds \<Rightarrow>
          (if ds \<noteq> [] \<and> list_all is_ascii_digit ds \<and> in_i64 (- int (digits_val ds))
           then Some (- int (digits_val ds)) else None)
      | _ \<Rightarrow> map_option int (parse_uint (nat i64_max) s))"

definition and_then :: "'e + 'a \<Rightarrow> ('a \<Rightarrow> 'e + 'c) \<Rightarrow> 'e + 'c" where
  "and_then r f = (case r of Inl e \<Rightarrow> Inl e | Inr a \<Rightarrow> f a)"

definition env_int :: "(string \<Rightarrow> 'n option) \<Rightarrow> process_env \<Rightarrow> string \<Rightarrow> string \<Rightarrow> config_error + 'n" where
  "env_int parse env key dflt = ok_or (NotInteger key) (parse (env_or env key dflt))"

section \<open>Peers\<close>

definition parse_peer :: "string \<Rightarrow> config_error + u64 \<times> string" where
  "parse_peer entry =
     (case split_once (CHR ''='') entry of
        None \<Rightarrow> Inl (PeerNotPair entry)
      | Some (nid, addr) \<Rightarrow>
          (case parse_u64 (trim nid) of
             None \<Rightarrow> Inl (PeerIdNotInteger nid)
           | Some n \<Rightarrow> (if trim addr = [] then Inl (PeerAddressEmpty entry) else Inr (n, trim addr))))"

fun parse_peer_entries :: "string list \<Rightarrow> (u64, string) table \<Rightarrow> config_error + (u64, string) table" where
  "parse_peer_entries [] m = Inr m"
| "parse_peer_entries (raw # rest) m =
     (let entry = trim raw in
      if entry = [] then parse_peer_entries rest m
      else (case parse_peer entry of
              Inl e \<Rightarrow> Inl e
            | Inr (nid, addr) \<Rightarrow> parse_peer_entries rest (tinsert nid addr m)))"

definition parse_peers :: "string \<Rightarrow> config_error + (u64, string) table" where
  "parse_peers raw = parse_peer_entries (split_on (CHR '','') raw) []"

section \<open>The configuration\<close>

record Config =
  cf_node_id :: u64
  cf_peers :: "(u64, string) table"
  cf_api_listen :: SocketAddr
  cf_db_path :: string
  cf_bootstrap_token :: "string option"
  cf_allowed_ips :: string
  cf_trust_proxy :: bool
  cf_read_consistency_linearizable :: bool
  cf_kms_mode :: KmsMode
  cf_kms_key_id :: string
  cf_local_master_key_b64 :: "string option"
  cf_raft_bind :: string
  cf_cluster_token :: "string option"
  cf_cluster_auth_required :: bool
  cf_raft_peer_check :: bool
  cf_rotation_poll_secs :: u64
  cf_pg_target_hosts :: string
  cf_pg_target_tls :: PgTlsMode
  cf_pg_target_ca_file :: "string option"
  cf_dek_cache_ttl_secs :: u64
  cf_kms_max_retries :: u32
  cf_kms_rewrap_enabled :: bool
  cf_kms_rewrap_poll_secs :: u64
  cf_kms_rewrap_max_per_sec :: u32
  cf_auth_max_failures :: u32
  cf_auth_lockout_secs :: i64
  cf_auth_window_secs :: i64
  cf_token_touch_secs :: i64

definition parse_kms_mode :: "string \<Rightarrow> config_error + KmsMode" where
  "parse_kms_mode v =
     (if lowers_to v ''aws'' then Inr Aws
      else if lowers_to v ''local'' then Inr Local
      else Inl KmsModeUnknown)"

definition parse_pg_tls :: "string \<Rightarrow> config_error + PgTlsMode" where
  "parse_pg_tls v =
     (if lowers_to v ''verify-full'' then Inr VerifyFull
      else if lowers_to v ''prefer'' then Inr Prefer
      else if lowers_to v ''disable'' then Inr Disable
      else Inl PgTlsUnknown)"

definition from_env :: "process_env \<Rightarrow> config_error + Config" where
  "from_env env =
     and_then (ok_or NodeIdNotInteger (parse_u64 (env_or env ''NODE_ID'' ''1''))) (\<lambda>node_id.
     if node_id = 0 then Inl NodeIdZero else
     and_then (parse_peers (env_or env ''VAULT_PEERS'' '''')) (\<lambda>peers.
     and_then (ok_or ApiPortNotPort (parse_port (env_or env ''VAULT_API_PORT'' ''8200''))) (\<lambda>api_port.
     and_then (ok_or ApiListenPanic (socket_addr_from_str (''0.0.0.0:'' @ show_nat api_port))) (\<lambda>api_listen.
     let db_path = env_or env ''VAULT_DB_PATH'' ''vault.redb'' in
     and_then (parse_kms_mode (env_or env ''VAULT_KMS_MODE'' ''aws'')) (\<lambda>kms_mode.
     let kms_key_id = env_or env ''VAULT_KMS_KEY_ID'' '''' in
     if kms_mode = Aws \<and> kms_key_id = [] then Inl KmsKeyIdMissing else
     let cluster_token = env_opt env ''VAULT_CLUSTER_TOKEN'';
         cluster_auth_required = parse_bool (env_or env ''VAULT_CLUSTER_AUTH_REQUIRED'' ''false'') in
     if cluster_auth_required \<and> cluster_token = None then Inl ClusterTokenMissing else
     and_then (parse_pg_tls (env_or env ''VAULT_PG_TARGET_TLS'' ''prefer'')) (\<lambda>pg_target_tls.
     and_then (env_int parse_u64 env ''VAULT_ROTATION_POLL_SECS'' ''15'') (\<lambda>rotation_poll_secs.
     and_then (env_int parse_u64 env ''VAULT_DEK_CACHE_TTL_SECS'' ''300'') (\<lambda>dek_cache_ttl_secs.
     and_then (env_int parse_u32 env ''VAULT_KMS_MAX_RETRIES'' ''5'') (\<lambda>kms_max_retries.
     and_then (env_int parse_u64 env ''VAULT_KMS_REWRAP_POLL_SECS'' ''86400'') (\<lambda>kms_rewrap_poll_secs.
     and_then (env_int parse_u32 env ''VAULT_KMS_REWRAP_MAX_PER_SEC'' ''10'') (\<lambda>kms_rewrap_max_per_sec.
     and_then (env_int parse_u32 env ''VAULT_AUTH_MAX_FAILURES'' ''5'') (\<lambda>auth_max_failures.
     and_then (env_int parse_i64 env ''VAULT_AUTH_LOCKOUT_SECS'' ''900'') (\<lambda>auth_lockout_secs.
     and_then (env_int parse_i64 env ''VAULT_AUTH_WINDOW_SECS'' ''300'') (\<lambda>auth_window_secs.
     and_then (env_int parse_i64 env ''VAULT_TOKEN_TOUCH_SECS'' ''300'') (\<lambda>token_touch_secs.
     Inr \<lparr>cf_node_id = node_id, cf_peers = peers, cf_api_listen = api_listen, cf_db_path = db_path,
          cf_bootstrap_token = env_opt env ''VAULT_BOOTSTRAP_TOKEN'',
          cf_allowed_ips = env_or env ''VAULT_ALLOWED_IPS'' '''',
          cf_trust_proxy = parse_bool (env_or env ''VAULT_TRUST_PROXY'' ''false''),
          cf_read_consistency_linearizable =
            lowers_to (env_or env ''VAULT_READ_CONSISTENCY'' ''local'') ''linearizable'',
          cf_kms_mode = kms_mode, cf_kms_key_id = kms_key_id,
          cf_local_master_key_b64 = env_opt env ''VAULT_LOCAL_MASTER_KEY'',
          cf_raft_bind = env_or env ''VAULT_RAFT_BIND'' ''0.0.0.0'',
          cf_cluster_token = cluster_token, cf_cluster_auth_required = cluster_auth_required,
          cf_raft_peer_check = parse_bool (env_or env ''VAULT_RAFT_PEER_CHECK'' ''false''),
          cf_rotation_poll_secs = rotation_poll_secs,
          cf_pg_target_hosts = env_or env ''VAULT_PG_TARGET_HOSTS'' '''',
          cf_pg_target_tls = pg_target_tls,
          cf_pg_target_ca_file = env_opt env ''VAULT_PG_TARGET_CA_FILE'',
          cf_dek_cache_ttl_secs = dek_cache_ttl_secs, cf_kms_max_retries = kms_max_retries,
          cf_kms_rewrap_enabled = parse_bool (env_or env ''VAULT_KMS_REWRAP_ENABLED'' ''false''),
          cf_kms_rewrap_poll_secs = kms_rewrap_poll_secs,
          cf_kms_rewrap_max_per_sec = kms_rewrap_max_per_sec,
          cf_auth_max_failures = auth_max_failures, cf_auth_lockout_secs = auth_lockout_secs,
          cf_auth_window_secs = auth_window_secs, cf_token_touch_secs = token_touch_secs\<rparr>)))))))))))))))"

definition peer_addr :: "Config \<Rightarrow> u64 \<Rightarrow> string option" where
  "peer_addr cfg nid = tget (cf_peers cfg) nid"

definition self_addr :: "Config \<Rightarrow> string option" where
  "self_addr cfg = peer_addr cfg (cf_node_id cfg)"

section \<open>The listener\<close>

lemma read_number_show:
  "n \<le> 65535 \<Longrightarrow> read_number 10 (length (show_nat n)) True 65535 (show_nat n) = Some (n, [])"
proof -
  assume n: "n \<le> 65535"
  have tw: "takeWhile (\<lambda>c. to_digit 10 c \<noteq> None) (show_nat n) = show_nat n"
    using show_nat_digits [of n] by (simp add: to_digit_10 takeWhile_eq_all_conv list_all_iff)
  show ?thesis
    using n show_nat_nonempty [of n] unfolding read_number_def Let_def tw decimal_value [OF show_nat_digits] by simp
qed

lemma api_listen_parses:
  assumes "port \<le> 65535"
  shows "socket_addr_from_str (''0.0.0.0:'' @ show_nat port) = Some (SocketV4 (Ipv4 0 0 0 0) port)"
proof -
  have z: "show_nat 0 = ''0''" by code_simp
  have "read_ipv4 (show_ipv4 (Ipv4 0 0 0 0) @ CHR '':'' # show_nat port) = Some (Ipv4 0 0 0 0, CHR '':'' # show_nat port)"
    by (subst read_ipv4_iff) (simp add: octet_ends_def is_ascii_digit_iff)
  then have "read_ipv4 (''0.0.0.0:'' @ show_nat port) = Some (Ipv4 0 0 0 0, CHR '':'' # show_nat port)" by (simp add: z)
  then show ?thesis
    using read_number_show [OF assms]
    by (simp add: socket_addr_from_str_def parse_all_Some read_socket_v4_def read_port_def read_given_char_def)
qed

section \<open>What a configuration guarantees\<close>

lemma and_then_Inr: "and_then r f = Inr c \<longleftrightarrow> (\<exists>a. r = Inr a \<and> f a = Inr c)"
  by (auto simp: and_then_def split: sum.split)

lemma and_then_Inl: "and_then r f = Inl e \<longleftrightarrow> r = Inl e \<or> (\<exists>a. r = Inr a \<and> f a = Inl e)"
  by (auto simp: and_then_def split: sum.split)

lemma parse_uint_bound: "parse_uint m s = Some n \<Longrightarrow> n \<le> m"
  by (auto simp: parse_uint_def Let_def split: if_splits)

lemma parse_i64_range: "parse_i64 s = Some n \<Longrightarrow> in_i64 n"
proof -
  have "in_i64 (int n)" if "parse_uint (nat i64_max) s = Some n" for n
    using parse_uint_bound [OF that] by (simp add: in_i64_def i64_max_def i64_min_def)
  then show "parse_i64 s = Some n \<Longrightarrow> in_i64 n"
    by (auto simp: parse_i64_def split: list.splits char.splits bool.splits if_splits)
qed

definition peer_ok :: "u64 \<times> string \<Rightarrow> bool" where
  "peer_ok p \<longleftrightarrow> snd p \<noteq> [] \<and> trim (snd p) = snd p"

lemma parse_peer_ok: "parse_peer entry = Inr p \<Longrightarrow> peer_ok p"
  by (auto simp: parse_peer_def peer_ok_def split: option.splits if_splits)

lemma list_all_tinsert: "P (k, v) \<Longrightarrow> list_all P m \<Longrightarrow> list_all P (tinsert k v m)"
  by (induction m) auto

lemma parse_peer_entries_ok:
  "parse_peer_entries raws m = Inr m' \<Longrightarrow> twf m \<Longrightarrow> list_all peer_ok m \<Longrightarrow> twf m' \<and> list_all peer_ok m'"
proof (induction raws arbitrary: m)
  case (Cons raw rest)
  show ?case
  proof (cases "trim raw = []")
    case True
    then show ?thesis using Cons by (simp add: Let_def)
  next
    case False
    then obtain k v where kv: "parse_peer (trim raw) = Inr (k, v)" "parse_peer_entries rest (tinsert k v m) = Inr m'"
      using Cons.prems(1) by (auto simp: Let_def split: sum.splits)
    show ?thesis
      using Cons.IH [OF kv(2)] Cons.prems(2,3) list_all_tinsert [of peer_ok] parse_peer_ok [OF kv(1)] by (simp add: table_simps)
  qed
qed simp

lemma parse_peer_entries_no_panic: "parse_peer_entries raws m \<noteq> Inl ApiListenPanic"
  by (induction raws arbitrary: m)
    (auto simp: Let_def parse_peer_def split: if_splits sum.splits option.splits)

lemma and_thenE: "and_then r f = Inr c \<Longrightarrow> (\<And>a. r = Inr a \<Longrightarrow> f a = Inr c \<Longrightarrow> P) \<Longrightarrow> P"
  by (auto simp: and_then_Inr)

lemma guardE: "(if b then Inl e else r) = Inr c \<Longrightarrow> (\<not> b \<Longrightarrow> r = Inr c \<Longrightarrow> P) \<Longrightarrow> P"
  by (auto split: if_splits)

lemma and_then_not: "r \<noteq> Inl e \<Longrightarrow> (\<And>a. r = Inr a \<Longrightarrow> f a \<noteq> Inl e) \<Longrightarrow> and_then r f \<noteq> Inl e"
  by (auto simp: and_then_Inl)

lemma guard_not: "e' \<noteq> e \<Longrightarrow> (\<not> b \<Longrightarrow> r \<noteq> Inl e) \<Longrightarrow> (if b then Inl e' else r) \<noteq> Inl e"
  by simp

lemma from_env_no_panic: "from_env env \<noteq> Inl ApiListenPanic"
proof -
  have "socket_addr_from_str (''0.0.0.0:'' @ show_nat p) \<noteq> None" if "ok_or e (parse_port v) = Inr p" for e v p
    using api_listen_parses parse_uint_bound that by (simp add: parse_port_def)
  then have listen: "ok_or ApiListenPanic (socket_addr_from_str (''0.0.0.0:'' @ show_nat p)) \<noteq> Inl ApiListenPanic"
    if "ok_or e (parse_port v) = Inr p" for e v p
    using that by (auto simp: ok_or_def split: option.split)
  have ok: "e \<noteq> ApiListenPanic \<Longrightarrow> ok_or e x \<noteq> Inl ApiListenPanic" for e and x :: "'x option"
    by (simp add: ok_or_def split: option.split)
  have modes: "parse_kms_mode v \<noteq> Inl ApiListenPanic" "parse_pg_tls v \<noteq> Inl ApiListenPanic"
    "parse_peers v \<noteq> Inl ApiListenPanic" for v
    by (simp_all add: parse_kms_mode_def parse_pg_tls_def parse_peers_def parse_peer_entries_no_panic)
  have int: "env_int parse env key dflt \<noteq> Inl ApiListenPanic" for parse :: "string \<Rightarrow> 'n option" and key dflt
    by (simp add: env_int_def ok_or_def split: option.split)
  show ?thesis
    unfolding from_env_def Let_def
    by (rule and_then_not guard_not listen modes int | assumption | rule ok | (simp; fail))+
qed

lemma from_env_Inr:
  "from_env env = Inr c \<Longrightarrow> cf_node_id c \<noteq> 0" "from_env env = Inr c \<Longrightarrow> parse_peers (env_or env ''VAULT_PEERS'' []) = Inr (cf_peers c)"
    "from_env env = Inr c \<Longrightarrow> \<exists>port. parse_port (env_or env ''VAULT_API_PORT'' ''8200'') = Some port \<and>
       socket_addr_from_str (''0.0.0.0:'' @ show_nat port) = Some (cf_api_listen c)"
    "from_env env = Inr c \<Longrightarrow> \<not> (cf_kms_mode c = Aws \<and> cf_kms_key_id c = [])"
    "from_env env = Inr c \<Longrightarrow> cf_cluster_token c = env_opt env ''VAULT_CLUSTER_TOKEN''"
    "from_env env = Inr c \<Longrightarrow> cf_bootstrap_token c = env_opt env ''VAULT_BOOTSTRAP_TOKEN''"
    "from_env env = Inr c \<Longrightarrow> \<not> (cf_cluster_auth_required c \<and> cf_cluster_token c = None)"
    "from_env env = Inr c \<Longrightarrow> parse_i64 (env_or env ''VAULT_AUTH_LOCKOUT_SECS'' ''900'') = Some (cf_auth_lockout_secs c)"
    "from_env env = Inr c \<Longrightarrow> parse_i64 (env_or env ''VAULT_AUTH_WINDOW_SECS'' ''300'') = Some (cf_auth_window_secs c)"
    "from_env env = Inr c \<Longrightarrow> parse_i64 (env_or env ''VAULT_TOKEN_TOUCH_SECS'' ''300'') = Some (cf_token_touch_secs c)"
  unfolding from_env_def Let_def
  by (elim and_thenE guardE, drule sum.inject(2) [THEN iffD1], hypsubst, simp add: env_int_def)+

text \<open>
  C27: a configuration that was accepted is usable. The node id is not zero, the peers are distinct and
  have addresses without blanks around, the API listens on all IPv4 addresses with a 16-bit
  port, a key is named when keys are managed by AWS, a cluster credential is present and not
  empty when it is required, and all intervals fit their width; and no environment makes the
  start panic.
\<close>

theorem from_env_well_formed:
  "case from_env env of
     Inl e \<Rightarrow> e \<noteq> ApiListenPanic
   | Inr c \<Rightarrow>
       cf_node_id c \<noteq> 0 \<and> twf (cf_peers c) \<and> list_all peer_ok (cf_peers c) \<and>
       (\<exists>port \<le> 65535. cf_api_listen c = SocketV4 (Ipv4 0 0 0 0) port) \<and>
       (if cf_kms_mode c = Aws then cf_kms_key_id c \<noteq> [] else True) \<and>
       cf_cluster_token c \<noteq> Some [] \<and> cf_bootstrap_token c \<noteq> Some [] \<and>
       (if cf_cluster_auth_required c then cf_cluster_token c \<noteq> None else True) \<and>
       in_i64 (cf_auth_lockout_secs c) \<and> in_i64 (cf_auth_window_secs c) \<and> in_i64 (cf_token_touch_secs c)"
proof (cases "from_env env")
  case (Inl e)
  then show ?thesis using from_env_no_panic [of env] by auto
next
  case (Inr c)
  note f = from_env_Inr [OF Inr]
  obtain port where port: "port \<le> 65535" "socket_addr_from_str (''0.0.0.0:'' @ show_nat port) = Some (cf_api_listen c)"
    using f(3) parse_uint_bound by (auto simp: parse_port_def)
  have "twf (cf_peers c) \<and> list_all peer_ok (cf_peers c)"
    using f(2) parse_peer_entries_ok [of _ "[]"] by (simp add: parse_peers_def)
  moreover have "env_opt env key \<noteq> Some []" for key by (simp add: env_opt_def split: option.split)
  ultimately show ?thesis
    using Inr f(1,4-10) port api_listen_parses [OF port(1)] parse_i64_range by simp
qed

end
