(* ===== verification/Store_Replicas.thy ===== *)
theory Store_Replicas
  imports Store_Engine
begin

text \<open>
  Replicas. Every command except the local ones (\<open>Command::is_local\<close>) goes through the
  replicated log; audit entries and authentication failures are applied on the node that
  sees them, at any moment between two entries of the log. The replicated part of a database
  is what remains when the two local tables are forgotten.
\<close>

definition shared :: "'b db \<Rightarrow> 'b db" where
  "shared d = d\<lparr>LOCKOUTS := [], AUDIT := []\<rparr>"

lemma shared_eq_iff:
  "shared d = shared e \<longleftrightarrow>
     SECRETS d = SECRETS e \<and> VERSIONS d = VERSIONS e \<and> ROLES d = ROLES e \<and> TOKENS d = TOKENS e \<and>
     TOKENS_BY_NAME d = TOKENS_BY_NAME e \<and> KMS_REWRAP d = KMS_REWRAP e"
  by (cases d, cases e) (auto simp: shared_def)

lemma local_command_shared:
  "is_local c \<Longrightarrow> shared (snd (apply_command cd n c d)) = shared d"
  by (cases c) (auto simp: is_local_def apply_append_audit_def apply_record_auth_failure_def Let_def
      shared_def split: sum.split)

lemma put_version_shared:
  assumes "shared d = shared e"
  shows "fst (apply_put_version cd name ec v ex desc intv grc nxt upd d) =
         fst (apply_put_version cd name ec v ex desc intv grc nxt upd e) \<and>
    shared (snd (apply_put_version cd name ec v ex desc intv grc nxt upd d)) =
    shared (snd (apply_put_version cd name ec v ex desc intv grc nxt upd e))"
  using assms
  by (auto simp: shared_eq_iff apply_put_version_def supersede_def Let_def split: sum.split option.split)

lemma restore_shared:
  assumes "shared d = shared e"
  shows "fst (apply_restore_database data d) = fst (apply_restore_database data e) \<and>
    shared (snd (apply_restore_database data d)) = shared (snd (apply_restore_database data e))"
  using assms
  by (auto simp: shared_eq_iff apply_restore_database_def restore_tables_def split: sum.split)

lemma replicated_command_shared:
  assumes "\<not> is_local c" "shared d = shared e"
  shows "fst (apply_command cd n c d) = fst (apply_command cd m c e) \<and>
    shared (snd (apply_command cd n c d)) = shared (snd (apply_command cd m c e))"
proof (cases c)
  case (PutVersion name ec v ex desc intv grc nxt upd)
  with put_version_shared [OF assms(2)] show ?thesis by simp
next
  case (RestoreDatabase data)
  with restore_shared [OF assms(2)] show ?thesis by simp
qed (use assms in \<open>auto simp: is_local_def shared_eq_iff Let_def apply_create_secret_def
    apply_update_meta_def apply_delete_secret_def apply_create_role_def apply_set_permissions_def
    apply_delete_role_def apply_add_token_def apply_revoke_token_def apply_touch_token_def
    apply_expire_grace_versions_def apply_rewrap_version_def apply_set_kms_rewrap_state_def
    split: sum.split option.split\<close>)

fun run_commands :: "'b codec \<Rightarrow> u64 \<Rightarrow> 'b Command list \<Rightarrow> 'b db \<Rightarrow> unit StoreResult list \<times> 'b db" where
  "run_commands cd n [] d = ([], d)"
| "run_commands cd n (c # cs) d =
     (case apply_command cd n c d of
        (res, d1) \<Rightarrow> (case run_commands cd n cs d1 of (ress, d2) \<Rightarrow> (if is_local c then ress else res # ress, d2)))"

lemma run_commands_log:
  "shared d = shared e \<Longrightarrow>
     fst (run_commands cd n cs d) = fst (run_commands cd m (filter (\<lambda>c. \<not> is_local c) cs) e) \<and>
     shared (snd (run_commands cd n cs d)) = shared (snd (run_commands cd m (filter (\<lambda>c. \<not> is_local c) cs) e))"
proof (induction cs arbitrary: d e)
  case (Cons c cs)
  let ?d = "snd (apply_command cd n c d)" and ?e = "snd (apply_command cd m c e)"
  show ?case
  proof (cases "is_local c")
    case True
    with Cons have "shared ?d = shared e" by (simp add: local_command_shared)
    with Cons.IH [OF this] True show ?thesis by (simp add: case_prod_beta)
  next
    case False
    with Cons have "fst (apply_command cd n c d) = fst (apply_command cd m c e)" "shared ?d = shared ?e"
      using replicated_command_shared by blast+
    with Cons.IH [OF this(2)] False show ?thesis by (simp add: case_prod_beta)
  qed
qed simp

text \<open>
  C8: nodes that start from the same replicated tables and apply the same log of replicated commands
  reach the same replicated tables and give every entry of the log the same result, whatever their node ids are,
  whatever their local tables hold, and however local commands are interleaved on each of them.
\<close>

theorem replicas_converge:
  assumes "shared d = shared e" "filter (\<lambda>c. \<not> is_local c) cs = filter (\<lambda>c. \<not> is_local c) cs'"
  shows "shared (snd (run_commands cd n cs d)) = shared (snd (run_commands cd m cs' e)) \<and>
         fst (run_commands cd n cs d) = fst (run_commands cd m cs' e)"
  using run_commands_log [OF assms(1), of cd n cs m] run_commands_log [of e e cd m cs' m] assms(2) by simp

theorem replicas_converge_witness:
  "shared (snd (run_commands row_codec 1 [AppendAudit sample_entry, AddToken sample_token] empty_db)) =
   shared (snd (run_commands row_codec 2 [AddToken sample_token, RecordAuthFailure ''ip'' 3 5 60 60]
     (empty_db\<lparr>LOCKOUTS := [(''x'', RowGarbage)]\<rparr>)))"
  using replicas_converge [of empty_db "empty_db\<lparr>LOCKOUTS := [(''x'', RowGarbage)]\<rparr>"
      "[AppendAudit sample_entry, AddToken sample_token]"
      "[AddToken sample_token, RecordAuthFailure ''ip'' 3 5 60 60]" row_codec 1 2]
  by (simp add: shared_def is_local_def)

end
