(* ===== verification/Raft_Store.thy ===== *)
theory Raft_Store
  imports Store_Replicas
begin

text \<open>
  \<open>raft/store.rs\<close>: the log store and the state machine that the consensus library drives.
  Leader ids (\<open>'l\<close>), memberships (\<open>'m\<close>) and votes are opaque values of that
  library. Log entries, metadata and snapshots are stored as JSON; \<open>'x\<close> is the type of such
  stored values, \<open>rc_raw\<close> gives their bytes, and \<open>raft_codec_ok\<close> is what the code
  relies on: values decode to what was encoded, and the encoding of a value is not the JSON
  text null.
\<close>

section \<open>Types of the consensus library\<close>

record 'l LogId =
  li_leader_id :: 'l
  li_index :: u64

record ('l, 'm) StoredMembership =
  sm_log_id :: "'l LogId option"
  sm_membership :: 'm

datatype ('m, 'b) EntryPayload = Blank | Normal "'b Command" | Membership 'm

record ('l, 'm, 'b) Entry =
  en_log_id :: "'l LogId"
  en_payload :: "('m, 'b) EntryPayload"

record ('l, 'm) SnapshotMeta =
  sn_last_log_id :: "'l LogId option"
  sn_last_membership :: "('l, 'm) StoredMembership"
  sn_snapshot_id :: string

record 'l LogState =
  ls_last_purged_log_id :: "'l LogId option"
  ls_last_log_id :: "'l LogId option"

datatype ApplyResult = Ok | ApplyNotFound | ApplyConflict conflict | ApplyVersionConflict

datatype StorageError =
    MetaDecodeFailed string
  | EntryDecodeFailed
  | SnapshotDecodeFailed
  | ApplyFailed internal
  | SnapshotIndexTooLarge u64
  | SnapshotInvalidName string
  | SnapshotInvalidVersionKey string

record ('l, 'm, 'b) SnapshotData =
  sd_secrets :: "(string \<times> 'b) list"
  sd_versions :: "(string \<times> 'b) list"
  sd_roles :: "(string \<times> 'b) list"
  sd_tokens :: "(bytes \<times> 'b) list"
  sd_tokens_by_name :: "(string \<times> bytes) list"
  sd_kms_rewrap :: "(string \<times> 'b) list"
  sd_last_applied :: "'l LogId option"
  sd_membership :: "('l, 'm) StoredMembership"

record ('l, 'm, 'b, 'x) raft_codec =
  enc_log_id :: "'l LogId \<Rightarrow> 'x"
  dec_log_id :: "'x \<Rightarrow> 'l LogId option"
  enc_membership :: "('l, 'm) StoredMembership \<Rightarrow> 'x"
  dec_membership :: "'x \<Rightarrow> ('l, 'm) StoredMembership option"
  enc_entry :: "('l, 'm, 'b) Entry \<Rightarrow> 'x"
  dec_entry :: "'x \<Rightarrow> ('l, 'm, 'b) Entry option"
  enc_snapshot :: "('l, 'm, 'b) SnapshotData \<Rightarrow> 'x"
  dec_snapshot :: "'x \<Rightarrow> ('l, 'm, 'b) SnapshotData option"
  enc_blob :: "'x \<Rightarrow> 'x"
  dec_blob :: "'x \<Rightarrow> 'x option"
  rc_raw :: "'x \<Rightarrow> bytes"

section \<open>Metadata\<close>

definition META_VOTE :: string where "META_VOTE = ''vote''"
definition META_PURGED :: string where "META_PURGED = ''last_purged''"
definition META_APPLIED :: string where "META_APPLIED = ''last_applied''"
definition META_MEMBERSHIP :: string where "META_MEMBERSHIP = ''membership''"
definition META_SNAPSHOT :: string where "META_SNAPSHOT = ''snapshot''"

definition MAX_PLAUSIBLE_LOG_INDEX :: u64 where
  "MAX_PLAUSIBLE_LOG_INDEX = push_bit 52 1"

record ('b, 'x) raft_db =
  rd_db :: "'b db"
  LOG :: "(u64, 'x) table"
  META :: "(string, 'x) table"

text \<open>\<open>trim_ascii\<close> drops leading and trailing space, tab, line feed, form feed and carriage return.\<close>

definition is_ascii_whitespace :: "u8 \<Rightarrow> bool" where
  "is_ascii_whitespace b \<longleftrightarrow> b = 32 \<or> b = 9 \<or> b = 10 \<or> b = 12 \<or> b = 13"

definition trim_ascii :: "bytes \<Rightarrow> bytes" where
  "trim_ascii bs = rev (dropWhile is_ascii_whitespace (rev (dropWhile is_ascii_whitespace bs)))"

definition is_json_null :: "bytes \<Rightarrow> bool" where
  "is_json_null bs \<longleftrightarrow> trim_ascii bs = as_bytes ''null''"

definition read_meta ::
  "('x \<Rightarrow> bytes) \<Rightarrow> ('x \<Rightarrow> 'a option) \<Rightarrow> string \<Rightarrow> (string, 'x) table \<Rightarrow> StorageError + 'a option" where
  "read_meta raw dec key meta =
     (case tget meta key of
        None \<Rightarrow> Inr None
      | Some x \<Rightarrow>
          (if is_json_null (raw x) then Inr None
           else (case dec x of None \<Rightarrow> Inl (MetaDecodeFailed key) | Some a \<Rightarrow> Inr (Some a))))"

definition write_meta :: "('a \<Rightarrow> 'x) \<Rightarrow> string \<Rightarrow> 'a \<Rightarrow> ('b, 'x) raft_db \<Rightarrow> ('b, 'x) raft_db" where
  "write_meta enc key a r = r\<lparr>META := tinsert key (enc a) (META r)\<rparr>"

definition read_applied ::
  "('l, 'm, 'b, 'x) raft_codec \<Rightarrow> ('b, 'x) raft_db \<Rightarrow> StorageError + 'l LogId option" where
  "read_applied rc r = read_meta (rc_raw rc) (dec_log_id rc) META_APPLIED (META r)"

definition read_purged ::
  "('l, 'm, 'b, 'x) raft_codec \<Rightarrow> ('b, 'x) raft_db \<Rightarrow> StorageError + 'l LogId option" where
  "read_purged rc r = read_meta (rc_raw rc) (dec_log_id rc) META_PURGED (META r)"

text \<open>A missing membership reads as the library's default, the argument \<open>dflt\<close>.\<close>

definition read_membership ::
  "('l, 'm, 'b, 'x) raft_codec \<Rightarrow> ('l, 'm) StoredMembership \<Rightarrow> ('b, 'x) raft_db \<Rightarrow>
   StorageError + ('l, 'm) StoredMembership" where
  "read_membership rc dflt r =
     (case read_meta (rc_raw rc) (dec_membership rc) META_MEMBERSHIP (META r) of
        Inl e \<Rightarrow> Inl e
      | Inr None \<Rightarrow> Inr dflt
      | Inr (Some m) \<Rightarrow> Inr m)"

section \<open>Start-up\<close>

fun normalize_scan :: "u64 option \<Rightarrow> u64 \<Rightarrow> bool \<Rightarrow> u64 list \<Rightarrow> u64 list" where
  "normalize_scan flr expected truncating [] = []"
| "normalize_scan flr expected truncating (index # rest) =
     (if truncating \<or> (case flr of Some f \<Rightarrow> index \<le> f | None \<Rightarrow> False)
      then index # normalize_scan flr expected truncating rest
      else if index = expected then normalize_scan flr (expected + 1) truncating rest
      else index # normalize_scan flr expected True rest)"

definition normalize_floor :: "'l LogId option \<Rightarrow> 'l LogId option \<Rightarrow> u64 option" where
  "normalize_floor applied purged =
     (case map_option li_index applied of Some i \<Rightarrow> Some i | None \<Rightarrow> map_option li_index purged)"

definition normalize_start :: "u64 option \<Rightarrow> u64" where
  "normalize_start flr = (case flr of Some index \<Rightarrow> sat_add_u64 index 1 | None \<Rightarrow> 0)"

definition normalize_raft_log ::
  "('l, 'm, 'b, 'x) raft_codec \<Rightarrow> ('b, 'x) raft_db \<Rightarrow> (StorageError + unit) \<times> ('b, 'x) raft_db" where
  "normalize_raft_log rc r =
     (case read_applied rc r of
        Inl e \<Rightarrow> (Inl e, r)
      | Inr applied \<Rightarrow>
     (case read_purged rc r of
        Inl e \<Rightarrow> (Inl e, r)
      | Inr purged \<Rightarrow>
          (let flr = normalize_floor applied purged;
               to_delete = normalize_scan flr (normalize_start flr) False (tkeys (LOG r));
               advance_purged = (case (applied, purged) of
                   (Some a, Some p) \<Rightarrow> li_index p < li_index a
                 | (Some _, None) \<Rightarrow> True
                 | _ \<Rightarrow> False)
           in if to_delete = [] \<and> \<not> advance_purged then (Inr (), r)
              else
                (let r1 = r\<lparr>LOG := tremove_all to_delete (LOG r)\<rparr>
                 in (Inr (), if advance_purged
                             then (case applied of Some a \<Rightarrow> write_meta (enc_log_id rc) META_PURGED a r1
                                   | None \<Rightarrow> r1)
                             else r1)))))"

definition reset_raft_state :: "('b, 'x) raft_db \<Rightarrow> ('b, 'x) raft_db" where
  "reset_raft_state r =
     r\<lparr>LOG := tremove_all (tkeys (LOG r)) (LOG r), META := tremove_all (tkeys (META r)) (META r)\<rparr>"

section \<open>The log store\<close>

fun decode_entries :: "('x \<Rightarrow> 'e option) \<Rightarrow> (u64 \<times> 'x) list \<Rightarrow> StorageError + 'e list" where
  "decode_entries dec [] = Inr []"
| "decode_entries dec ((_, x) # rows) =
     (case dec x of
        None \<Rightarrow> Inl EntryDecodeFailed
      | Some e \<Rightarrow> (case decode_entries dec rows of Inl err \<Rightarrow> Inl err | Inr es \<Rightarrow> Inr (e # es)))"

definition try_get_log_entries ::
  "('l, 'm, 'b, 'x) raft_codec \<Rightarrow> (u64 \<Rightarrow> bool) \<Rightarrow> ('b, 'x) raft_db \<Rightarrow> StorageError + ('l, 'm, 'b) Entry list" where
  "try_get_log_entries rc in_range r = decode_entries (dec_entry rc) (trange in_range (LOG r))"

definition get_log_state ::
  "('l, 'm, 'b, 'x) raft_codec \<Rightarrow> ('b, 'x) raft_db \<Rightarrow> StorageError + 'l LogState" where
  "get_log_state rc r =
     (case read_purged rc r of
        Inl e \<Rightarrow> Inl e
      | Inr stored_purged \<Rightarrow>
          (let last_purged =
             (case LOG r of
                [] \<Rightarrow> Inr stored_purged
              | (first, _) # _ \<Rightarrow>
                  (if (case stored_purged of Some p \<Rightarrow> sat_add_u64 (li_index p) 1 | None \<Rightarrow> 0) < first
                   then (case read_applied rc r of
                           Inl e \<Rightarrow> Inl e
                         | Inr (Some a) \<Rightarrow> Inr (Some a)
                         | Inr None \<Rightarrow> Inr stored_purged)
                   else Inr stored_purged))
           in case last_purged of
                Inl e \<Rightarrow> Inl e
              | Inr lp \<Rightarrow>
                  (if LOG r = [] then Inr \<lparr>ls_last_purged_log_id = lp, ls_last_log_id = lp\<rparr>
                   else (case dec_entry rc (snd (last (LOG r))) of
                           None \<Rightarrow> Inl EntryDecodeFailed
                         | Some entry \<Rightarrow>
                             Inr \<lparr>ls_last_purged_log_id = lp, ls_last_log_id = Some (en_log_id entry)\<rparr>))))"

definition save_vote :: "('v \<Rightarrow> 'x) \<Rightarrow> 'v \<Rightarrow> ('b, 'x) raft_db \<Rightarrow> ('b, 'x) raft_db" where
  "save_vote enc vote r = write_meta enc META_VOTE vote r"

definition read_vote :: "('x \<Rightarrow> bytes) \<Rightarrow> ('x \<Rightarrow> 'v option) \<Rightarrow> ('b, 'x) raft_db \<Rightarrow> StorageError + 'v option" where
  "read_vote raw dec r = read_meta raw dec META_VOTE (META r)"

definition log_append ::
  "('l, 'm, 'b, 'x) raft_codec \<Rightarrow> ('l, 'm, 'b) Entry list \<Rightarrow> ('b, 'x) raft_db \<Rightarrow> ('b, 'x) raft_db" where
  "log_append rc entries r =
     r\<lparr>LOG := tinsert_all (map (\<lambda>e. (li_index (en_log_id e), enc_entry rc e)) entries) (LOG r)\<rparr>"

definition log_truncate :: "'l LogId \<Rightarrow> ('b, 'x) raft_db \<Rightarrow> ('b, 'x) raft_db" where
  "log_truncate log_id r =
     r\<lparr>LOG := tremove_all (tkeys (trange (\<lambda>i. li_index log_id \<le> i) (LOG r))) (LOG r)\<rparr>"

definition log_purge :: "('l, 'm, 'b, 'x) raft_codec \<Rightarrow> 'l LogId \<Rightarrow> ('b, 'x) raft_db \<Rightarrow> ('b, 'x) raft_db" where
  "log_purge rc log_id r =
     write_meta (enc_log_id rc) META_PURGED log_id
       (r\<lparr>LOG := tremove_all (tkeys (trange (\<lambda>i. i \<le> li_index log_id) (LOG r))) (LOG r)\<rparr>)"

section \<open>The state machine\<close>

definition applied_state ::
  "('l, 'm, 'b, 'x) raft_codec \<Rightarrow> ('l, 'm) StoredMembership \<Rightarrow> ('b, 'x) raft_db \<Rightarrow>
   StorageError + 'l LogId option \<times> ('l, 'm) StoredMembership" where
  "applied_state rc dflt r =
     (case read_applied rc r of
        Inl e \<Rightarrow> Inl e
      | Inr last_applied \<Rightarrow>
          (case read_membership rc dflt r of Inl e \<Rightarrow> Inl e | Inr membership \<Rightarrow> Inr (last_applied, membership)))"

text \<open>
  The loop over a batch of entries: results, the last log id, the last membership, and the
  tables inside the open transaction.
\<close>

fun apply_entries ::
  "'b codec \<Rightarrow> u64 \<Rightarrow> ('l, 'm, 'b) Entry list \<Rightarrow>
   ApplyResult list \<times> 'l LogId option \<times> ('l, 'm) StoredMembership option \<times> 'b db \<Rightarrow>
   StorageError + (ApplyResult list \<times> 'l LogId option \<times> ('l, 'm) StoredMembership option \<times> 'b db)" where
  "apply_entries cd node_id [] acc = Inr acc"
| "apply_entries cd node_id (entry # entries) (results, _, membership, d) =
     (let last_applied = Some (en_log_id entry) in
      case en_payload entry of
        Blank \<Rightarrow> apply_entries cd node_id entries (results @ [Ok], last_applied, membership, d)
      | Normal command \<Rightarrow>
          (case apply_command cd node_id command d of
             (Inr _, d') \<Rightarrow> apply_entries cd node_id entries (results @ [Ok], last_applied, membership, d')
           | (Inl NotFound, d') \<Rightarrow>
               apply_entries cd node_id entries (results @ [ApplyNotFound], last_applied, membership, d')
           | (Inl (Conflict message), d') \<Rightarrow>
               apply_entries cd node_id entries (results @ [ApplyConflict message], last_applied, membership, d')
           | (Inl VersionConflict, d') \<Rightarrow>
               apply_entries cd node_id entries (results @ [ApplyVersionConflict], last_applied, membership, d')
           | (Inl (Internal err), _) \<Rightarrow> Inl (ApplyFailed err))
      | Membership member \<Rightarrow>
          apply_entries cd node_id entries
            (results @ [Ok], last_applied,
             Some \<lparr>sm_log_id = Some (en_log_id entry), sm_membership = member\<rparr>, d))"

definition sm_apply ::
  "'b codec \<Rightarrow> ('l, 'm, 'b, 'x) raft_codec \<Rightarrow> u64 \<Rightarrow> ('l, 'm, 'b) Entry list \<Rightarrow> ('b, 'x) raft_db \<Rightarrow>
   (StorageError + ApplyResult list) \<times> ('b, 'x) raft_db" where
  "sm_apply cd rc node_id entries r =
     (case apply_entries cd node_id entries ([], None, None, rd_db r) of
        Inl e \<Rightarrow> (Inl e, r)
      | Inr (results, last_applied, membership, d') \<Rightarrow>
          (let meta1 = (case last_applied of
                          Some log_id \<Rightarrow> tinsert META_APPLIED (enc_log_id rc log_id) (META r)
                        | None \<Rightarrow> META r);
               meta2 = (case (last_applied, membership) of
                          (Some _, Some member) \<Rightarrow> tinsert META_MEMBERSHIP (enc_membership rc member) meta1
                        | _ \<Rightarrow> meta1)
           in (Inr results, r\<lparr>rd_db := d', META := meta2\<rparr>)))"

definition snapshot_id_of :: "('l \<Rightarrow> string) \<Rightarrow> 'l LogId option \<Rightarrow> string" where
  "snapshot_id_of show_leader last_applied =
     (case last_applied of
        Some log_id \<Rightarrow> show_leader (li_leader_id log_id) @ ''-'' @ show_nat (unat (li_index log_id))
      | None \<Rightarrow> ''empty'')"

definition dump_str_table :: "(string, 'v) table \<Rightarrow> (string \<times> 'v) list" where
  "dump_str_table table = map (\<lambda>(key, value). (key, value)) table"

definition restore_str_table :: "(string \<times> 'v) list \<Rightarrow> (string, 'v) table \<Rightarrow> (string, 'v) table" where
  "restore_str_table rows table = tinsert_all rows (tremove_all (tkeys table) table)"

definition clear_bytes_table :: "(bytes, 'v) table \<Rightarrow> (bytes, 'v) table" where
  "clear_bytes_table table = tremove_all (tkeys table) table"

definition build_snapshot ::
  "('l, 'm, 'b, 'x) raft_codec \<Rightarrow> ('l \<Rightarrow> string) \<Rightarrow> ('l, 'm) StoredMembership \<Rightarrow> ('b, 'x) raft_db \<Rightarrow>
   (StorageError + ('l, 'm) SnapshotMeta \<times> 'x) \<times> ('b, 'x) raft_db" where
  "build_snapshot rc show_leader dflt r =
     (case read_applied rc r of
        Inl e \<Rightarrow> (Inl e, r)
      | Inr last_applied \<Rightarrow>
     (case read_membership rc dflt r of
        Inl e \<Rightarrow> (Inl e, r)
      | Inr membership \<Rightarrow>
          (let d = rd_db r;
               bytes = enc_snapshot rc
                 \<lparr>sd_secrets = dump_str_table (SECRETS d), sd_versions = dump_str_table (VERSIONS d),
                  sd_roles = dump_str_table (ROLES d), sd_tokens = map (\<lambda>(key, value). (key, value)) (TOKENS d),
                  sd_tokens_by_name = dump_str_table (TOKENS_BY_NAME d),
                  sd_kms_rewrap = dump_str_table (KMS_REWRAP d),
                  sd_last_applied = last_applied, sd_membership = membership\<rparr>;
               meta = \<lparr>sn_last_log_id = last_applied, sn_last_membership = membership,
                       sn_snapshot_id = snapshot_id_of show_leader last_applied\<rparr>
           in (Inr (meta, bytes), write_meta (enc_blob rc) META_SNAPSHOT bytes r))))"

definition check_snapshot_meta :: "('l, 'm) SnapshotMeta \<Rightarrow> StorageError + unit" where
  "check_snapshot_meta meta =
     (case sn_last_log_id meta of
        Some l \<Rightarrow> (if li_index l > MAX_PLAUSIBLE_LOG_INDEX then Inl (SnapshotIndexTooLarge (li_index l))
                   else Inr ())
      | None \<Rightarrow> Inr ())"

fun check_snapshot_names :: "(string \<times> 'b) list \<Rightarrow> StorageError + unit" where
  "check_snapshot_names [] = Inr ()"
| "check_snapshot_names ((name, _) # rows) =
     (if \<not> is_valid_secret_name name then Inl (SnapshotInvalidName name) else check_snapshot_names rows)"

fun check_snapshot_version_keys :: "(string \<times> 'b) list \<Rightarrow> StorageError + unit" where
  "check_snapshot_version_keys [] = Inr ()"
| "check_snapshot_version_keys ((key, _) # rows) =
     (if (case split_version_key key of
            Some (name, version) \<Rightarrow> is_valid_secret_name name \<and> is_valid_secret_version version
          | None \<Rightarrow> False)
      then check_snapshot_version_keys rows else Inl (SnapshotInvalidVersionKey key))"

definition check_snapshot_rows :: "('l, 'm, 'b) SnapshotData \<Rightarrow> StorageError + unit" where
  "check_snapshot_rows data =
     (case check_snapshot_names (sd_secrets data) of
        Inl e \<Rightarrow> Inl e
      | Inr _ \<Rightarrow> check_snapshot_version_keys (sd_versions data))"

definition install_snapshot ::
  "('l, 'm, 'b, 'x) raft_codec \<Rightarrow> ('l, 'm) SnapshotMeta \<Rightarrow> 'x \<Rightarrow> ('b, 'x) raft_db \<Rightarrow>
   (StorageError + unit) \<times> ('b, 'x) raft_db" where
  "install_snapshot rc meta snapshot r =
     (case dec_snapshot rc snapshot of
        None \<Rightarrow> (Inl SnapshotDecodeFailed, r)
      | Some data \<Rightarrow>
     (case check_snapshot_meta meta of
        Inl e \<Rightarrow> (Inl e, r)
      | Inr _ \<Rightarrow>
     (case check_snapshot_rows data of
        Inl e \<Rightarrow> (Inl e, r)
      | Inr _ \<Rightarrow>
          (let d = rd_db r;
               d' = d\<lparr>SECRETS := restore_str_table (sd_secrets data) (SECRETS d),
                      VERSIONS := restore_str_table (sd_versions data) (VERSIONS d),
                      ROLES := restore_str_table (sd_roles data) (ROLES d),
                      TOKENS_BY_NAME := restore_str_table (sd_tokens_by_name data) (TOKENS_BY_NAME d),
                      KMS_REWRAP := restore_str_table (sd_kms_rewrap data) (KMS_REWRAP d),
                      TOKENS := tinsert_all (sd_tokens data) (clear_bytes_table (TOKENS d))\<rparr>;
               meta1 = (case sn_last_log_id meta of
                          Some l \<Rightarrow> tinsert META_PURGED (enc_log_id rc l)
                                       (tinsert META_APPLIED (enc_log_id rc l) (META r))
                        | None \<Rightarrow> tremove META_APPLIED (META r));
               meta2 = tinsert META_MEMBERSHIP (enc_membership rc (sn_last_membership meta)) meta1;
               log' = (case sn_last_log_id meta of
                         Some l \<Rightarrow> tremove_all (tkeys (trange (\<lambda>i. i \<le> li_index l) (LOG r))) (LOG r)
                       | None \<Rightarrow> LOG r)
           in (Inr (), \<lparr>rd_db = d', LOG = log', META = meta2\<rparr>)))))"

definition get_current_snapshot ::
  "('l, 'm, 'b, 'x) raft_codec \<Rightarrow> ('l \<Rightarrow> string) \<Rightarrow> ('l, 'm) StoredMembership \<Rightarrow> ('b, 'x) raft_db \<Rightarrow>
   StorageError + (('l, 'm) SnapshotMeta \<times> 'x) option" where
  "get_current_snapshot rc show_leader dflt r =
     (case read_meta (rc_raw rc) (dec_blob rc) META_SNAPSHOT (META r) of
        Inl e \<Rightarrow> Inl e
      | Inr None \<Rightarrow> Inr None
      | Inr (Some bytes) \<Rightarrow>
     (case read_applied rc r of
        Inl e \<Rightarrow> Inl e
      | Inr last_applied \<Rightarrow>
     (case read_membership rc dflt r of
        Inl e \<Rightarrow> Inl e
      | Inr membership \<Rightarrow>
          Inr (Some (\<lparr>sn_last_log_id = last_applied, sn_last_membership = membership,
                      sn_snapshot_id = snapshot_id_of show_leader last_applied\<rparr>, bytes)))))"

end
