(* ===== verification/Raft_Peers.thy ===== *)
theory Raft_Peers
  imports Vault_Config Core_Crypto Raft_Store "HOL-Library.Sublist"
begin

text \<open>
  \<open>raft/peer.rs\<close>, \<open>raft/server.rs\<close> and the constants of \<open>raft/types.rs\<close>: the port on which
  the nodes of a cluster talk to each other. The consensus engine behind it, the name service
  and the JSON extractors are parameters: \<open>raft_engine\<close> acts on an opaque state
  \<open>'q\<close>, a \<open>resolver\<close> answers the n-th lookup of a host, and \<open>raft_json\<close> turns a
  request into a message or into the status of the refusal, given the limit on bodies. The
  handlers share the engine, which serialises its calls, and the set of resolved addresses,
  which is replaced as a whole; so requests are served one after the other.
\<close>

section \<open>The credential of the cluster\<close>

definition MAX_PAYLOAD_ENTRIES :: u64 where "MAX_PAYLOAD_ENTRIES = 16"
definition SNAPSHOT_MAX_CHUNK_SIZE :: u64 where "SNAPSHOT_MAX_CHUNK_SIZE = 256 * 1024"
definition RPC_BODY_LIMIT :: nat where "RPC_BODY_LIMIT = 16 * 2 ^ 20"

record PeerAuth =
  pa_header :: "string option"
  pa_fingerprint :: "bytes option"
  pa_required :: bool

datatype peer_auth_error = ClusterTokenNotSet

definition peer_auth_new :: "(bytes \<Rightarrow> bytes) \<Rightarrow> string option \<Rightarrow> bool \<Rightarrow> peer_auth_error + PeerAuth" where
  "peer_auth_new sha256 token required =
     (if required \<and> token = None then Inl ClusterTokenNotSet
      else Inr \<lparr>pa_header = map_option (\<lambda>token. ''Bearer '' @ token) token,
                pa_fingerprint = map_option (fingerprint sha256) token,
                pa_required = required\<rparr>)"

definition peer_auth_disabled :: PeerAuth where
  "peer_auth_disabled = \<lparr>pa_header = None, pa_fingerprint = None, pa_required = False\<rparr>"

definition peer_auth_configured :: "PeerAuth \<Rightarrow> bool" where
  "peer_auth_configured auth \<longleftrightarrow> pa_fingerprint auth \<noteq> None"

definition strip_bearer :: "string \<Rightarrow> string option" where
  "strip_bearer v =
     (case strip_prefix ''Bearer '' v of Some t \<Rightarrow> Some t | None \<Rightarrow> strip_prefix ''bearer '' v)"

definition peer_accepts :: "(bytes \<Rightarrow> bytes) \<Rightarrow> PeerAuth \<Rightarrow> string option \<Rightarrow> bool" where
  "peer_accepts sha256 auth presented =
     (case pa_fingerprint auth of
        None \<Rightarrow> True
      | Some expected \<Rightarrow>
          (case Option.bind presented strip_bearer of
             Some token \<Rightarrow> auth_verify sha256 (trim token) expected
           | None \<Rightarrow> \<not> pa_required auth))"

section \<open>The addresses of the peers\<close>

type_synonym resolver = "nat \<Rightarrow> string \<Rightarrow> IpAddr list option"

record PeerAddrs =
  pe_enabled :: bool
  pe_ids :: "u64 list"
  pe_hosts :: "string list"
  pe_resolved :: "IpAddr set"

fun resolve :: "resolver \<Rightarrow> nat \<Rightarrow> string list \<Rightarrow> IpAddr set \<Rightarrow> nat \<times> IpAddr set" where
  "resolve dns n [] out = (n, out)"
| "resolve dns n (host # hosts) out =
     resolve dns (Suc n) hosts (case dns n host of Some addrs \<Rightarrow> out \<union> set addrs | None \<Rightarrow> out)"

definition peer_addrs_new :: "resolver \<Rightarrow> nat \<Rightarrow> bool \<Rightarrow> (u64, string) table \<Rightarrow> nat \<times> PeerAddrs" where
  "peer_addrs_new dns n enabled peers =
     (let hosts = map snd peers in
      case resolve dns n hosts {} of
        (n', resolved) \<Rightarrow>
          (n', \<lparr>pe_enabled = enabled, pe_ids = map fst peers, pe_hosts = hosts, pe_resolved = resolved\<rparr>))"

definition resolved_len :: "PeerAddrs \<Rightarrow> nat" where
  "resolved_len peers = card (pe_resolved peers)"

definition peer_allows :: "resolver \<Rightarrow> nat \<Rightarrow> IpAddr \<Rightarrow> PeerAddrs \<Rightarrow> bool \<times> nat \<times> PeerAddrs" where
  "peer_allows dns n ip peers =
     (if \<not> pe_enabled peers then (True, n, peers)
      else if ip \<in> pe_resolved peers then (True, n, peers)
      else (case resolve dns n (pe_hosts peers) {} of
              (n', fresh) \<Rightarrow> (ip \<in> fresh, n', peers\<lparr>pe_resolved := fresh\<rparr>)))"

section \<open>The consensus engine\<close>

record 'l Vote =
  vo_leader_id :: 'l
  vo_committed :: bool

text \<open>The three messages carry a vote; the rest of them is for the engine only.\<close>

record ('l, 'p) raft_rpc =
  rp_vote :: "'l Vote"
  rp_rest :: 'p

datatype client_write_error = ForwardToLeader "string option" | WriteFailed

record ('l, 'p, 'b, 'r, 'q) raft_engine =
  ra_voted_for :: "'l \<Rightarrow> u64 option"
  ra_append_entries :: "('l, 'p) raft_rpc \<Rightarrow> 'q \<Rightarrow> 'r \<times> 'q"
  ra_install_snapshot :: "('l, 'p) raft_rpc \<Rightarrow> 'q \<Rightarrow> 'r \<times> 'q"
  ra_vote :: "('l, 'p) raft_rpc \<Rightarrow> 'q \<Rightarrow> 'r \<times> 'q"
  ra_client_write :: "'b Command \<Rightarrow> 'q \<Rightarrow> (client_write_error + ApplyResult) \<times> 'q"
  ra_is_initialized :: "'q \<Rightarrow> bool option"
  ra_initialize :: "(u64, string) table \<Rightarrow> 'q \<Rightarrow> bool \<times> 'q"

definition allows_leader :: "('l \<Rightarrow> u64 option) \<Rightarrow> PeerAddrs \<Rightarrow> 'l Vote \<Rightarrow> bool" where
  "allows_leader voted_for peers vote =
     (case voted_for (vo_leader_id vote) of Some i \<Rightarrow> i \<in> set (pe_ids peers) | None \<Rightarrow> True)"

section \<open>The RPC server\<close>

record http_request =
  hr_method :: string
  hr_path :: string
  hr_source :: "IpAddr option"
  hr_authorization :: "string option"
  hr_body :: bytes

record ('l, 'p, 'b) raft_json =
  js_append :: "nat \<Rightarrow> http_request \<Rightarrow> nat + ('l, 'p) raft_rpc"
  js_snapshot :: "nat \<Rightarrow> http_request \<Rightarrow> nat + ('l, 'p) raft_rpc"
  js_vote :: "nat \<Rightarrow> http_request \<Rightarrow> nat + ('l, 'p) raft_rpc"
  js_command :: "nat \<Rightarrow> http_request \<Rightarrow> nat + 'b Command"

datatype 'r raft_response =
    StatusOnly nat
  | RpcReply 'r
  | ApplyReply ApplyResult
  | ApplyUnavailable
  | InitializedReply bool

definition raft_status :: "'r raft_response \<Rightarrow> nat" where
  "raft_status resp = (case resp of StatusOnly s \<Rightarrow> s | ApplyUnavailable \<Rightarrow> 503 | _ \<Rightarrow> 200)"

text \<open>The state of a server; \<open>rv_lookups\<close> counts the lookups made so far.\<close>

record 'q raft_server =
  rv_engine :: 'q
  rv_peers :: PeerAddrs
  rv_lookups :: nat

definition uncommitted_vote :: "'r raft_response" where
  "uncommitted_vote = StatusOnly 400"

definition unknown_leader :: "'r raft_response" where
  "unknown_leader = StatusOnly 403"

definition raft_guard ::
  "(bytes \<Rightarrow> bytes) \<Rightarrow> resolver \<Rightarrow> PeerAuth \<Rightarrow> http_request \<Rightarrow> 'q raft_server \<Rightarrow> nat option \<times> 'q raft_server" where
  "raft_guard sha256 dns auth request s =
     (let (allowed, s1) =
        (if pe_enabled (rv_peers s)
         then (case hr_source request of
                 Some ip \<Rightarrow>
                   (case peer_allows dns (rv_lookups s) ip (rv_peers s) of
                      (ok, n, peers) \<Rightarrow> (ok, s\<lparr>rv_peers := peers, rv_lookups := n\<rparr>))
               | None \<Rightarrow> (False, s))
         else (True, s))
      in if \<not> allowed then (Some 403, s1)
         else if \<not> peer_accepts sha256 auth (hr_authorization request) then (Some 401, s1)
         else (None, s1))"

definition raft_append ::
  "('l, 'p, 'b, 'r, 'q) raft_engine \<Rightarrow> ('l, 'p) raft_rpc \<Rightarrow> 'q raft_server \<Rightarrow> 'r raft_response \<times> 'q raft_server" where
  "raft_append eng rpc s =
     (if \<not> allows_leader (ra_voted_for eng) (rv_peers s) (rp_vote rpc) then (unknown_leader, s)
      else if \<not> vo_committed (rp_vote rpc) then (uncommitted_vote, s)
      else (case ra_append_entries eng rpc (rv_engine s) of (r, q) \<Rightarrow> (RpcReply r, s\<lparr>rv_engine := q\<rparr>)))"

definition raft_snapshot ::
  "('l, 'p, 'b, 'r, 'q) raft_engine \<Rightarrow> ('l, 'p) raft_rpc \<Rightarrow> 'q raft_server \<Rightarrow> 'r raft_response \<times> 'q raft_server" where
  "raft_snapshot eng rpc s =
     (if \<not> allows_leader (ra_voted_for eng) (rv_peers s) (rp_vote rpc) then (unknown_leader, s)
      else if \<not> vo_committed (rp_vote rpc) then (uncommitted_vote, s)
      else (case ra_install_snapshot eng rpc (rv_engine s) of (r, q) \<Rightarrow> (RpcReply r, s\<lparr>rv_engine := q\<rparr>)))"

definition raft_vote ::
  "('l, 'p, 'b, 'r, 'q) raft_engine \<Rightarrow> ('l, 'p) raft_rpc \<Rightarrow> 'q raft_server \<Rightarrow> 'r raft_response \<times> 'q raft_server" where
  "raft_vote eng rpc s =
     (if \<not> allows_leader (ra_voted_for eng) (rv_peers s) (rp_vote rpc) then (unknown_leader, s)
      else (case ra_vote eng rpc (rv_engine s) of (r, q) \<Rightarrow> (RpcReply r, s\<lparr>rv_engine := q\<rparr>)))"

definition raft_apply ::
  "('l, 'p, 'b, 'r, 'q) raft_engine \<Rightarrow> 'b Command \<Rightarrow> 'q raft_server \<Rightarrow> 'r raft_response \<times> 'q raft_server" where
  "raft_apply eng command s =
     (case ra_client_write eng command (rv_engine s) of
        (Inr outcome, q) \<Rightarrow> (ApplyReply outcome, s\<lparr>rv_engine := q\<rparr>)
      | (Inl _, q) \<Rightarrow> (ApplyUnavailable, s\<lparr>rv_engine := q\<rparr>))"

definition raft_initialized :: "('l, 'p, 'b, 'r, 'q) raft_engine \<Rightarrow> 'q raft_server \<Rightarrow> 'r raft_response \<times> 'q raft_server" where
  "raft_initialized eng s =
     (InitializedReply (case ra_is_initialized eng (rv_engine s) of Some v \<Rightarrow> v | None \<Rightarrow> False), s)"

text \<open>A handler runs on what the extractor makes of the body.\<close>

definition with_body ::
  "nat + 'm \<Rightarrow> ('m \<Rightarrow> 'q raft_server \<Rightarrow> 'r raft_response \<times> 'q raft_server) \<Rightarrow>
   'q raft_server \<Rightarrow> 'r raft_response \<times> 'q raft_server" where
  "with_body body handler s = (case body of Inl status \<Rightarrow> (StatusOnly status, s) | Inr m \<Rightarrow> handler m s)"

definition raft_route ::
  "('l, 'p, 'b) raft_json \<Rightarrow> ('l, 'p, 'b, 'r, 'q) raft_engine \<Rightarrow> http_request \<Rightarrow> 'q raft_server \<Rightarrow>
   'r raft_response \<times> 'q raft_server" where
  "raft_route js eng request s =
     (let post = (\<lambda>handler. if hr_method request = ''POST'' then handler s else (StatusOnly 405, s)) in
      if hr_path request = ''/raft/append''
      then post (with_body (js_append js RPC_BODY_LIMIT request) (raft_append eng))
      else if hr_path request = ''/raft/snapshot''
      then post (with_body (js_snapshot js RPC_BODY_LIMIT request) (raft_snapshot eng))
      else if hr_path request = ''/raft/vote''
      then post (with_body (js_vote js RPC_BODY_LIMIT request) (raft_vote eng))
      else if hr_path request = ''/raft/apply''
      then post (with_body (js_command js RPC_BODY_LIMIT request) (raft_apply eng))
      else if hr_path request = ''/raft/initialized''
      then (if hr_method request = ''GET'' \<or> hr_method request = ''HEAD'' then raft_initialized eng s
            else (StatusOnly 405, s))
      else (StatusOnly 404, s))"

definition raft_router ::
  "(bytes \<Rightarrow> bytes) \<Rightarrow> resolver \<Rightarrow> ('l, 'p, 'b) raft_json \<Rightarrow> ('l, 'p, 'b, 'r, 'q) raft_engine \<Rightarrow> PeerAuth \<Rightarrow>
   http_request \<Rightarrow> 'q raft_server \<Rightarrow> 'r raft_response \<times> 'q raft_server" where
  "raft_router sha256 dns js eng auth request s =
     (case raft_guard sha256 dns auth request s of
        (Some status, s1) \<Rightarrow> (StatusOnly status, s1)
      | (None, s1) \<Rightarrow> raft_route js eng request s1)"

end
