(* ===== verification/Raft_Node.thy ===== *)
theory Raft_Node
  imports Raft_Peers
begin

text \<open>
  \<open>raft/network.rs\<close> and \<open>raft/node.rs\<close>: how a node calls its peers, starts, joins or
  founds a cluster, and writes. \<open>'q\<close> is everything outside the node's own code: the
  engine, the network and the other nodes. The HTTP client is a parameter: a call has no reply
  when it cannot be sent, is not answered in time or its body cannot be read.
\<close>

section \<open>Calling a peer\<close>

record http_call =
  hm_method :: string
  hm_url :: string
  hm_authorization :: "string option"
  hm_body :: bytes

type_synonym 'q http_client = "http_call \<Rightarrow> 'q \<Rightarrow> (nat \<times> bytes) option \<times> 'q"

definition is_success :: "nat \<Rightarrow> bool" where
  "is_success status \<longleftrightarrow> 200 \<le> status \<and> status < 300"

datatype 'e rpc_error = SendFailed | RpcStatus string nat | ReplyNotJson | RemoteError u64 'e

record NetworkConnection =
  nc_auth :: PeerAuth
  nc_target :: u64
  nc_addr :: string

definition new_client :: "PeerAuth \<Rightarrow> u64 \<Rightarrow> string \<Rightarrow> NetworkConnection" where
  "new_client auth target addr = \<lparr>nc_auth = auth, nc_target = target, nc_addr = addr\<rparr>"

definition network_rpc ::
  "'q http_client \<Rightarrow> ('req \<Rightarrow> bytes) \<Rightarrow> (bytes \<Rightarrow> ('e + 'resp) option) \<Rightarrow> NetworkConnection \<Rightarrow> string \<Rightarrow> 'req \<Rightarrow>
   'q \<Rightarrow> ('e rpc_error + 'resp) \<times> 'q" where
  "network_rpc http enc dec conn path req q =
     (let url = ''http://'' @ nc_addr conn @ ''/'' @ path in
      case http \<lparr>hm_method = ''POST'', hm_url = url, hm_authorization = pa_header (nc_auth conn), hm_body = enc req\<rparr> q of
        (None, q') \<Rightarrow> (Inl SendFailed, q')
      | (Some (status, body), q') \<Rightarrow>
          (if \<not> is_success status then (Inl (RpcStatus url status), q')
           else (case dec body of
                   None \<Rightarrow> (Inl ReplyNotJson, q')
                 | Some (Inl e) \<Rightarrow> (Inl (RemoteError (nc_target conn) e), q')
                 | Some (Inr r) \<Rightarrow> (Inr r, q'))))"

definition network_append_entries ::
  "'q http_client \<Rightarrow> ('req \<Rightarrow> bytes) \<Rightarrow> (bytes \<Rightarrow> ('e + 'resp) option) \<Rightarrow> NetworkConnection \<Rightarrow> 'req \<Rightarrow>
   'q \<Rightarrow> ('e rpc_error + 'resp) \<times> 'q" where
  "network_append_entries http enc dec conn rpc = network_rpc http enc dec conn ''raft/append'' rpc"

definition network_install_snapshot ::
  "'q http_client \<Rightarrow> ('req \<Rightarrow> bytes) \<Rightarrow> (bytes \<Rightarrow> ('e + 'resp) option) \<Rightarrow> NetworkConnection \<Rightarrow> 'req \<Rightarrow>
   'q \<Rightarrow> ('e rpc_error + 'resp) \<times> 'q" where
  "network_install_snapshot http enc dec conn rpc = network_rpc http enc dec conn ''raft/snapshot'' rpc"

definition network_vote ::
  "'q http_client \<Rightarrow> ('req \<Rightarrow> bytes) \<Rightarrow> (bytes \<Rightarrow> ('e + 'resp) option) \<Rightarrow> NetworkConnection \<Rightarrow> 'req \<Rightarrow>
   'q \<Rightarrow> ('e rpc_error + 'resp) \<times> 'q" where
  "network_vote http enc dec conn rpc = network_rpc http enc dec conn ''raft/vote'' rpc"

section \<open>Is there a cluster?\<close>

record RaftNode =
  nd_peers :: "(u64, string) table"
  nd_node_id :: u64
  nd_auth :: PeerAuth

text \<open>What a node uses of the outside; \<open>no_idle\<close> is what happens there while it sleeps.\<close>

record ('l, 'p, 'b, 'r, 'q) node_ops =
  no_engine :: "('l, 'p, 'b, 'r, 'q) raft_engine"
  no_http :: "'q http_client"
  no_idle :: "'q \<Rightarrow> 'q"
  no_store :: "'q \<Rightarrow> 'b RedbStore"
  no_set_store :: "'b RedbStore \<Rightarrow> 'q \<Rightarrow> 'q"
  no_enc_command :: "'b Command \<Rightarrow> bytes"
  no_dec_result :: "bytes \<Rightarrow> ApplyResult option"
  no_dec_bool :: "bytes \<Rightarrow> bool option"

definition probe_peer_initialized ::
  "('l, 'p, 'b, 'r, 'q) node_ops \<Rightarrow> PeerAuth \<Rightarrow> string \<Rightarrow> 'q \<Rightarrow> bool option \<times> 'q" where
  "probe_peer_initialized ops auth addr q =
     (case no_http ops \<lparr>hm_method = ''GET'', hm_url = ''http://'' @ addr @ ''/raft/initialized'',
                        hm_authorization = pa_header auth, hm_body = []\<rparr> q of
        (Some (status, body), q') \<Rightarrow> (if is_success status then no_dec_bool ops body else None, q')
      | (None, q') \<Rightarrow> (None, q'))"

fun probe_any :: "('l, 'p, 'b, 'r, 'q) node_ops \<Rightarrow> PeerAuth \<Rightarrow> (u64 \<times> string) list \<Rightarrow> 'q \<Rightarrow> bool \<times> 'q" where
  "probe_any ops auth [] q = (False, q)"
| "probe_any ops auth ((_, addr) # rest) q =
     (case probe_peer_initialized ops auth addr q of
        (answer, q') \<Rightarrow> (if answer = Some True then (True, q') else probe_any ops auth rest q'))"

definition any_peer_initialized ::
  "('l, 'p, 'b, 'r, 'q) node_ops \<Rightarrow> PeerAuth \<Rightarrow> (u64, string) table \<Rightarrow> u64 \<Rightarrow> 'q \<Rightarrow> bool \<times> 'q" where
  "any_peer_initialized ops auth peers self_id q =
     probe_any ops auth (filter (\<lambda>(i, _). i \<noteq> self_id) peers) q"

text \<open>One round of discovery: Some True stands for a cluster, Some False for an answer without one.\<close>

fun probe_round ::
  "('l, 'p, 'b, 'r, 'q) node_ops \<Rightarrow> PeerAuth \<Rightarrow> (u64 \<times> string) list \<Rightarrow> bool \<Rightarrow> 'q \<Rightarrow> bool option \<times> 'q" where
  "probe_round ops auth [] reached_any q = (if reached_any then Some False else None, q)"
| "probe_round ops auth ((_, addr) # rest) reached_any q =
     (case probe_peer_initialized ops auth addr q of
        (Some True, q') \<Rightarrow> (Some True, q')
      | (Some False, q') \<Rightarrow> probe_round ops auth rest True q'
      | (None, q') \<Rightarrow> probe_round ops auth rest reached_any q')"

fun discover ::
  "('l, 'p, 'b, 'r, 'q) node_ops \<Rightarrow> PeerAuth \<Rightarrow> (u64 \<times> string) list \<Rightarrow> nat \<Rightarrow> 'q \<Rightarrow> bool \<times> 'q" where
  "discover ops auth others 0 q = (True, q)"
| "discover ops auth others (Suc attempts) q =
     (case probe_round ops auth others False q of
        (Some found, q') \<Rightarrow> (found, q')
      | (None, q') \<Rightarrow> discover ops auth others attempts (no_idle ops q'))"

definition other_peers :: "RaftNode \<Rightarrow> (u64 \<times> string) list" where
  "other_peers node = filter (\<lambda>(i, _). i \<noteq> nd_node_id node) (nd_peers node)"

definition cluster_already_running ::
  "('l, 'p, 'b, 'r, 'q) node_ops \<Rightarrow> RaftNode \<Rightarrow> 'q \<Rightarrow> bool \<times> 'q" where
  "cluster_already_running ops node q =
     (if other_peers node = [] then (False, q) else discover ops (nd_auth node) (other_peers node) 10 q)"

section \<open>Founding a cluster\<close>

datatype bootstrap_outcome = Resumed | NotBootstrapNode | ClusterDetected | Initialized | InitializeSkipped

datatype node_error =
    InitializedCheckFailed
  | RaftConfigInvalid
  | NormalizeFailed StorageError
  | RaftNewFailed
  | RaftNewFailedAfterReset

definition bootstrap ::
  "('l, 'p, 'b, 'r, 'q) node_ops \<Rightarrow> RaftNode \<Rightarrow> 'q \<Rightarrow> (node_error + bootstrap_outcome) \<times> 'q" where
  "bootstrap ops node q =
     (case ra_is_initialized (no_engine ops) q of
        None \<Rightarrow> (Inl InitializedCheckFailed, q)
      | Some True \<Rightarrow> (Inr Resumed, q)
      | Some False \<Rightarrow>
          (let lowest = (case nd_peers node of [] \<Rightarrow> nd_node_id node | (i, _) # _ \<Rightarrow> i) in
           if nd_node_id node \<noteq> lowest then (Inr NotBootstrapNode, q)
           else (case cluster_already_running ops node q of
                   (True, q') \<Rightarrow> (Inr ClusterDetected, q')
                 | (False, q') \<Rightarrow>
                     (case ra_initialize (no_engine ops) (nd_peers node) q' of
                        (ok, q'') \<Rightarrow> (Inr (if ok then Initialized else InitializeSkipped), q'')))))"

section \<open>Starting\<close>

record raft_config =
  heartbeat_interval :: u64
  election_timeout_min :: u64
  election_timeout_max :: u64
  max_payload_entries :: u64
  snapshot_max_chunk_size :: u64

definition node_raft_config :: raft_config where
  "node_raft_config =
     \<lparr>heartbeat_interval = 500, election_timeout_min = 1500, election_timeout_max = 3000,
      max_payload_entries = MAX_PAYLOAD_ENTRIES, snapshot_max_chunk_size = SNAPSHOT_MAX_CHUNK_SIZE\<rparr>"

text \<open>
  \<open>validate\<close> and \<open>raft_new\<close> are the engine's: the latter reads the local raft state,
  may write to it, and fails when it cannot make sense of it. Opening a table creates it when
  it is missing, and a missing table and an empty one are the same here.
\<close>

definition build_raft ::
  "(u64 \<Rightarrow> raft_config \<Rightarrow> PeerAuth \<Rightarrow> ('b, 'x) raft_db \<Rightarrow> bool \<times> ('b, 'x) raft_db) \<Rightarrow> u64 \<Rightarrow> raft_config \<Rightarrow> PeerAuth \<Rightarrow>
   ('b, 'x) raft_db \<Rightarrow> (node_error + unit) \<times> ('b, 'x) raft_db" where
  "build_raft raft_new node_id config auth r =
     (case raft_new node_id config auth r of (ok, r') \<Rightarrow> (if ok then Inr () else Inl RaftNewFailed, r'))"

text \<open>Whether a broken local raft state may be discarded: only when a peer has a cluster to rejoin.\<close>

definition may_rejoin ::
  "('l, 'p, 'b, 'r, 'q) node_ops \<Rightarrow> PeerAuth \<Rightarrow> (u64, string) table \<Rightarrow> u64 \<Rightarrow> 'q \<Rightarrow> bool \<times> 'q" where
  "may_rejoin ops auth peers node_id q =
     (if length peers > 1 then any_peer_initialized ops auth peers node_id q else (False, q))"

definition node_start ::
  "('l, 'm, 'b, 'x) raft_codec \<Rightarrow> (raft_config \<Rightarrow> bool) \<Rightarrow>
   (u64 \<Rightarrow> raft_config \<Rightarrow> PeerAuth \<Rightarrow> ('b, 'x) raft_db \<Rightarrow> bool \<times> ('b, 'x) raft_db) \<Rightarrow>
   ('l, 'p, 'b, 'r, 'q) node_ops \<Rightarrow> u64 \<Rightarrow> (u64, string) table \<Rightarrow> PeerAuth \<Rightarrow> ('b, 'x) raft_db \<times> 'q \<Rightarrow>
   (node_error + RaftNode) \<times> ('b, 'x) raft_db \<times> 'q" where
  "node_start rc validate raft_new ops node_id peers auth s =
     (let (r, q) = s; config = node_raft_config; node = \<lparr>nd_peers = peers, nd_node_id = node_id, nd_auth = auth\<rparr> in
      if \<not> validate config then (Inl RaftConfigInvalid, r, q)
      else
        (case (case normalize_raft_log rc r of
                 (Inr _, r1) \<Rightarrow> (Inr (), r1, q)
               | (Inl err, r1) \<Rightarrow>
                   (case may_rejoin ops auth peers node_id q of
                      (True, q1) \<Rightarrow> (Inr (), reset_raft_state r1, q1)
                    | (False, q1) \<Rightarrow> (Inl (NormalizeFailed err), r1, q1))) of
           (Inl e, r1, q1) \<Rightarrow> (Inl e, r1, q1)
         | (Inr _, r1, q1) \<Rightarrow>
             (case build_raft raft_new node_id config auth r1 of
                (Inr _, r2) \<Rightarrow> (Inr node, r2, q1)
              | (Inl err, r2) \<Rightarrow>
                  (case may_rejoin ops auth peers node_id q1 of
                     (False, q2) \<Rightarrow> (Inl err, r2, q2)
                   | (True, q2) \<Rightarrow>
                       (case build_raft raft_new node_id config auth (reset_raft_state r2) of
                          (Inr _, r3) \<Rightarrow> (Inr node, r3, q2)
                        | (Inl _, r3) \<Rightarrow> (Inl RaftNewFailedAfterReset, r3, q2))))))"

section \<open>Writing\<close>

definition outcome_to_result :: "ApplyResult \<Rightarrow> unit StoreResult" where
  "outcome_to_result outcome =
     (case outcome of
        Ok \<Rightarrow> Inr ()
      | ApplyNotFound \<Rightarrow> Inl NotFound
      | ApplyConflict message \<Rightarrow> Inl (Conflict message)
      | ApplyVersionConflict \<Rightarrow> Inl VersionConflict)"

definition node_forward ::
  "('l, 'p, 'b, 'r, 'q) node_ops \<Rightarrow> RaftNode \<Rightarrow> string \<Rightarrow> 'b Command \<Rightarrow> 'q \<Rightarrow> unit StoreResult \<times> 'q" where
  "node_forward ops node addr command q =
     (case no_http ops \<lparr>hm_method = ''POST'', hm_url = ''http://'' @ addr @ ''/raft/apply'',
                        hm_authorization = pa_header (nd_auth node), hm_body = no_enc_command ops command\<rparr> q of
        (None, q') \<Rightarrow> (Inl (Internal ForwardFailed), q')
      | (Some (status, body), q') \<Rightarrow>
          (if is_success status
           then (case no_dec_result ops body of
                   None \<Rightarrow> (Inl (Internal ForwardFailed), q')
                 | Some outcome \<Rightarrow> (outcome_to_result outcome, q'))
           else (Inl (Internal (LeaderRejected status)), q')))"

definition node_write ::
  "('l, 'p, 'b, 'r, 'q) node_ops \<Rightarrow> RaftNode \<Rightarrow> 'b Command \<Rightarrow> 'q \<Rightarrow> unit StoreResult \<times> 'q" where
  "node_write ops node command q =
     (case ra_client_write (no_engine ops) command q of
        (Inr outcome, q') \<Rightarrow> (outcome_to_result outcome, q')
      | (Inl (ForwardToLeader (Some addr)), q') \<Rightarrow> node_forward ops node addr command q'
      | (Inl (ForwardToLeader None), q') \<Rightarrow> (Inl (Internal NoLeader), q')
      | (Inl WriteFailed, q') \<Rightarrow> (Inl (Internal RaftFailed), q'))"

definition raft_store_apply ::
  "'b codec \<Rightarrow> ('l, 'p, 'b, 'r, 'q) node_ops \<Rightarrow> RaftNode \<Rightarrow> 'b Command \<Rightarrow> 'q \<Rightarrow> unit StoreResult \<times> 'q" where
  "raft_store_apply cd ops node command q =
     (if is_local command
      then (case redb_apply cd command (no_store ops q) of (res, st) \<Rightarrow> (res, no_set_store ops st q))
      else node_write ops node command q)"

definition raft_store_restore ::
  "('l, 'p, 'b, 'r, 'q) node_ops \<Rightarrow> RaftNode \<Rightarrow> 'b BackupData \<Rightarrow> 'q \<Rightarrow> unit StoreResult \<times> 'q" where
  "raft_store_restore ops node data q = node_write ops node (RestoreDatabase data) q"

text \<open>The readers of a replicated store read the local one.\<close>

definition raft_store_read ::
  "'b codec \<Rightarrow> ('l, 'p, 'b, 'r, 'q) node_ops \<Rightarrow> ('b codec \<Rightarrow> 'b db \<Rightarrow> 'a StoreResult) \<Rightarrow> 'q \<Rightarrow> 'a StoreResult" where
  "raft_store_read cd ops reader q = reader cd (redb_db (no_store ops q))"

end
