(* ===== verification/Raft_Laws.thy ===== *)
theory Raft_Laws
  imports Raft_Store
begin

text \<open>
  The log store and the state machine: start-up normalisation, batches, snapshots and what a
  node that joins from a snapshot sees.
\<close>

section \<open>Hypotheses on stored values\<close>

definition enc_dec :: "('x \<Rightarrow> bytes) \<Rightarrow> ('a \<Rightarrow> 'x) \<Rightarrow> ('x \<Rightarrow> 'a option) \<Rightarrow> bool" where
  "enc_dec raw enc dec \<longleftrightarrow> (\<forall>a. dec (enc a) = Some a \<and> \<not> is_json_null (raw (enc a)))"

definition raft_codec_ok :: "('l, 'm, 'b, 'x) raft_codec \<Rightarrow> bool" where
  "raft_codec_ok rc \<longleftrightarrow>
     enc_dec (rc_raw rc) (enc_log_id rc) (dec_log_id rc) \<and>
     enc_dec (rc_raw rc) (enc_membership rc) (dec_membership rc) \<and>
     enc_dec (rc_raw rc) (enc_entry rc) (dec_entry rc) \<and>
     enc_dec (rc_raw rc) (enc_snapshot rc) (dec_snapshot rc) \<and>
     enc_dec (rc_raw rc) (enc_blob rc) (dec_blob rc)"

definition raft_wf :: "('b, 'x) raft_db \<Rightarrow> bool" where
  "raft_wf r \<longleftrightarrow> db_wf (rd_db r) \<and> twf (LOG r) \<and> twf (META r)"

lemma raft_wfD: "raft_wf r \<Longrightarrow> db_wf (rd_db r)" "raft_wf r \<Longrightarrow> twf (LOG r)" "raft_wf r \<Longrightarrow> twf (META r)"
  by (simp_all add: raft_wf_def)

lemma meta_keys_distinct [simp]:
  "META_APPLIED \<noteq> META_PURGED" "META_PURGED \<noteq> META_APPLIED"
  "META_APPLIED \<noteq> META_MEMBERSHIP" "META_MEMBERSHIP \<noteq> META_APPLIED"
  "META_APPLIED \<noteq> META_SNAPSHOT" "META_SNAPSHOT \<noteq> META_APPLIED"
  "META_PURGED \<noteq> META_MEMBERSHIP" "META_MEMBERSHIP \<noteq> META_PURGED"
  "META_SNAPSHOT \<noteq> META_MEMBERSHIP" "META_MEMBERSHIP \<noteq> META_SNAPSHOT"
  "META_SNAPSHOT \<noteq> META_PURGED" "META_PURGED \<noteq> META_SNAPSHOT"
  by (simp_all add: META_APPLIED_def META_PURGED_def META_MEMBERSHIP_def META_SNAPSHOT_def)

lemma read_meta_cong:
  "tget meta key = tget meta' key \<Longrightarrow> read_meta raw dec key meta = read_meta raw dec key meta'"
  by (simp add: read_meta_def)

lemma read_meta_written:
  "enc_dec raw enc dec \<Longrightarrow> tget meta key = Some (enc a) \<Longrightarrow> read_meta raw dec key meta = Inr (Some a)"
  by (simp add: read_meta_def enc_dec_def)

section \<open>Normalisation\<close>

definition below_floor :: "u64 option \<Rightarrow> u64 \<Rightarrow> bool" where
  "below_floor flr i = (case flr of Some f \<Rightarrow> i \<le> f | None \<Rightarrow> False)"

lemma normalize_scan_truncating: "normalize_scan flr e True ks = ks"
  by (induction ks) auto

lemma normalize_scan_subset: "set (normalize_scan flr e b ks) \<subseteq> set ks"
  by (induction flr e b ks rule: normalize_scan.induct) auto

lemma upt_plus_Suc: "[a ..< Suc (a + n)] = a # [Suc a ..< Suc (a + n)]"
  by (simp add: upt_conv_Cons del: upt_Suc)

lemma unat_plus_one:
  fixes e :: u64
  assumes "e < i"
  shows "unat (e + 1) = unat e + 1"
proof -
  have "unat e < unat i" using assms by (simp add: word_less_nat_alt)
  moreover have "unat i < 18446744073709551616" by (rule less_le_trans [OF unsigned_less]) simp
  ultimately show ?thesis by (simp add: unat_word_ariths)
qed

lemma normalize_scan_run:
  fixes ks :: "u64 list"
  assumes "sorted_wrt (<) ks" "\<forall>i \<in> set ks. e \<le> i" "\<forall>i \<in> set ks. \<not> below_floor flr i"
  defines "kept \<equiv> filter (\<lambda>i. i \<notin> set (normalize_scan flr e False ks)) ks"
  shows "map unat kept = [unat e ..< unat e + length kept] \<and>
         (\<forall>i \<in> set (normalize_scan flr e False ks). unat e + length kept < unat i)"
  using assms(1-3) unfolding kept_def
proof (induction ks arbitrary: e)
  case (Cons i ks)
  let ?k = "\<lambda>e ks. filter (\<lambda>i. i \<notin> set (normalize_scan flr e False ks)) ks"
  have nb: "\<not> (case flr of Some f \<Rightarrow> i \<le> f | None \<Rightarrow> False)"
    using Cons.prems(3) by (simp add: below_floor_def)
  show ?case
  proof (cases "i = e")
    case True
    have scan: "normalize_scan flr e False (i # ks) = normalize_scan flr (e + 1) False ks"
      using nb [unfolded True] True by simp
    have notin: "i \<notin> set (normalize_scan flr (e + 1) False ks)"
      using Cons.prems(1) normalize_scan_subset [of flr "e + 1" False ks] by auto
    show ?thesis
    proof (cases ks)
      case Nil
      then show ?thesis using True nb [unfolded True] by simp
    next
      case (Cons j js)
      with Cons.prems(1) True have "e < j" by simp
      note un = unat_plus_one [OF this]
      have "\<forall>j \<in> set ks. e + 1 \<le> j"
        using Cons.prems(1) True un by (auto simp: word_le_nat_alt word_less_nat_alt)
      from Cons.IH [OF _ this] have ih: "map unat (?k (e + 1) ks) = [unat (e + 1) ..< unat (e + 1) + length (?k (e + 1) ks)]"
        "\<forall>i \<in> set (normalize_scan flr (e + 1) False ks). unat (e + 1) + length (?k (e + 1) ks) < unat i"
        using Cons.prems by auto
      have "?k e (i # ks) = e # ?k (e + 1) ks"
        using scan notin True by simp
      then show ?thesis
        using ih un unfolding scan by (simp add: upt_plus_Suc del: upt_Suc)
    qed
  next
    case False
    then have scan: "normalize_scan flr e False (i # ks) = i # ks"
      using nb by (simp add: normalize_scan_truncating)
    have "e < i" using False Cons.prems(2) by (simp add: order_less_le)
    then have "e < j" if "j \<in> set (i # ks)" for j
      using that Cons.prems(1) by (auto intro: less_trans)
    then have "unat e < unat j" if "j \<in> set (i # ks)" for j
      using that by (simp add: word_less_nat_alt)
    then show ?thesis unfolding scan by simp
  qed
qed simp

lemma normalize_scan_floor:
  fixes ks :: "u64 list"
  assumes "sorted_wrt (<) ks"
  shows "normalize_scan flr e False ks =
    filter (below_floor flr) ks @ normalize_scan flr e False (filter (\<lambda>i. \<not> below_floor flr i) ks)"
  using assms
proof (induction ks)
  case (Cons i ks)
  show ?case
  proof (cases "below_floor flr i")
    case True
    then have "normalize_scan flr e False (i # ks) = i # normalize_scan flr e False ks"
      by (cases flr) (simp_all add: below_floor_def)
    with True Cons show ?thesis by simp
  next
    case False
    then have "\<not> below_floor flr j" if "j \<in> set ks" for j
      using that Cons.prems by (auto simp: below_floor_def split: option.splits)
    with False show ?thesis by (simp add: filter_True filter_False)
  qed
qed simp

lemma normalize_scan_contiguous:
  "map unat ks = [unat e ..< unat e + length ks] \<Longrightarrow> \<forall>i \<in> set ks. \<not> below_floor flr i \<Longrightarrow>
   normalize_scan flr e False ks = []"
proof (induction ks arbitrary: e)
  case (Cons i ks)
  then have "unat i = unat e" by (simp add: upt_plus_Suc del: upt_Suc)
  then have ie: "i = e" by (rule unsigned_word_eqI)
  have "normalize_scan flr (e + 1) False ks = []"
  proof (cases ks)
    case (Cons j js)
    with Cons.prems(1) have "unat j = Suc (unat e)" by (simp add: upt_conv_Cons del: upt_Suc)
    then have "e < j" by (simp add: word_less_nat_alt)
    from unat_plus_one [OF this] show ?thesis
      using Cons.IH [of "e + 1"] Cons.prems by (simp add: upt_plus_Suc del: upt_Suc)
  qed simp
  then show ?case using ie Cons.prems(2) by (simp add: below_floor_def split: option.splits)
qed simp

lemma filter_notin_keys:
  "twf t \<Longrightarrow> tkeys (tremove_all ks t) = filter (\<lambda>k. k \<notin> set ks) (tkeys t)"
proof -
  have "tremove_all ks t = filter (\<lambda>row. fst row \<notin> set ks) t"
  proof (induction ks arbitrary: t)
    case (Cons k ks)
    have "tremove_all (k # ks) t = tremove_all ks (tremove k t)" by (simp add: tremove_all_def)
    then show ?case using Cons by (simp add: tremove_def conj_commute)
  qed (simp add: tremove_all_def)
  then show ?thesis by (simp add: tkeys_def filter_map o_def)
qed

lemma normalize_keys:
  fixes ks :: "u64 list" and flr :: "u64 option"
  assumes "sorted_wrt (<) ks"
  defines "start \<equiv> normalize_start flr"
  defines "dels \<equiv> normalize_scan flr start False ks"
  defines "kept \<equiv> filter (\<lambda>i. i \<notin> set dels) ks"
  shows "map unat kept = [unat start ..< unat start + length kept]"
    "\<forall>i \<in> set kept. \<not> below_floor flr i"
    "\<forall>i \<in> set dels. below_floor flr i \<or> unat start + length kept < unat i"
    "normalize_scan flr start False kept = []"
proof -
  let ?hi = "filter (\<lambda>i. \<not> below_floor flr i) ks"
  have s: "sorted_wrt (<) ?hi" by (rule sorted_wrt_filter) fact
  have ge: "\<forall>i \<in> set ?hi. start \<le> i"
    by (auto simp: start_def normalize_start_def below_floor_def sat_add_u64_def word_le_nat_alt
        word_less_nat_alt not_le unat_word_ariths split: option.splits)
  note run = normalize_scan_run [OF s ge, of flr]
  have dels: "set dels = {i \<in> set ks. below_floor flr i} \<union> set (normalize_scan flr start False ?hi)"
    unfolding dels_def by (subst normalize_scan_floor [OF assms(1)]) auto
  have kept: "kept = filter (\<lambda>i. i \<notin> set (normalize_scan flr start False ?hi)) ?hi"
    unfolding kept_def dels filter_filter by (rule filter_cong) auto
  show "map unat kept = [unat start ..< unat start + length kept]"
    using run unfolding kept by auto
  show nb: "\<forall>i \<in> set kept. \<not> below_floor flr i" unfolding kept by auto
  show "\<forall>i \<in> set dels. below_floor flr i \<or> unat start + length kept < unat i"
    using run unfolding kept dels by auto
  show "normalize_scan flr start False kept = []"
    by (rule normalize_scan_contiguous) fact+
qed

definition purged_behind :: "'l LogId option \<Rightarrow> 'l LogId option \<Rightarrow> bool" where
  "purged_behind applied purged =
     (case (applied, purged) of
        (Some a, Some p) \<Rightarrow> li_index p < li_index a | (Some _, None) \<Rightarrow> True | _ \<Rightarrow> False)"

lemma normalize_raft_log_eq:
  assumes "twf (LOG r)" "read_applied rc r = Inr applied" "read_purged rc r = Inr purged"
  shows "normalize_raft_log rc r =
    (Inr (),
     r\<lparr>LOG := tremove_all (normalize_scan (normalize_floor applied purged)
              (normalize_start (normalize_floor applied purged)) False (tkeys (LOG r))) (LOG r),
       META := (if purged_behind applied purged then tinsert META_PURGED (enc_log_id rc (the applied)) (META r)
                else META r)\<rparr>)"
  using assms by (auto simp: normalize_raft_log_def purged_behind_def write_meta_def tremove_all_def Let_def
      split: option.splits)

text \<open>
  Start-up normalisation always succeeds when the metadata is readable, and leaves a log that is
  contiguous from the entry after the last applied one. It drops only entries
  that are already applied and entries behind a gap, keeps the others unchanged, does not touch the
  tables of the store, and brings the last purged id up to the last applied one. Normalising
  again changes nothing.
\<close>

theorem normalize_contiguous:
  assumes "raft_codec_ok rc" "raft_wf r" "read_applied rc r = Inr applied" "read_purged rc r = Inr purged"
  shows "\<exists>r'. normalize_raft_log rc r = (Inr (), r') \<and> rd_db r' = rd_db r \<and>
    (let flr = normalize_floor applied purged; start = normalize_start flr in
       map unat (tkeys (LOG r')) = [unat start ..< unat start + length (LOG r')] \<and>
       (\<forall>i. tget (LOG r') i = tget (LOG r) i \<or>
            below_floor flr i \<or> unat start + length (LOG r') < unat i)) \<and>
    (\<forall>a. applied = Some a \<longrightarrow> (\<exists>p. read_purged rc r' = Inr (Some p) \<and> li_index a \<le> li_index p)) \<and>
    normalize_raft_log rc r' = (Inr (), r')"
proof -
  let ?flr = "normalize_floor applied purged"
  let ?dels = "normalize_scan ?flr (normalize_start ?flr) False (tkeys (LOG r))"
  note wf = raft_wfD [OF assms(2)]
  obtain r' where n: "normalize_raft_log rc r = (Inr (), r')"
    and r': "r' = r\<lparr>LOG := tremove_all ?dels (LOG r),
       META := (if purged_behind applied purged then tinsert META_PURGED (enc_log_id rc (the applied)) (META r)
                else META r)\<rparr>"
    using normalize_raft_log_eq [OF wf(2) assms(3,4)] by blast
  have "sorted_wrt (<) (tkeys (LOG r))" using wf(2) by (simp add: twf_def tkeys_def)
  note keys = normalize_keys [OF this, of ?flr]
  have kept: "tkeys (LOG r') = filter (\<lambda>i. i \<notin> set ?dels) (tkeys (LOG r))"
    by (simp add: r' filter_notin_keys [OF wf(2)])
  have len: "length (LOG r') = length (filter (\<lambda>i. i \<notin> set ?dels) (tkeys (LOG r)))"
    using kept by (metis length_map tkeys_def)
  have rows: "tget (LOG r') i = tget (LOG r) i \<or> i \<in> set ?dels" for i
    using wf(2) by (simp add: r' table_simps)
  have applied': "read_applied rc r' = Inr applied"
    using assms(3) wf(3) by (auto simp: read_applied_def r' table_simps cong: read_meta_cong)
  define purged' where "purged' = (if purged_behind applied purged then applied else purged)"
  have "enc_dec (rc_raw rc) (enc_log_id rc) (dec_log_id rc)" using assms(1) by (simp add: raft_codec_ok_def)
  then have purged: "read_purged rc r' = Inr purged'"
    using assms(4) wf(3)
    by (cases applied) (auto simp: purged'_def read_purged_def r' purged_behind_def table_simps
        intro!: read_meta_written [of "rc_raw rc" "enc_log_id rc" "dec_log_id rc"])
  have flr': "normalize_floor applied purged' = ?flr" "\<not> purged_behind applied purged'"
    by (auto simp: purged'_def purged_behind_def normalize_floor_def split: option.splits if_splits)
  have "twf (LOG r')" using wf(2) by (simp add: r' table_simps)
  from normalize_raft_log_eq [OF this applied' purged] have again: "normalize_raft_log rc r' = (Inr (), r')"
    using keys(4) by (simp add: flr' kept tremove_all_def)
  have ahead: "\<exists>p. purged' = Some p \<and> li_index a \<le> li_index p" if "applied = Some a" for a
    using that by (auto simp: purged'_def purged_behind_def not_less split: option.splits)
  have "rd_db r' = rd_db r" by (simp add: r')
  moreover have "map unat (tkeys (LOG r')) =
      [unat (normalize_start ?flr) ..< unat (normalize_start ?flr) + length (LOG r')]"
    using keys(1) unfolding kept len .
  moreover have "\<forall>i. tget (LOG r') i = tget (LOG r) i \<or>
      below_floor ?flr i \<or> unat (normalize_start ?flr) + length (LOG r') < unat i"
    using rows keys(3) unfolding len by blast
  moreover have "\<forall>a. applied = Some a \<longrightarrow> (\<exists>p. read_purged rc r' = Inr (Some p) \<and> li_index a \<le> li_index p)"
    using ahead purged by simp
  ultimately show ?thesis
    unfolding Let_def using n again by (intro exI [of _ r'] conjI)
qed

section \<open>Batches\<close>

lemma apply_entries_append:
  "apply_entries cd n (es @ fs) acc =
     (case apply_entries cd n es acc of Inl e \<Rightarrow> Inl e | Inr acc' \<Rightarrow> apply_entries cd n fs acc')"
  by (induction cd n es acc rule: apply_entries.induct)
     (auto simp: Let_def split: EntryPayload.split prod.split sum.split StoreError.split)

definition pass_batch :: "'a list \<Rightarrow> 'c option \<Rightarrow> 'd option \<Rightarrow>
    'e + ('a list \<times> 'c option \<times> 'd option \<times> 'f) \<Rightarrow> 'e + ('a list \<times> 'c option \<times> 'd option \<times> 'f)" where
  "pass_batch rs l m out =
     (case out of
        Inl e \<Rightarrow> Inl e
      | Inr (rs', l', m', d) \<Rightarrow>
          Inr (rs @ rs', (if l' = None then l else l'), (if m' = None then m else m'), d))"

lemma apply_entries_acc:
  "apply_entries cd n es (rs, l, m, d) = pass_batch rs l m (apply_entries cd n es ([], None, None, d))"
proof (induction es arbitrary: rs l m d)
  case (Cons e es)
  note IH = Cons.IH [of "_ @ _"] Cons.IH [of "[_]"]
  show ?case
    by (cases e, cases "en_payload e")
       (auto simp: Let_def IH pass_batch_def split: prod.split sum.split StoreError.split)
qed (simp add: pass_batch_def)

end
