(* ===== verification/Raft_Snapshots.thy ===== *)
theory Raft_Snapshots
  imports Raft_Laws
begin

text \<open>
  Batches of log entries, snapshots, and joining a cluster: splitting a batch does not matter,
  a node that installs a snapshot and replays the rest of the log agrees with a node that
  applied everything, and the snapshot that is kept for later is paired with newer metadata.
\<close>

section \<open>A concrete encoding\<close>

datatype jval =
    JLogId "nat LogId"
  | JMembership "(nat, nat) StoredMembership"
  | JEntry "(nat, nat, row) Entry"
  | JSnapshot "(nat, nat, row) SnapshotData"
  | JBlob jval
  | JNull

definition jval_codec :: "(nat, nat, row, jval) raft_codec" where
  "jval_codec =
     \<lparr>enc_log_id = JLogId, dec_log_id = (\<lambda>j. case j of JLogId x \<Rightarrow> Some x | _ \<Rightarrow> None),
      enc_membership = JMembership, dec_membership = (\<lambda>j. case j of JMembership x \<Rightarrow> Some x | _ \<Rightarrow> None),
      enc_entry = JEntry, dec_entry = (\<lambda>j. case j of JEntry x \<Rightarrow> Some x | _ \<Rightarrow> None),
      enc_snapshot = JSnapshot, dec_snapshot = (\<lambda>j. case j of JSnapshot x \<Rightarrow> Some x | _ \<Rightarrow> None),
      enc_blob = JBlob, dec_blob = (\<lambda>j. case j of JBlob x \<Rightarrow> Some x | _ \<Rightarrow> None),
      rc_raw = (\<lambda>j. case j of JNull \<Rightarrow> as_bytes ''null'' | _ \<Rightarrow> [])\<rparr>"

lemma jval_codec_ok [simp]: "raft_codec_ok jval_codec"
  by (simp add: raft_codec_ok_def enc_dec_def jval_codec_def is_json_null_def trim_ascii_def as_bytes_def)

definition log_id_at :: "u64 \<Rightarrow> nat LogId" where
  "log_id_at i = \<lparr>li_leader_id = 1, li_index = i\<rparr>"

definition entry_at :: "u64 \<Rightarrow> (nat, row) EntryPayload \<Rightarrow> (nat, nat, row) Entry" where
  "entry_at i p = \<lparr>en_log_id = log_id_at i, en_payload = p\<rparr>"

definition no_members :: "(nat, nat) StoredMembership" where
  "no_members = \<lparr>sm_log_id = None, sm_membership = 0\<rparr>"

definition empty_raft :: "(row, jval) raft_db" where
  "empty_raft = \<lparr>rd_db = empty_db, LOG = [], META = []\<rparr>"

lemma empty_raft_wf [simp]: "raft_wf empty_raft"
  by (simp add: raft_wf_def empty_raft_def)

theorem normalize_contiguous_witness:
  "let r = empty_raft\<lparr>LOG := [(2, JNull), (3, JNull), (4, JNull), (7, JNull)],
                      META := [(META_APPLIED, JLogId (log_id_at 2))]\<rparr>
   in \<exists>r'. normalize_raft_log jval_codec r = (Inr (), r') \<and>
        map unat (tkeys (LOG r')) = [3 ..< 3 + length (LOG r')]"
proof -
  let ?r = "empty_raft\<lparr>LOG := [(2, JNull), (3, JNull), (4, JNull), (7, JNull)],
                      META := [(META_APPLIED, JLogId (log_id_at 2))]\<rparr>"
  have wf: "raft_wf ?r" by (simp add: raft_wf_def empty_raft_def twf_def)
  have applied: "read_applied jval_codec ?r = Inr (Some (log_id_at 2))"
    by (simp add: read_applied_def read_meta_def tget_def jval_codec_def is_json_null_def trim_ascii_def as_bytes_def)
  have purged: "read_purged jval_codec ?r = Inr None"
    by (simp add: read_purged_def read_meta_def tget_def)
  show ?thesis
    using normalize_contiguous [OF jval_codec_ok wf applied purged]
    by (auto simp: Let_def normalize_floor_def normalize_start_def log_id_at_def sat_add_u64_def)
qed

section \<open>Batches\<close>

lemma apply_entries_None:
  "apply_entries cd n es ([], None, None, d) = Inr (rs, None, m, d') \<longleftrightarrow> es = [] \<and> rs = [] \<and> m = None \<and> d' = d"
proof (cases es)
  case (Cons e fs)
  have "apply_entries cd n fs (rs0, Some l, m0, d0) \<noteq> Inr (rs, None, m, d')" for rs0 l m0 d0
    by (subst apply_entries_acc) (auto simp: pass_batch_def split: sum.split prod.split)
  then show ?thesis
    by (auto simp: Cons Let_def split: EntryPayload.split prod.split sum.split StoreError.split)
qed auto

lemma apply_entries_last:
  assumes "apply_entries cd n es ([], None, None, d) = Inr (rs, l, m, d')" "es \<noteq> []"
  shows "l = Some (en_log_id (last es))"
proof -
  obtain fs e where es: "es = fs @ [e]" using assms(2) by (metis rev_exhaust)
  obtain rs1 l1 m1 d1 where "apply_entries cd n fs ([], None, None, d) = Inr (rs1, l1, m1, d1)"
    "apply_entries cd n [e] (rs1, l1, m1, d1) = Inr (rs, l, m, d')"
    using assms(1) unfolding es apply_entries_append by (auto split: sum.splits)
  then show ?thesis
    by (auto simp: es Let_def split: EntryPayload.splits prod.splits sum.splits StoreError.splits)
qed

definition batch_meta ::
  "('l, 'm, 'b, 'x) raft_codec \<Rightarrow> 'l LogId option \<Rightarrow> ('l, 'm) StoredMembership option \<Rightarrow> (string, 'x) table \<Rightarrow> (string, 'x) table" where
  "batch_meta rc l m meta =
     (case l of
        None \<Rightarrow> meta
      | Some i \<Rightarrow>
          (let meta1 = tinsert META_APPLIED (enc_log_id rc i) meta
           in case m of None \<Rightarrow> meta1 | Some mem \<Rightarrow> tinsert META_MEMBERSHIP (enc_membership rc mem) meta1))"

lemma sm_apply_eq:
  "sm_apply cd rc n es r =
     (case apply_entries cd n es ([], None, None, rd_db r) of
        Inl e \<Rightarrow> (Inl e, r)
      | Inr (rs, l, m, d') \<Rightarrow> (Inr rs, r\<lparr>rd_db := d', META := batch_meta rc l m (META r)\<rparr>))"
  by (simp add: sm_apply_def batch_meta_def Let_def split: sum.split prod.split option.split)

lemma twf_batch_meta [simp]: "twf meta \<Longrightarrow> twf (batch_meta rc l m meta)"
  by (simp add: batch_meta_def Let_def table_simps split: option.split)

lemma tget_batch_meta:
  "twf meta \<Longrightarrow> tget (batch_meta rc l m meta) k =
     (if l \<noteq> None \<and> k = META_APPLIED then map_option (enc_log_id rc) l
      else if l \<noteq> None \<and> m \<noteq> None \<and> k = META_MEMBERSHIP then map_option (enc_membership rc) m
      else tget meta k)"
  by (auto simp: batch_meta_def Let_def table_simps split: option.split)

lemma batch_meta_twice:
  assumes "twf meta" "l2 \<noteq> None \<or> m2 = None"
  shows "batch_meta rc l2 m2 (batch_meta rc l1 m1 meta) =
    batch_meta rc (if l2 = None then l1 else l2) (if l2 = None then m1 else if m2 = None then (if l1 = None then None else m1) else m2) meta"
  by (rule ttable_eqI) (use assms in \<open>auto simp: tget_batch_meta fun_eq_iff\<close>)

text \<open>
  How the log is cut into batches does not matter: applying two batches one after the other gives the
  results, tables and metadata of applying them as one. A batch that fails on a storage
  error changes nothing.
\<close>

theorem apply_batches:
  assumes "raft_wf r" "sm_apply cd rc n es r = (Inr rs1, r1)" "sm_apply cd rc n fs r1 = (res, r2)"
  shows "(case res of
            Inr rs2 \<Rightarrow> sm_apply cd rc n (es @ fs) r = (Inr (rs1 @ rs2), r2)
          | Inl e \<Rightarrow> sm_apply cd rc n (es @ fs) r = (Inl e, r) \<and> r2 = r1)"
proof -
  obtain l1 m1 d1 where a1: "apply_entries cd n es ([], None, None, rd_db r) = Inr (rs1, l1, m1, d1)"
    and r1: "r1 = r\<lparr>rd_db := d1, META := batch_meta rc l1 m1 (META r)\<rparr>"
    using assms(2) by (auto simp: sm_apply_eq split: sum.splits prod.splits)
  have both: "apply_entries cd n (es @ fs) ([], None, None, rd_db r) =
      pass_batch rs1 l1 m1 (apply_entries cd n fs ([], None, None, d1))"
    by (simp add: apply_entries_append a1 apply_entries_acc [of cd n fs rs1])
  show ?thesis
  proof (cases "apply_entries cd n fs ([], None, None, d1)")
    case (Inl e)
    then show ?thesis using assms(3) both by (auto simp: sm_apply_eq r1 pass_batch_def)
  next
    case (Inr out)
    then obtain rs2 l2 m2 d2 where a2: "apply_entries cd n fs ([], None, None, d1) = Inr (rs2, l2, m2, d2)"
      by (cases out) auto
    have l1: "l1 = None \<longrightarrow> m1 = None" and l2: "l2 = None \<longrightarrow> m2 = None"
      using a1 a2 apply_entries_None by blast+
    have "batch_meta rc l2 m2 (batch_meta rc l1 m1 (META r)) =
        batch_meta rc (if l2 = None then l1 else l2) (if m2 = None then m1 else m2) (META r)"
      using l1 l2 raft_wfD(3) [OF assms(1)] by (subst batch_meta_twice) auto
    then show ?thesis
      using assms(3) both by (auto simp: sm_apply_eq r1 a2 pass_batch_def)
  qed
qed

theorem apply_batches_witness:
  "\<exists>r2. sm_apply row_codec jval_codec 1
     ([entry_at 0 Blank, entry_at 1 (Membership 5)] @ [entry_at 2 (Normal (AddToken sample_token))]) empty_raft =
     (Inr ([Ok, Ok] @ [Ok]), r2)"
proof -
  let ?a = "[entry_at 0 Blank, entry_at 1 (Membership 5)]" and ?b = "[entry_at 2 (Normal (AddToken sample_token))]"
  let ?r1 = "snd (sm_apply row_codec jval_codec 1 ?a empty_raft)"
  have 1: "sm_apply row_codec jval_codec 1 ?a empty_raft = (Inr [Ok, Ok], ?r1)"
    by (simp add: sm_apply_eq entry_at_def)
  have d: "rd_db ?r1 = empty_db" by (simp add: sm_apply_eq entry_at_def empty_raft_def)
  have 2: "sm_apply row_codec jval_codec 1 ?b ?r1 =
      (Inr [Ok], snd (sm_apply row_codec jval_codec 1 ?b ?r1))"
    unfolding sm_apply_eq [of _ _ _ ?b] d
    by (simp add: entry_at_def apply_add_token_def empty_db_def)
  show ?thesis using apply_batches [OF empty_raft_wf 1 2] by auto
qed

section \<open>Replaying the same entries\<close>

definition replicated_entries :: "('l, 'm, 'b) Entry list \<Rightarrow> bool" where
  "replicated_entries es \<longleftrightarrow>
     list_all (\<lambda>e. case en_payload e of Normal c \<Rightarrow> \<not> is_local c | _ \<Rightarrow> True) es"

fun same_batch :: "StorageError + ('r \<times> 'i \<times> 'm \<times> 'b db) \<Rightarrow> StorageError + ('r \<times> 'i \<times> 'm \<times> 'b db) \<Rightarrow> bool" where
  "same_batch (Inl e) out = (out = Inl e)"
| "same_batch (Inr (rs, l, m, d)) out = (\<exists>d'. out = Inr (rs, l, m, d') \<and> shared d = shared d')"

lemma apply_entries_shared:
  assumes "replicated_entries es" "shared d = shared e"
  shows "same_batch (apply_entries cd n es (rs, l, m, d)) (apply_entries cd k es (rs, l, m, e))"
  using assms
proof (induction es arbitrary: rs l m d e)
  case (Cons x es)
  then have IH: "shared d' = shared e' \<Longrightarrow>
      same_batch (apply_entries cd n es (rs', l', m', d')) (apply_entries cd k es (rs', l', m', e'))" for rs' l' m' d' e'
    by (simp add: replicated_entries_def)
  show ?case
  proof (cases "en_payload x")
    case (Normal c)
    with Cons.prems have "\<not> is_local c" by (simp add: replicated_entries_def)
    from replicated_command_shared [OF this Cons.prems(2), of cd n k]
    show ?thesis
      using IH by (cases "apply_command cd n c d", cases "apply_command cd k c e")
        (auto simp: Normal Let_def split: sum.split StoreError.split)
  qed (use IH Cons.prems in \<open>simp_all add: Let_def\<close>)
qed simp

section \<open>Snapshots\<close>

lemma snapshot_table_simps:
  "dump_str_table t = t" "twf u \<Longrightarrow> twf t \<Longrightarrow> restore_str_table u t = u"
  by (simp_all add: dump_str_table_def restore_str_table_def tkeys_def trefill)

lemma tokens_refill: "twf u \<Longrightarrow> twf t \<Longrightarrow> tinsert_all u (clear_bytes_table t) = u"
  by (simp add: clear_bytes_table_def tkeys_def trefill)

lemma check_snapshot_names_ok: "check_snapshot_names rows = Inr () \<longleftrightarrow> secret_keys_ok (map fst rows)"
  by (induction rows rule: check_snapshot_names.induct) (auto simp: secret_keys_ok_def)

lemma check_snapshot_version_keys_ok:
  "check_snapshot_version_keys rows = Inr () \<longleftrightarrow> version_keys_ok (map fst rows)"
  by (induction rows rule: check_snapshot_version_keys.induct)
     (auto simp: version_keys_ok_def split: option.splits)

lemma check_snapshot_rows_ok:
  "check_snapshot_rows data = Inr () \<longleftrightarrow>
     secret_keys_ok (map fst (sd_secrets data)) \<and> version_keys_ok (map fst (sd_versions data))"
  by (auto simp: check_snapshot_rows_def check_snapshot_names_ok [symmetric]
      check_snapshot_version_keys_ok [symmetric] split: sum.splits)

lemma vault_inv_keys:
  assumes "vault_inv cd d"
  shows "secret_keys_ok (map fst (SECRETS d))" "version_keys_ok (map fst (VERSIONS d))"
proof -
  note I = vault_invD [OF assms]
  have S: "is_valid_secret_name k" if "k \<in> fst ` set (SECRETS d)" for k
  proof -
    from that obtain b where "tget (SECRETS d) k = Some b"
      using tin_rows [OF db_wfD(1) [OF I(1)]] by force
    then show ?thesis by (rule secrets_inv_secret [OF I(2)]) (simp add: secret_row_ok_def)
  qed
  have V: "case split_version_key k of Some (n, v) \<Rightarrow> is_valid_secret_name n \<and> is_valid_secret_version v | None \<Rightarrow> False"
    if "k \<in> fst ` set (VERSIONS d)" for k
  proof -
    from that obtain c where c: "tget (VERSIONS d) k = Some c"
      using tin_rows [OF db_wfD(2) [OF I(1)]] by force
    obtain n and r :: VersionRecord and s :: SecretRecord where "k = version_key n (vr_version r)" "good_version n (vr_version r)"
      "secret_row_ok n s" "is_valid_secret_version (vr_version r)"
      by (rule secrets_inv_version [OF I(2) c])
    moreover from this(1,2) have "split_version_key k = Some (n, vr_version r)"
      by (simp add: split_version_key_iff good_version_def)
    ultimately show ?thesis by (simp add: secret_row_ok_def)
  qed
  show "secret_keys_ok (map fst (SECRETS d))" "version_keys_ok (map fst (VERSIONS d))"
    using S V by (auto simp: secret_keys_ok_def version_keys_ok_def list.pred_set)
qed

definition snapshot_of :: "'l LogId option \<Rightarrow> ('l, 'm) StoredMembership \<Rightarrow> 'b db \<Rightarrow> ('l, 'm, 'b) SnapshotData" where
  "snapshot_of applied membership d =
     \<lparr>sd_secrets = SECRETS d, sd_versions = VERSIONS d, sd_roles = ROLES d, sd_tokens = TOKENS d,
      sd_tokens_by_name = TOKENS_BY_NAME d, sd_kms_rewrap = KMS_REWRAP d,
      sd_last_applied = applied, sd_membership = membership\<rparr>"

lemma build_snapshot_eq:
  assumes "build_snapshot rc sl dflt r = (Inr (meta, bytes), r')"
  obtains applied membership where "read_applied rc r = Inr applied" "read_membership rc dflt r = Inr membership"
    "bytes = enc_snapshot rc (snapshot_of applied membership (rd_db r))"
    "sn_last_log_id meta = applied" "sn_last_membership meta = membership"
    "r' = write_meta (enc_blob rc) META_SNAPSHOT bytes r"
  using assms by (auto simp: build_snapshot_def snapshot_of_def snapshot_table_simps Let_def split: sum.splits)

lemma install_snapshot_tables:
  assumes "raft_codec_ok rc" "vault_inv cd d" "raft_wf t" "check_snapshot_meta meta = Inr ()"
  shows "\<exists>t'. install_snapshot rc meta (enc_snapshot rc (snapshot_of a m d)) t = (Inr (), t') \<and>
    rd_db t' = d\<lparr>LOCKOUTS := LOCKOUTS (rd_db t), AUDIT := AUDIT (rd_db t)\<rparr> \<and>
    LOG t' = (case sn_last_log_id meta of
                Some l \<Rightarrow> tremove_all (tkeys (trange (\<lambda>i. i \<le> li_index l) (LOG t))) (LOG t) | None \<Rightarrow> LOG t) \<and>
    tget (META t') META_APPLIED = map_option (enc_log_id rc) (sn_last_log_id meta) \<and>
    tget (META t') META_MEMBERSHIP = Some (enc_membership rc (sn_last_membership meta)) \<and> raft_wf t'"
proof -
  have dec: "dec_snapshot rc (enc_snapshot rc x) = Some x" for x
    using assms(1) by (simp add: raft_codec_ok_def enc_dec_def)
  have rows: "check_snapshot_rows (snapshot_of a m d) = Inr ()"
    using vault_inv_keys [OF assms(2)] by (simp add: check_snapshot_rows_ok snapshot_of_def)
  note wf = db_wfD [OF vault_invD(1) [OF assms(2)]] db_wfD [OF raft_wfD(1) [OF assms(3)]]
  note wt = raft_wfD(2,3) [OF assms(3)]
  have tables: "(rd_db t)\<lparr>SECRETS := SECRETS d, VERSIONS := VERSIONS d, ROLES := ROLES d,
      TOKENS_BY_NAME := TOKENS_BY_NAME d, KMS_REWRAP := KMS_REWRAP d, TOKENS := TOKENS d\<rparr> =
      d\<lparr>LOCKOUTS := LOCKOUTS (rd_db t), AUDIT := AUDIT (rd_db t)\<rparr>"
    by (cases "rd_db t", cases d) simp
  have "db_wf (d\<lparr>LOCKOUTS := LOCKOUTS (rd_db t), AUDIT := AUDIT (rd_db t)\<rparr>)"
    using wf by (simp add: db_wf_def)
  then show ?thesis
    using wt wf rows assms(4)
    by (simp add: install_snapshot_def dec Let_def snapshot_table_simps tokens_refill raft_wf_def table_simps
        snapshot_of_def tables split: option.split)
qed

lemma read_applied_batch:
  assumes "raft_codec_ok rc" "twf (META x)"
  shows "read_applied rc (x\<lparr>rd_db := d, META := batch_meta rc l m (META x)\<rparr>) =
    (case l of Some i \<Rightarrow> Inr (Some i) | None \<Rightarrow> read_applied rc x)"
  using assms by (cases l)
    (simp_all add: read_applied_def read_meta_def tget_batch_meta enc_dec_def raft_codec_ok_def)

lemma read_applied_installed:
  assumes "raft_codec_ok rc" "tget (META t) META_APPLIED = map_option (enc_log_id rc) a"
  shows "read_applied rc t = Inr a"
  using assms by (cases a) (simp_all add: read_applied_def read_meta_def enc_dec_def raft_codec_ok_def)

text \<open>
  C9: a node that installs the snapshot another node has built and then applies the entries that follow it
  ends up like the other node: it gives the entries the same results, and its replicated
  tables and its last applied log id are the same. Its own lockouts and audit log survive.
\<close>

theorem snapshot_catch_up:
  assumes "raft_codec_ok rc" "raft_wf r" "vault_inv cd (rd_db r)" "raft_wf t"
    and "build_snapshot rc sl dflt r = (Inr (meta, bytes), r1)" "check_snapshot_meta meta = Inr ()"
    and "replicated_entries es" "sm_apply cd rc n es r1 = (Inr rs, r2)"
  shows "\<exists>t1 t2. install_snapshot rc meta bytes t = (Inr (), t1) \<and> sm_apply cd rc k es t1 = (Inr rs, t2) \<and>
    shared (rd_db t2) = shared (rd_db r2) \<and> read_applied rc t2 = read_applied rc r2 \<and>
    LOCKOUTS (rd_db t1) = LOCKOUTS (rd_db t) \<and> AUDIT (rd_db t1) = AUDIT (rd_db t)"
proof -
  obtain a m where a: "read_applied rc r = Inr a" and bytes: "bytes = enc_snapshot rc (snapshot_of a m (rd_db r))"
    and meta: "sn_last_log_id meta = a" and r1: "r1 = write_meta (enc_blob rc) META_SNAPSHOT bytes r"
    by (rule build_snapshot_eq [OF assms(5)])
  obtain t1 where t1: "install_snapshot rc meta bytes t = (Inr (), t1)"
    "rd_db t1 = (rd_db r)\<lparr>LOCKOUTS := LOCKOUTS (rd_db t), AUDIT := AUDIT (rd_db t)\<rparr>"
    "tget (META t1) META_APPLIED = map_option (enc_log_id rc) a" "raft_wf t1"
    using install_snapshot_tables [OF assms(1,3,4,6), of a m] bytes meta by auto
  have ta: "read_applied rc t1 = Inr a" by (rule read_applied_installed [OF assms(1) t1(3)])
  have ra: "read_applied rc r1 = Inr a" and db1: "rd_db r1 = rd_db r" and wf1: "twf (META r1)"
    using a raft_wfD(3) [OF assms(2)]
    by (auto simp: r1 write_meta_def read_applied_def table_simps cong: read_meta_cong)
  obtain l m' d2 where ap: "apply_entries cd n es ([], None, None, rd_db r1) = Inr (rs, l, m', d2)"
    and r2: "r2 = r1\<lparr>rd_db := d2, META := batch_meta rc l m' (META r1)\<rparr>"
    using assms(8) by (auto simp: sm_apply_eq split: sum.splits prod.splits)
  have "shared (rd_db r1) = shared (rd_db t1)" by (simp add: db1 t1(2) shared_def)
  from apply_entries_shared [OF assms(7) this, of cd n "[]" None None k]
  obtain e2 where e2: "apply_entries cd k es ([], None, None, rd_db t1) = Inr (rs, l, m', e2)" "shared d2 = shared e2"
    by (auto simp: ap)
  note applied = read_applied_batch [OF assms(1)]
  show ?thesis
    using t1 e2 ta ra applied [OF wf1] applied [OF raft_wfD(3) [OF t1(4)]]
    by (intro exI [of _ t1] exI [of _ "t1\<lparr>rd_db := e2, META := batch_meta rc l m' (META t1)\<rparr>"])
       (auto simp: sm_apply_eq r2 split: option.split)
qed

theorem snapshot_catch_up_witness:
  "\<exists>meta bytes r1 t1 t2. build_snapshot jval_codec show_nat no_members (empty_raft\<lparr>rd_db := one_secret_db\<rparr>) =
       (Inr (meta, bytes), r1) \<and>
     install_snapshot jval_codec meta bytes empty_raft = (Inr (), t1) \<and>
     sm_apply row_codec jval_codec 2 [entry_at 0 Blank] t1 = (Inr [Ok], t2) \<and>
     SECRETS (rd_db t2) = SECRETS one_secret_db"
proof -
  let ?r = "empty_raft\<lparr>rd_db := one_secret_db\<rparr>"
  let ?b = "build_snapshot jval_codec show_nat no_members ?r"
  have wf: "raft_wf ?r" by (simp add: raft_wf_def one_secret_db_wf empty_raft_def)
  have inv: "vault_inv row_codec (rd_db ?r)" by (simp add: one_secret_db_inv)
  obtain meta bytes r1 where b: "?b = (Inr (meta, bytes), r1)" and ok: "check_snapshot_meta meta = Inr ()"
    and r1: "rd_db r1 = one_secret_db"
    by (simp add: build_snapshot_def read_applied_def read_membership_def read_meta_def empty_raft_def Let_def
        check_snapshot_meta_def write_meta_def)
  have e: "replicated_entries [entry_at 0 Blank]" by (simp add: replicated_entries_def entry_at_def)
  obtain r2 where s: "sm_apply row_codec jval_codec 1 [entry_at 0 Blank] r1 = (Inr [Ok], r2)"
    "rd_db r2 = one_secret_db"
    by (simp add: sm_apply_eq entry_at_def r1)
  show ?thesis
    using snapshot_catch_up [OF jval_codec_ok wf inv empty_raft_wf b ok e s(1), of 2] b s(2)
    by (auto simp: shared_eq_iff)
qed

text \<open>
  C37: the snapshot that is kept for nodes that join later is paired with the metadata of the moment it is asked
  for, not of the moment it was built. After a snapshot was built and further entries were
  applied, a node that installs the kept snapshot records the last of those entries as
  applied, and its replicated tables are those from before them.
\<close>

theorem kept_snapshot_claims_later_entries:
  assumes "raft_codec_ok rc" "raft_wf r" "vault_inv cd (rd_db r)" "raft_wf t"
    and "build_snapshot rc sl dflt r = (Inr (meta0, bytes), r1)"
    and "sm_apply cd rc n es r1 = (Inr rs, r2)" "es \<noteq> []"
    and "get_current_snapshot rc sl dflt r2 = Inr (Some (meta, kept))" "check_snapshot_meta meta = Inr ()"
  shows "kept = bytes \<and> sn_last_log_id meta = Some (en_log_id (last es)) \<and>
    (\<exists>t'. install_snapshot rc meta kept t = (Inr (), t') \<and> shared (rd_db t') = shared (rd_db r) \<and>
       read_applied rc t' = Inr (Some (en_log_id (last es))))"
proof -
  obtain a m where bytes: "bytes = enc_snapshot rc (snapshot_of a m (rd_db r))"
    and r1: "r1 = write_meta (enc_blob rc) META_SNAPSHOT bytes r"
    by (rule build_snapshot_eq [OF assms(5)])
  obtain l m' d2 where ap: "apply_entries cd n es ([], None, None, rd_db r1) = Inr (rs, l, m', d2)"
    and r2: "r2 = r1\<lparr>rd_db := d2, META := batch_meta rc l m' (META r1)\<rparr>"
    using assms(6) by (auto simp: sm_apply_eq split: sum.splits prod.splits)
  have l: "l = Some (en_log_id (last es))" by (rule apply_entries_last [OF ap assms(7)])
  have wf1: "twf (META r1)" using raft_wfD(3) [OF assms(2)] by (simp add: r1 write_meta_def table_simps)
  have "enc_dec (rc_raw rc) (enc_blob rc) (dec_blob rc)" using assms(1) by (simp add: raft_codec_ok_def)
  then have blob: "read_meta (rc_raw rc) (dec_blob rc) META_SNAPSHOT (META r2) = Inr (Some bytes)"
    by (rule read_meta_written) (use wf1 raft_wfD(3) [OF assms(2)] in
        \<open>simp add: r2 tget_batch_meta\<close>, simp add: r1 write_meta_def table_simps)
  have "read_applied rc r2 = Inr l"
    using read_applied_batch [OF assms(1) wf1] l by (simp add: r2)
  with blob assms(8) have k: "kept = bytes" "sn_last_log_id meta = l"
    by (auto simp: get_current_snapshot_def split: sum.splits)
  obtain t' where t': "install_snapshot rc meta bytes t = (Inr (), t')"
    "rd_db t' = (rd_db r)\<lparr>LOCKOUTS := LOCKOUTS (rd_db t), AUDIT := AUDIT (rd_db t)\<rparr>"
    "tget (META t') META_APPLIED = map_option (enc_log_id rc) l"
    using install_snapshot_tables [OF assms(1,3,4,9), of a m] bytes k by auto
  with read_applied_installed [OF assms(1) t'(3)] k l show ?thesis by (auto simp: shared_def)
qed

theorem kept_snapshot_claims_later_entries_witness:
  "let r1 = snd (build_snapshot jval_codec show_nat no_members empty_raft);
       r2 = snd (sm_apply row_codec jval_codec 1 [entry_at 4 (Normal (AddToken sample_token))] r1)
   in \<exists>meta kept t'. get_current_snapshot jval_codec show_nat no_members r2 = Inr (Some (meta, kept)) \<and>
        install_snapshot jval_codec meta kept empty_raft = (Inr (), t') \<and>
        read_applied jval_codec t' = Inr (Some (log_id_at 4)) \<and> TOKENS (rd_db t') = [] \<and> TOKENS (rd_db r2) \<noteq> []"
proof -
  let ?es = "[entry_at 4 (Normal (AddToken sample_token))]"
  let ?snap = "JSnapshot (snapshot_of None no_members empty_db)"
  let ?r1 = "empty_raft\<lparr>META := [(META_SNAPSHOT, JBlob ?snap)]\<rparr>"
  let ?meta0 = "\<lparr>sn_last_log_id = None, sn_last_membership = no_members, sn_snapshot_id = ''empty''\<rparr>"
  have b: "build_snapshot jval_codec show_nat no_members empty_raft = (Inr (?meta0, ?snap), ?r1)"
    by (simp add: build_snapshot_def read_applied_def read_membership_def read_meta_def empty_raft_def Let_def
        write_meta_def snapshot_id_of_def jval_codec_def snapshot_of_def snapshot_table_simps empty_db_def)
  let ?d2 = "empty_db\<lparr>TOKENS_BY_NAME := [(''ci'', [1, 2])], TOKENS := [([1, 2], RowToken sample_token)]\<rparr>"
  let ?r2 = "\<lparr>rd_db = ?d2, LOG = [], META = [(META_APPLIED, JLogId (log_id_at 4)), (META_SNAPSHOT, JBlob ?snap)]\<rparr>"
  have s: "sm_apply row_codec jval_codec 1 ?es ?r1 = (Inr [Ok], ?r2)"
    by (simp add: sm_apply_eq entry_at_def empty_raft_def apply_add_token_def empty_db_def sample_token_def
        batch_meta_def jval_codec_def Let_def META_APPLIED_def META_SNAPSHOT_def less_char_def)
  let ?meta = "\<lparr>sn_last_log_id = Some (log_id_at 4), sn_last_membership = no_members,
    sn_snapshot_id = snapshot_id_of show_nat (Some (log_id_at 4))\<rparr>"
  have g: "get_current_snapshot jval_codec show_nat no_members ?r2 = Inr (Some (?meta, ?snap))"
    by (simp add: get_current_snapshot_def read_applied_def read_membership_def read_meta_def tget_def
        jval_codec_def is_json_null_def trim_ascii_def as_bytes_def)
  have ok: "check_snapshot_meta ?meta = Inr ()"
    by (simp add: check_snapshot_meta_def log_id_at_def MAX_PLAUSIBLE_LOG_INDEX_def)
  have inv: "vault_inv row_codec (rd_db empty_raft)" by (simp add: empty_raft_def vault_inv_empty)
  obtain t' where "install_snapshot jval_codec ?meta ?snap empty_raft = (Inr (), t')"
    "read_applied jval_codec t' = Inr (Some (log_id_at 4))" "TOKENS (rd_db t') = []"
    using kept_snapshot_claims_later_entries [OF jval_codec_ok empty_raft_wf inv empty_raft_wf b s _ g ok]
    by (auto simp: entry_at_def shared_eq_iff empty_raft_def empty_db_def)
  then show ?thesis using g by (auto simp: Let_def b s)
qed

end
