(* ===== verification/Raft_Founding.thy ===== *)
theory Raft_Founding
  imports Raft_Node Raft_Snapshots Store_Access
begin

text \<open>
  Founding and rejoining a cluster: which node initialises one and when, and when a node throws its
  own raft state away.
\<close>

section \<open>Rounds of discovery\<close>

text \<open>The answers of a round in which every peer is asked.\<close>

fun probe_all ::
  "('l, 'p, 'b, 'r, 'q) node_ops \<Rightarrow> PeerAuth \<Rightarrow> (u64 \<times> string) list \<Rightarrow> 'q \<Rightarrow> bool option list \<times> 'q" where
  "probe_all ops auth [] q = ([], q)"
| "probe_all ops auth ((_, addr) # rest) q =
     (case probe_peer_initialized ops auth addr q of
        (answer, q1) \<Rightarrow> (case probe_all ops auth rest q1 of (answers, q2) \<Rightarrow> (answer # answers, q2)))"

lemma probe_round_all:
  "probe_all ops auth others q = (answers, q') \<Longrightarrow>
     (if Some True \<in> set answers then fst (probe_round ops auth others reached q) = Some True
      else probe_round ops auth others reached q =
        (if reached \<or> Some False \<in> set answers then Some False else None, q'))"
proof (induction others arbitrary: reached q answers)
  case (Cons peer rest)
  obtain i addr where peer: "peer = (i, addr)" by force
  obtain answer q1 where p: "probe_peer_initialized ops auth addr q = (answer, q1)" by force
  obtain answers1 where r: "probe_all ops auth rest q1 = (answers1, q')" "answers = answer # answers1"
    using Cons.prems p peer by (auto split: prod.splits)
  show ?case
    using Cons.IH [OF r(1)] p r(2) peer by (auto split: option.split bool.split if_splits)
qed simp

text \<open>The state in which round \<open>k\<close> begins when all rounds before it were silent.\<close>

primrec round_state ::
  "('l, 'p, 'b, 'r, 'q) node_ops \<Rightarrow> PeerAuth \<Rightarrow> (u64 \<times> string) list \<Rightarrow> nat \<Rightarrow> 'q \<Rightarrow> 'q" where
  "round_state ops auth others 0 q = q"
| "round_state ops auth others (Suc k) q =
     round_state ops auth others k (no_idle ops (snd (probe_all ops auth others q)))"

definition round_answers ::
  "('l, 'p, 'b, 'r, 'q) node_ops \<Rightarrow> PeerAuth \<Rightarrow> (u64 \<times> string) list \<Rightarrow> nat \<Rightarrow> 'q \<Rightarrow> bool option set" where
  "round_answers ops auth others k q = set (fst (probe_all ops auth others (round_state ops auth others k q)))"

text \<open>The first round with an answer has no peer that reports a cluster.\<close>

definition cluster_absent ::
  "('l, 'p, 'b, 'r, 'q) node_ops \<Rightarrow> PeerAuth \<Rightarrow> (u64 \<times> string) list \<Rightarrow> nat \<Rightarrow> 'q \<Rightarrow> bool" where
  "cluster_absent ops auth others k q \<longleftrightarrow>
     (\<forall>j < k. round_answers ops auth others j q \<subseteq> {None}) \<and>
     Some False \<in> round_answers ops auth others k q \<and> Some True \<notin> round_answers ops auth others k q"

lemma round_answers_Suc:
  "round_answers ops auth others (Suc k) q =
   round_answers ops auth others k (no_idle ops (snd (probe_all ops auth others q)))"
  by (simp add: round_answers_def)

lemma cluster_absent_Suc:
  "cluster_absent ops auth others (Suc k) q \<longleftrightarrow>
     round_answers ops auth others 0 q \<subseteq> {None} \<and>
     cluster_absent ops auth others k (no_idle ops (snd (probe_all ops auth others q)))"
  by (auto simp: cluster_absent_def round_answers_Suc All_less_Suc2)

lemma silent_iff: "A \<subseteq> {None} \<longleftrightarrow> Some True \<notin> A \<and> Some False \<notin> A" for A :: "bool option set"
  by (auto simp: subset_iff) (metis (full_types) option.exhaust)

lemma discover_absent:
  "discover ops auth others n q = (False, q') \<longleftrightarrow>
     (\<exists>k < n. cluster_absent ops auth others k q \<and> q' = snd (probe_all ops auth others (round_state ops auth others k q)))"
proof (induction n arbitrary: q)
  case (Suc n)
  obtain answers q1 where p: "probe_all ops auth others q = (answers, q1)" by force
  let ?q = "no_idle ops q1" and ?goal = "\<lambda>q k. cluster_absent ops auth others k q \<and>
    q' = snd (probe_all ops auth others (round_state ops auth others k q))"
  have now: "round_answers ops auth others 0 q = set answers" by (simp add: round_answers_def p)
  have first: "cluster_absent ops auth others 0 q \<longleftrightarrow> Some False \<in> set answers \<and> Some True \<notin> set answers"
    by (simp add: cluster_absent_def now)
  have later: "?goal q (Suc k) \<longleftrightarrow> set answers \<subseteq> {None} \<and> ?goal ?q k" for k
    by (auto simp: cluster_absent_Suc now p)
  note r = probe_round_all [OF p, of False]
  have "discover ops auth others (Suc n) q = (False, q') \<longleftrightarrow>
      (Some False \<in> set answers \<and> Some True \<notin> set answers \<and> q' = q1) \<or>
      (set answers \<subseteq> {None} \<and> discover ops auth others n ?q = (False, q'))"
    using r unfolding silent_iff by (cases "probe_round ops auth others False q") (auto split: if_splits)
  also have "\<dots> \<longleftrightarrow> (\<exists>k < Suc n. ?goal q k)"
    unfolding Suc.IH Ex_less_Suc2 later by (auto simp: first p)
  finally show ?case .
qed simp

section \<open>Which node founds a cluster\<close>

definition lowest_peer :: "RaftNode \<Rightarrow> bool" where
  "lowest_peer node \<longleftrightarrow> (case nd_peers node of [] \<Rightarrow> True | (i, _) # _ \<Rightarrow> nd_node_id node = i)"

lemma bootstrap_cases:
  "bootstrap ops node q =
     (case ra_is_initialized (no_engine ops) q of
        None \<Rightarrow> (Inl InitializedCheckFailed, q)
      | Some True \<Rightarrow> (Inr Resumed, q)
      | Some False \<Rightarrow>
          (if \<not> lowest_peer node then (Inr NotBootstrapNode, q)
           else if fst (cluster_already_running ops node q)
           then (Inr ClusterDetected, snd (cluster_already_running ops node q))
           else (case ra_initialize (no_engine ops) (nd_peers node) (snd (cluster_already_running ops node q)) of
                   (ok, q'') \<Rightarrow> (Inr (if ok then Initialized else InitializeSkipped), q''))))"
  by (auto simp: bootstrap_def lowest_peer_def Let_def split: option.split bool.split list.split prod.splits)

lemma bootstrap_founds:
  "fst (bootstrap ops node q) \<in> {Inr Initialized, Inr InitializeSkipped} \<longleftrightarrow>
     ra_is_initialized (no_engine ops) q = Some False \<and> lowest_peer node \<and> \<not> fst (cluster_already_running ops node q)"
  unfolding bootstrap_cases by (auto split: option.split bool.split prod.split)

text \<open>
  C11: no split brain. A node founds a new cluster, that is, calls the engine's initialize, exactly
  when it has no raft state, has the lowest id of the configured peers, and either is the only one or,
  in the first of at most ten rounds that got an answer, heard no peer report a
  cluster. It then hands the engine the configured peers, in the state after that round. Two nodes
  with the same peers never both do so.
\<close>

theorem bootstrap_no_split_brain:
  "(fst (bootstrap ops node q) \<in> {Inr Initialized, Inr InitializeSkipped} \<longleftrightarrow>
     ra_is_initialized (no_engine ops) q = Some False \<and> lowest_peer node \<and>
     (other_peers node = [] \<or> (\<exists>k < 10. cluster_absent ops (nd_auth node) (other_peers node) k q \<and>
        snd (bootstrap ops node q) = snd (ra_initialize (no_engine ops) (nd_peers node)
          (snd (probe_all ops (nd_auth node) (other_peers node)
             (round_state ops (nd_auth node) (other_peers node) k q))))))) \<and>
   \<not> (fst (bootstrap ops node q) \<in> {Inr Initialized, Inr InitializeSkipped} \<and>
      fst (bootstrap ops' node' q') \<in> {Inr Initialized, Inr InitializeSkipped} \<and>
      nd_peers node = nd_peers node' \<and> nd_peers node \<noteq> [] \<and> nd_node_id node \<noteq> nd_node_id node')"
  (is "(?founds \<longleftrightarrow> ?when) \<and> _")
proof -
  let ?others = "other_peers node" and ?auth = "nd_auth node"
  have absent: "(\<exists>k < 10. cluster_absent ops ?auth ?others k q)" if "\<not> fst (cluster_already_running ops node q)" "?others \<noteq> []"
    using that discover_absent [of ops ?auth ?others 10 q "snd (discover ops ?auth ?others 10 q)"]
    by (auto simp: cluster_already_running_def) (metis prod.collapse)
  have state: "snd (bootstrap ops node q) = snd (ra_initialize (no_engine ops) (nd_peers node)
          (snd (probe_all ops ?auth ?others (round_state ops ?auth ?others k q))))"
    and run: "\<not> fst (cluster_already_running ops node q)"
    if "ra_is_initialized (no_engine ops) q = Some False" "lowest_peer node" "?others \<noteq> []" "k < 10"
      "cluster_absent ops ?auth ?others k q" for k
  proof -
    have "cluster_already_running ops node q = (False, snd (probe_all ops ?auth ?others (round_state ops ?auth ?others k q)))"
      using that discover_absent [of ops ?auth ?others 10 q] by (auto simp: cluster_already_running_def)
    with that show "snd (bootstrap ops node q) = snd (ra_initialize (no_engine ops) (nd_peers node)
          (snd (probe_all ops ?auth ?others (round_state ops ?auth ?others k q))))"
      "\<not> fst (cluster_already_running ops node q)"
      unfolding bootstrap_cases by (auto split: prod.split)
  qed
  have "?founds \<longleftrightarrow> ?when"
    using bootstrap_founds [of ops node q] absent state run by (cases "?others = []") (auto simp: cluster_already_running_def)
  moreover have "lowest_peer node \<Longrightarrow> lowest_peer node' \<Longrightarrow> nd_peers node = nd_peers node' \<Longrightarrow> nd_peers node \<noteq> [] \<Longrightarrow>
      nd_node_id node = nd_node_id node'"
    by (auto simp: lowest_peer_def split: list.splits)
  ultimately show ?thesis using bootstrap_founds [of ops node q] bootstrap_founds [of ops' node' q'] by metis
qed

section \<open>Discarding the local raft state\<close>

lemma probe_any_all:
  "probe_all ops auth others q = (answers, q') \<Longrightarrow> fst (probe_any ops auth others q) \<longleftrightarrow> Some True \<in> set answers"
proof (induction others arbitrary: q answers)
  case (Cons peer rest)
  obtain i addr where peer: "peer = (i, addr)" by force
  obtain answer q1 where p: "probe_peer_initialized ops auth addr q = (answer, q1)" by force
  obtain answers1 where r: "probe_all ops auth rest q1 = (answers1, q')" "answers = answer # answers1"
    using Cons.prems p peer by (auto split: prod.splits)
  show ?case using Cons.IH [OF r(1)] p r(2) peer by auto
qed simp

lemma may_rejoin_reported:
  "fst (may_rejoin ops auth peers node_id q) \<Longrightarrow>
     Some True \<in> set (fst (probe_all ops auth (filter (\<lambda>(i, _). i \<noteq> node_id) peers) q))"
  by (cases "probe_all ops auth (filter (\<lambda>(i, _). i \<noteq> node_id) peers) q")
    (auto simp: may_rejoin_def any_peer_initialized_def probe_any_all split: if_splits)

text \<open>
  C30: a node gives its raft state up only for a cluster to rejoin. As long as no peer reports a
  cluster, a start that cannot read the local log or cannot build the engine fails and
  leaves the state as normalisation and the engine left it; nothing is discarded.
\<close>

theorem start_keeps_raft_state:
  assumes "\<And>q. Some True \<notin> set (fst (probe_all ops auth (filter (\<lambda>(i, _). i \<noteq> node_id) peers) q))"
  shows "case node_start rc validate raft_new ops node_id peers auth (r, q) of (res, r', q') \<Rightarrow>
    (res, r') =
      (if \<not> validate node_raft_config then (Inl RaftConfigInvalid, r)
       else (case normalize_raft_log rc r of
               (Inl err, r1) \<Rightarrow> (Inl (NormalizeFailed err), r1)
             | (Inr _, r1) \<Rightarrow>
                 (case raft_new node_id node_raft_config auth r1 of
                    (ok, r2) \<Rightarrow>
                      (if ok then Inr \<lparr>nd_peers = peers, nd_node_id = node_id, nd_auth = auth\<rparr> else Inl RaftNewFailed, r2))))"
proof -
  have no: "\<exists>q'. may_rejoin ops auth peers node_id q = (False, q')" for q
    using may_rejoin_reported [of ops auth peers node_id q] assms by (cases "may_rejoin ops auth peers node_id q") auto
  obtain res1 r1 where n: "normalize_raft_log rc r = (res1, r1)" by force
  obtain ok r2 where b: "raft_new node_id node_raft_config auth r1 = (ok, r2)" by force
  obtain q1 where q1: "may_rejoin ops auth peers node_id q = (False, q1)" using no by blast
  show ?thesis
    by (cases res1) (simp_all add: node_start_def Let_def n b q1 build_raft_def)
qed

section \<open>Rejoining by the log\<close>

text \<open>
  Discarding the raft state keeps the tables of the vault. A leader that still has the whole log
  sends it again from its beginning, and the entries meet tables that already hold their effects.
\<close>

definition role_history :: "'l LogId \<Rightarrow> RoleRecord \<Rightarrow> (string \<times> string) list \<Rightarrow> TokenRecord \<Rightarrow> ('l, 'm, 'b) Entry list" where
  "role_history log_id role perms token =
     map (\<lambda>c. \<lparr>en_log_id = log_id, en_payload = Normal c\<rparr>)
       [CreateRole role, SetPermissions (rr_name role) perms, DeleteRole (rr_name role), CreateRole role, AddToken token]"

lemma role_history_first:
  assumes cd: "codec_ok cd" and wf: "db_wf d" and new: "tget (ROLES d) (rr_name role) = None"
    "tget (TOKENS d) (tr_fingerprint token) = None" "tget (TOKENS_BY_NAME d) (tr_name token) = None"
    and unused: "check_role_unused cd (rr_name role) (TOKENS d) = Inr ()"
  shows "\<exists>d1. apply_entries cd n (role_history log_id role perms token) ([], None, None, d) =
      Inr ([Ok, Ok, Ok, Ok, Ok], Some log_id, None, d1) \<and>
    ROLES d1 = tinsert (rr_name role) (enc_role cd role) (ROLES d) \<and>
    TOKENS d1 = tinsert (tr_fingerprint token) (enc_token cd token) (TOKENS d) \<and>
    TOKENS_BY_NAME d1 = tinsert (tr_name token) (tr_fingerprint token) (TOKENS_BY_NAME d)"
proof -
  note T = db_wfD [OF wf] and E = codec_okD [OF cd]
  have undo: "tinsert (rr_name role) x (tremove (rr_name role) (tinsert (rr_name role) y (tinsert (rr_name role) z (ROLES d)))) =
      tinsert (rr_name role) x (ROLES d)" for x y z
    using T(3) by (intro ttable_eqI) (auto simp: table_simps)
  show ?thesis
    using new unused T
    by (simp add: role_history_def apply_create_role_def apply_set_permissions_def apply_delete_role_def
        apply_add_token_def Let_def table_simps E undo)
qed

lemma apply_entries_wf:
  "apply_entries cd n es (rs, l, m, d) = Inr (rs', l', m', d') \<Longrightarrow> db_wf d \<Longrightarrow> db_wf d'"
proof (induction es arbitrary: rs l m d)
  case (Cons e es)
  have step: "db_wf d1" if "apply_command cd n c d = (res, d1)" for c res d1
    using apply_command_wf [OF Cons.prems(2), of cd n c] that by simp
  show ?case
    using Cons by (cases "en_payload e")
      (auto simp: Let_def split: prod.splits sum.splits StoreError.splits dest!: step)
qed simp

lemma check_role_unused_decodes:
  "check_role_unused cd name rows = Inr () \<Longrightarrow> list_all (\<lambda>row. dec_token cd (snd row) \<noteq> None) rows"
  by (induction cd name rows rule: check_role_unused.induct) (auto split: option.splits if_splits)

lemma role_history_again:
  assumes cd: "codec_ok cd" and wf: "db_wf d" and "tget (ROLES d) (rr_name role) = Some (enc_role cd role)"
    "tget (TOKENS d) (tr_fingerprint token) = Some (enc_token cd token)" "tr_role token = Some (rr_name role)"
    and dec: "list_all (\<lambda>row. dec_token cd (snd row) \<noteq> None) (TOKENS d)"
  shows "\<exists>rs d2. apply_entries cd n (role_history log_id role perms token) ([], None, None, d) = Inr (rs, Some log_id, None, d2) \<and>
    ROLES d2 = tinsert (rr_name role) (enc_role cd (role\<lparr>rr_permissions := perms\<rparr>)) (ROLES d)"
proof -
  note T = db_wfD [OF wf] and E = codec_okD [OF cd]
  have "(tr_fingerprint token, enc_token cd token) \<in> set (TOKENS d)"
    using assms(4) tin_rows [OF T(4)] by simp
  then have "check_role_unused cd (rr_name role) (TOKENS d) = Inl (Conflict (RoleStillHasTokens (rr_name role)))"
    using check_role_unused_iff [OF dec] assms(5) E by metis
  then show ?thesis
    using assms(3-5) T
    by (simp add: role_history_def apply_create_role_def apply_set_permissions_def apply_delete_role_def
        apply_add_token_def Let_def table_simps E)
qed

text \<open>
  C31: replaying the log over the kept tables can change permissions. A role is created, given
  permissions, deleted, created again as it first was, and bound to a token. A node that
  applied this, discarded its raft state and is sent the same entries again refuses the
  deletion, because the token is already there, and keeps the permissions of the first role,
  which no other node has.
\<close>

theorem reset_replay_diverges:
  fixes rc :: "('l, 'm, 'b, 'x) raft_codec"
  assumes "codec_ok cd" "db_wf (rd_db r)" "tget (ROLES (rd_db r)) (rr_name role) = None"
    "tget (TOKENS (rd_db r)) (tr_fingerprint token) = None" "tget (TOKENS_BY_NAME (rd_db r)) (tr_name token) = None"
    "check_role_unused cd (rr_name role) (TOKENS (rd_db r)) = Inr ()" "tr_role token = Some (rr_name role)"
  shows "\<exists>rs r1 rs' r2. sm_apply cd rc n (role_history log_id role perms token) r = (Inr rs, r1) \<and>
    sm_apply cd rc n (role_history log_id role perms token) (reset_raft_state r1) = (Inr rs', r2) \<and>
    reader_role cd (rr_name role) (rd_db r1) = Inr (Some role) \<and>
    reader_role cd (rr_name role) (rd_db r2) = Inr (Some (role\<lparr>rr_permissions := perms\<rparr>))"
proof -
  note T = db_wfD [OF assms(2)] and E = codec_okD [OF assms(1)]
  let ?es = "role_history log_id role perms token :: ('l, 'm, 'b) Entry list"
  obtain d1 where d1: "apply_entries cd n ?es ([], None, None, rd_db r) = Inr ([Ok, Ok, Ok, Ok, Ok], Some log_id, None, d1)"
    "ROLES d1 = tinsert (rr_name role) (enc_role cd role) (ROLES (rd_db r))"
    "TOKENS d1 = tinsert (tr_fingerprint token) (enc_token cd token) (TOKENS (rd_db r))"
    using role_history_first [OF assms(1-6)] by blast
  have wf1: "db_wf d1"
    using apply_entries_wf [OF d1(1)] assms(2) by simp
  have dec: "list_all (\<lambda>row. dec_token cd (snd row) \<noteq> None) (TOKENS d1)"
    using check_role_unused_decodes [OF assms(6)] unfolding d1(3) by (intro list_all_tinsert) (simp_all add: E)
  obtain rs' d2 where d2: "apply_entries cd n ?es ([], None, None, d1) = Inr (rs', Some log_id, None, d2)"
    "ROLES d2 = tinsert (rr_name role) (enc_role cd (role\<lparr>rr_permissions := perms\<rparr>)) (ROLES d1)"
    using role_history_again [OF assms(1) wf1 _ _ assms(7) dec, of n log_id perms] T by (auto simp: d1 table_simps)
  have run: "\<exists>t'. sm_apply cd rc n ?es t = (Inr rs, t') \<and> rd_db t' = d"
    if "apply_entries cd n ?es ([], None, None, rd_db t) = Inr (rs, l, m, d)" for t rs l m d
    using that by (simp add: sm_apply_eq)
  obtain r1 where r1: "sm_apply cd rc n ?es r = (Inr [Ok, Ok, Ok, Ok, Ok], r1)" "rd_db r1 = d1"
    using run [OF d1(1)] by blast
  have "rd_db (reset_raft_state r1) = d1" by (simp add: reset_raft_state_def r1)
  then obtain r2 where r2: "sm_apply cd rc n ?es (reset_raft_state r1) = (Inr rs', r2)" "rd_db r2 = d2"
    using run [of "reset_raft_state r1"] d2(1) by metis
  have "reader_role cd (rr_name role) (rd_db r1) = Inr (Some role)"
    "reader_role cd (rr_name role) (rd_db r2) = Inr (Some (role\<lparr>rr_permissions := perms\<rparr>))"
    using T d1(2) d2(2) by (simp_all add: r1 r2 reader_role_def decode_opt_def table_simps E)
  with r1 r2 show ?thesis by blast
qed

theorem reset_replay_diverges_witness:
  "\<exists>rs r1 rs' r2.
     sm_apply row_codec jval_codec 1 (role_history (log_id_at 7) sample_role [(''read'', ''*'')] sample_token) empty_raft = (Inr rs, r1) \<and>
     sm_apply row_codec jval_codec 1 (role_history (log_id_at 7) sample_role [(''read'', ''*'')] sample_token) (reset_raft_state r1) = (Inr rs', r2) \<and>
     reader_role row_codec ''ops'' (rd_db r1) = Inr (Some sample_role) \<and>
     reader_role row_codec ''ops'' (rd_db r2) = Inr (Some (sample_role\<lparr>rr_permissions := [(''read'', ''*'')]\<rparr>))"
proof -
  have n: "rr_name sample_role = ''ops''" "tr_role sample_token = Some ''ops''"
    by (simp_all add: sample_role_def sample_token_def)
  have "db_wf (rd_db empty_raft)" "ROLES (rd_db empty_raft) = []" "TOKENS (rd_db empty_raft) = []"
    "TOKENS_BY_NAME (rd_db empty_raft) = []"
    using raft_wfD(1) [OF empty_raft_wf] by (simp_all add: empty_raft_def empty_db_def)
  then show ?thesis
    using reset_replay_diverges [OF row_codec_ok, of empty_raft sample_role sample_token jval_codec 1 "log_id_at 7" "[(''read'', ''*'')]"]
    by (simp add: n tget_def)
qed

end
