(* ===== verification/Raft_Port.thy ===== *)
theory Raft_Port
  imports Raft_Peers
begin

text \<open>
  What the port between the nodes lets through: which requests reach the consensus engine, with
  which messages, and what a refused request leaves unchanged.
\<close>

section \<open>Credentials\<close>

lemma strip_either:
  "(case strip_prefix p v of Some t \<Rightarrow> Some t | None \<Rightarrow> strip_prefix q v) = Some t \<longleftrightarrow>
     v = p @ t \<or> v = q @ t \<and> strip_prefix p v = None"
  by (cases "strip_prefix p v") (metis option.case option.distinct(1) option.inject strip_prefix_Some)+

lemma strip_bearer_Some: "strip_bearer v = Some t \<longleftrightarrow> v = ''Bearer '' @ t \<or> v = ''bearer '' @ t"
proof -
  have "strip_prefix ''Bearer '' (''bearer '' @ t) = None"
    by (simp add: strip_prefix_def starts_with_def)
  then show ?thesis unfolding strip_bearer_def strip_either by blast
qed

definition shows_credential :: "(bytes \<Rightarrow> bytes) \<Rightarrow> string \<Rightarrow> string option \<Rightarrow> bool" where
  "shows_credential sha256 token header \<longleftrightarrow>
     (\<exists>v. (header = Some (''Bearer '' @ v) \<or> header = Some (''bearer '' @ v)) \<and>
          sha256 (as_bytes (trim v)) = sha256 (as_bytes token))"

lemma peer_accepts_iff:
  assumes "peer_auth_new sha256 token required = Inr auth"
  shows "peer_accepts sha256 auth header \<longleftrightarrow>
    (case token of
       None \<Rightarrow> True
     | Some t \<Rightarrow> shows_credential sha256 t header \<or> (Option.bind header strip_bearer = None \<and> \<not> required))"
proof -
  have cred: "shows_credential sha256 t header \<longleftrightarrow>
      (\<exists>v. Option.bind header strip_bearer = Some v \<and> sha256 (as_bytes (trim v)) = sha256 (as_bytes t))" for t
    by (cases header) (auto simp: shows_credential_def strip_bearer_Some)
  show ?thesis
    using assms unfolding cred
    by (cases token; cases "Option.bind header strip_bearer")
      (auto simp: peer_auth_new_def peer_accepts_def auth_verify_def fingerprint_def split: if_splits)
qed

lemma own_header:
  assumes "peer_auth_new sha256 token required = Inr auth"
  shows "peer_accepts sha256 auth (pa_header auth) \<longleftrightarrow>
    (case token of None \<Rightarrow> True | Some t \<Rightarrow> sha256 (as_bytes (trim t)) = sha256 (as_bytes t))"
proof -
  have "pa_header auth = map_option (\<lambda>t. ''Bearer '' @ t) token"
    using assms by (auto simp: peer_auth_new_def split: if_splits)
  moreover have "strip_bearer (''Bearer '' @ t) = Some t" for t unfolding strip_bearer_Some by simp
  ultimately show ?thesis
    using assms
    by (auto simp: peer_auth_new_def peer_accepts_def auth_verify_def fingerprint_def split: if_splits option.split)
qed

section \<open>Addresses\<close>

text \<open>The addresses that one of the first \<open>n\<close> lookups returned for one of the hosts.\<close>

definition answered :: "resolver \<Rightarrow> string list \<Rightarrow> nat \<Rightarrow> IpAddr set" where
  "answered dns hosts n =
     {ip. \<exists>k host addrs. k < n \<and> host \<in> set hosts \<and> dns k host = Some addrs \<and> ip \<in> set addrs}"

lemma answered_mono: "n \<le> m \<Longrightarrow> set hosts \<subseteq> set hosts' \<Longrightarrow> answered dns hosts n \<subseteq> answered dns hosts' m"
  unfolding answered_def by (auto dest: less_le_trans)

lemma resolve_answered:
  "resolve dns n hosts out = (n', out') \<Longrightarrow> n \<le> n' \<and> out' \<subseteq> out \<union> answered dns hosts n'"
proof (induction hosts arbitrary: n out)
  case (Cons host hosts)
  let ?out = "case dns n host of Some addrs \<Rightarrow> out \<union> set addrs | None \<Rightarrow> out"
  from Cons.IH [of "Suc n" ?out] Cons.prems have ih: "Suc n \<le> n'" "out' \<subseteq> ?out \<union> answered dns hosts n'" by auto
  have "set addrs \<subseteq> answered dns (host # hosts) n'" if "dns n host = Some addrs" for addrs
    using that ih(1) unfolding answered_def by (auto intro!: exI [of _ n] exI [of _ host])
  then have "?out \<subseteq> out \<union> answered dns (host # hosts) n'" by (auto split: option.splits)
  with ih answered_mono [of n' n' hosts "host # hosts" dns] show ?case by auto
qed (simp add: answered_def)

definition addrs_ok :: "resolver \<Rightarrow> bool \<Rightarrow> (u64, string) table \<Rightarrow> 'q raft_server \<Rightarrow> bool" where
  "addrs_ok dns check peers s \<longleftrightarrow>
     pe_enabled (rv_peers s) = check \<and> pe_ids (rv_peers s) = map fst peers \<and> pe_hosts (rv_peers s) = map snd peers \<and>
     pe_resolved (rv_peers s) \<subseteq> answered dns (map snd peers) (rv_lookups s)"

lemma addrs_ok_new:
  assumes "peer_addrs_new dns n check peers = (n', addrs)"
  shows "addrs_ok dns check peers \<lparr>rv_engine = q, rv_peers = addrs, rv_lookups = n'\<rparr>"
  using assms resolve_answered [of dns n "map snd peers" "{}"]
  by (auto simp: peer_addrs_new_def addrs_ok_def Let_def split: prod.splits)

definition from_peer :: "resolver \<Rightarrow> bool \<Rightarrow> (u64, string) table \<Rightarrow> nat \<Rightarrow> IpAddr option \<Rightarrow> bool" where
  "from_peer dns check peers n source \<longleftrightarrow>
     (check \<longrightarrow> (\<exists>ip. source = Some ip \<and> ip \<in> answered dns (map snd peers) n))"

lemma from_peer_mono: "from_peer dns check peers n source \<Longrightarrow> n \<le> m \<Longrightarrow> from_peer dns check peers m source"
  using answered_mono [of n m "map snd peers" "map snd peers" dns] by (auto simp: from_peer_def)

lemma raft_guard_spec:
  assumes "addrs_ok dns check peers s" "raft_guard sha256 dns auth request s = (verdict, s')"
  shows "addrs_ok dns check peers s'" "rv_engine s' = rv_engine s" "rv_lookups s \<le> rv_lookups s'"
    "verdict = None \<Longrightarrow> from_peer dns check peers (rv_lookups s') (hr_source request) \<and>
       peer_accepts sha256 auth (hr_authorization request)"
  using assms resolve_answered [of dns "rv_lookups s" "map snd peers" "{}"]
  by (auto simp: raft_guard_def addrs_ok_def peer_allows_def from_peer_def split: if_splits option.splits prod.splits)

section \<open>Calls of the engine\<close>

datatype ('l, 'p, 'b) engine_call =
    AppendCall "('l, 'p) raft_rpc"
  | SnapshotCall "('l, 'p) raft_rpc"
  | VoteCall "('l, 'p) raft_rpc"
  | WriteCall "'b Command"

fun run_call :: "('l, 'p, 'b, 'r, 'q) raft_engine \<Rightarrow> ('l, 'p, 'b) engine_call \<Rightarrow> 'q \<Rightarrow> 'q" where
  "run_call eng (AppendCall rpc) q = snd (ra_append_entries eng rpc q)"
| "run_call eng (SnapshotCall rpc) q = snd (ra_install_snapshot eng rpc q)"
| "run_call eng (VoteCall rpc) q = snd (ra_vote eng rpc q)"
| "run_call eng (WriteCall command) q = snd (ra_client_write eng command q)"

text \<open>The call that the path and the body of a request stand for.\<close>

definition requested_call :: "('l, 'p, 'b) raft_json \<Rightarrow> http_request \<Rightarrow> ('l, 'p, 'b) engine_call \<Rightarrow> bool" where
  "requested_call js request call \<longleftrightarrow> hr_method request = ''POST'' \<and>
     (case call of
        AppendCall rpc \<Rightarrow> hr_path request = ''/raft/append'' \<and> js_append js RPC_BODY_LIMIT request = Inr rpc
      | SnapshotCall rpc \<Rightarrow> hr_path request = ''/raft/snapshot'' \<and> js_snapshot js RPC_BODY_LIMIT request = Inr rpc
      | VoteCall rpc \<Rightarrow> hr_path request = ''/raft/vote'' \<and> js_vote js RPC_BODY_LIMIT request = Inr rpc
      | WriteCall command \<Rightarrow> hr_path request = ''/raft/apply'' \<and> js_command js RPC_BODY_LIMIT request = Inr command)"

text \<open>Messages name a configured node as leader, and what only a leader sends has a committed vote.\<close>

definition call_allowed :: "('l \<Rightarrow> u64 option) \<Rightarrow> u64 list \<Rightarrow> ('l, 'p, 'b) engine_call \<Rightarrow> bool" where
  "call_allowed voted_for ids call =
     (let known = (\<lambda>rpc. case voted_for (vo_leader_id (rp_vote rpc)) of Some i \<Rightarrow> i \<in> set ids | None \<Rightarrow> True) in
      case call of
        AppendCall rpc \<Rightarrow> known rpc \<and> vo_committed (rp_vote rpc)
      | SnapshotCall rpc \<Rightarrow> known rpc \<and> vo_committed (rp_vote rpc)
      | VoteCall rpc \<Rightarrow> known rpc
      | WriteCall _ \<Rightarrow> True)"

lemma raft_route_calls:
  assumes "raft_route js eng request s = (resp, s')"
  shows "s' = s \<or> (\<exists>call. requested_call js request call \<and>
      call_allowed (ra_voted_for eng) (pe_ids (rv_peers s)) call \<and> s' = s\<lparr>rv_engine := run_call eng call (rv_engine s)\<rparr>)"
proof -
  have append: ?thesis if "raft_append eng rpc s = (resp, s')" "requested_call js request (AppendCall rpc)" for rpc
    using that by (auto simp: raft_append_def allows_leader_def call_allowed_def
        intro!: exI [of _ "AppendCall rpc"] split: if_splits prod.splits)
  have snapshot: ?thesis if "raft_snapshot eng rpc s = (resp, s')" "requested_call js request (SnapshotCall rpc)" for rpc
    using that by (auto simp: raft_snapshot_def allows_leader_def call_allowed_def
        intro!: exI [of _ "SnapshotCall rpc"] split: if_splits prod.splits)
  have vote: ?thesis if "raft_vote eng rpc s = (resp, s')" "requested_call js request (VoteCall rpc)" for rpc
    using that by (auto simp: raft_vote_def allows_leader_def call_allowed_def
        intro!: exI [of _ "VoteCall rpc"] split: if_splits prod.splits)
  have client: ?thesis if "raft_apply eng c s = (resp, s')" "requested_call js request (WriteCall c)" for c
    using that by (auto simp: raft_apply_def call_allowed_def
        intro!: exI [of _ "WriteCall c"] split: sum.splits prod.splits)
  show ?thesis
    using assms append snapshot vote client
    unfolding raft_route_def with_body_def requested_call_def raft_initialized_def Let_def
    by (simp split: if_splits sum.splits)
qed

fun raft_serve ::
  "(bytes \<Rightarrow> bytes) \<Rightarrow> resolver \<Rightarrow> ('l, 'p, 'b) raft_json \<Rightarrow> ('l, 'p, 'b, 'r, 'q) raft_engine \<Rightarrow> PeerAuth \<Rightarrow>
   http_request list \<Rightarrow> 'q raft_server \<Rightarrow> 'q raft_server" where
  "raft_serve sha256 dns js eng auth [] s = s"
| "raft_serve sha256 dns js eng auth (request # requests) s =
     raft_serve sha256 dns js eng auth requests (snd (raft_router sha256 dns js eng auth request s))"

definition engine_trace ::
  "(bytes \<Rightarrow> bytes) \<Rightarrow> resolver \<Rightarrow> ('l, 'p, 'b) raft_json \<Rightarrow> ('l \<Rightarrow> u64 option) \<Rightarrow> PeerAuth \<Rightarrow> bool \<Rightarrow>
   (u64, string) table \<Rightarrow> nat \<Rightarrow> (http_request \<times> ('l, 'p, 'b) engine_call) list \<Rightarrow> bool" where
  "engine_trace sha256 dns js voted_for auth check peers n calls =
     list_all (\<lambda>(request, call).
       requested_call js request call \<and> call_allowed voted_for (map fst peers) call \<and>
       peer_accepts sha256 auth (hr_authorization request) \<and> from_peer dns check peers n (hr_source request)) calls"

lemma raft_router_step:
  assumes "addrs_ok dns check peers s" "snd (raft_router sha256 dns js eng auth request s) = s'"
  shows "addrs_ok dns check peers s' \<and> rv_lookups s \<le> rv_lookups s' \<and>
    (rv_engine s' = rv_engine s \<or>
     (\<exists>call. engine_trace sha256 dns js (ra_voted_for eng) auth check peers (rv_lookups s') [(request, call)] \<and>
             rv_engine s' = run_call eng call (rv_engine s)))"
proof -
  obtain verdict s1 where g: "raft_guard sha256 dns auth request s = (verdict, s1)" by force
  note G = raft_guard_spec [OF assms(1) g]
  show ?thesis
  proof (cases verdict)
    case (Some status)
    then have "s' = s1" using assms(2) g by (simp add: raft_router_def)
    with G show ?thesis by simp
  next
    case None
    then obtain resp where r: "raft_route js eng request s1 = (resp, s')"
      using assms(2) g by (cases "raft_route js eng request s1") (simp add: raft_router_def)
    from raft_route_calls [OF r] show ?thesis
    proof
      assume "s' = s1" with G show ?thesis by simp
    next
      assume "\<exists>call. requested_call js request call \<and>
        call_allowed (ra_voted_for eng) (pe_ids (rv_peers s1)) call \<and> s' = s1\<lparr>rv_engine := run_call eng call (rv_engine s1)\<rparr>"
      then obtain call where c: "requested_call js request call" "call_allowed (ra_voted_for eng) (map fst peers) call"
        "s' = s1\<lparr>rv_engine := run_call eng call (rv_engine s)\<rparr>"
        using G(1,2) by (auto simp: addrs_ok_def)
      with G(1,3) G(4) [OF None] show ?thesis by (auto simp: engine_trace_def addrs_ok_def)
    qed
  qed
qed

lemma engine_trace_mono:
  "engine_trace sha256 dns js vf auth check peers n calls \<Longrightarrow> n \<le> m \<Longrightarrow>
   engine_trace sha256 dns js vf auth check peers m calls"
  unfolding engine_trace_def by (erule list.pred_mono_strong) (auto intro: from_peer_mono)

lemma raft_serve_calls:
  fixes js :: "('l, 'p, 'b) raft_json" and eng :: "('l, 'p, 'b, 'r, 'q) raft_engine"
  fixes sha256 auth requests
  assumes "addrs_ok dns check peers s"
  defines "s' \<equiv> raft_serve sha256 dns js eng auth requests s"
  shows "rv_lookups s \<le> rv_lookups s' \<and>
    (\<exists>calls. engine_trace sha256 dns js (ra_voted_for eng) auth check peers (rv_lookups s') calls \<and>
       subseq (map fst calls) requests \<and> rv_engine s' = fold (run_call eng) (map snd calls) (rv_engine s))"
  using assms(1) unfolding s'_def
proof (induction requests arbitrary: s)
  case Nil
  show ?case by (auto simp: engine_trace_def intro!: exI [of _ "[]"])
next
  case (Cons request requests)
  let ?s1 = "snd (raft_router sha256 dns js eng auth request s)"
  let ?s2 = "raft_serve sha256 dns js eng auth requests ?s1"
  note step = raft_router_step [OF Cons.prems refl, of sha256 js eng auth request]
  from Cons.IH [of ?s1] step obtain calls where n: "rv_lookups ?s1 \<le> rv_lookups ?s2"
    and c: "engine_trace sha256 dns js (ra_voted_for eng) auth check peers (rv_lookups ?s2) calls"
      "subseq (map fst calls) requests" "rv_engine ?s2 = fold (run_call eng) (map snd calls) (rv_engine ?s1)" by auto
  from step have "rv_engine ?s1 = rv_engine s \<or>
     (\<exists>call. engine_trace sha256 dns js (ra_voted_for eng) auth check peers (rv_lookups ?s1) [(request, call)] \<and>
             rv_engine ?s1 = run_call eng call (rv_engine s))" by blast
  then show ?case
  proof
    assume "rv_engine ?s1 = rv_engine s"
    with c n step show ?case by (auto intro!: exI [of _ calls])
  next
    assume "\<exists>call. engine_trace sha256 dns js (ra_voted_for eng) auth check peers (rv_lookups ?s1) [(request, call)] \<and>
             rv_engine ?s1 = run_call eng call (rv_engine s)"
    then obtain call where "engine_trace sha256 dns js (ra_voted_for eng) auth check peers (rv_lookups ?s2) [(request, call)]"
      "rv_engine ?s1 = run_call eng call (rv_engine s)" using engine_trace_mono n by blast
    with c n step show ?case by (auto simp: engine_trace_def intro!: exI [of _ "(request, call) # calls"])
  qed
qed

text \<open>
  C10: the port between the nodes. Whatever requests arrive, the consensus engine has executed
  exactly the calls of some of them, in their order. Each of these presented the
  cluster credential when one is required, came from an address that the configured peer hosts
  resolved to when addresses are checked, and asked for that very call; messages name a
  configured node as leader, and log entries and snapshots come with a committed vote, without
  which the engine would abort. All other requests leave the engine as it is.
\<close>

theorem raft_port_guarded:
  "case peer_auth_new sha256 token required of
     Inl _ \<Rightarrow> required \<and> token = None
   | Inr auth \<Rightarrow>
     (case peer_addrs_new dns 0 check peers of (n, addrs) \<Rightarrow>
      (let s = raft_serve sha256 dns js eng auth requests \<lparr>rv_engine = q, rv_peers = addrs, rv_lookups = n\<rparr> in
       \<exists>calls. rv_engine s = fold (run_call eng) (map snd calls) q \<and> subseq (map fst calls) requests \<and>
         list_all (\<lambda>(request, call).
           (if required then (\<exists>t. token = Some t \<and> shows_credential sha256 t (hr_authorization request)) else True) \<and>
           from_peer dns check peers (rv_lookups s) (hr_source request) \<and>
           requested_call js request call \<and> call_allowed (ra_voted_for eng) (map fst peers) call) calls))"
proof (cases "peer_auth_new sha256 token required")
  case (Inl e)
  then show ?thesis by (simp add: peer_auth_new_def split: if_splits)
next
  case (Inr auth)
  obtain n addrs where new: "peer_addrs_new dns 0 check peers = (n, addrs)" by force
  have accepts: "\<exists>t. token = Some t \<and> shows_credential sha256 t header" if "required" "peer_accepts sha256 auth header" for header
    using that peer_accepts_iff [OF Inr] Inr by (cases token) (auto simp: peer_auth_new_def)
  let ?s = "raft_serve sha256 dns js eng auth requests \<lparr>rv_engine = q, rv_peers = addrs, rv_lookups = n\<rparr>"
  from raft_serve_calls [OF addrs_ok_new [OF new], of q sha256 js eng auth requests]
  obtain calls where c: "engine_trace sha256 dns js (ra_voted_for eng) auth check peers (rv_lookups ?s) calls"
    "subseq (map fst calls) requests" "rv_engine ?s = fold (run_call eng) (map snd calls) q" by auto
  from c(1) have "list_all (\<lambda>(request, call).
           (if required then (\<exists>t. token = Some t \<and> shows_credential sha256 t (hr_authorization request)) else True) \<and>
           from_peer dns check peers (rv_lookups ?s) (hr_source request) \<and>
           requested_call js request call \<and> call_allowed (ra_voted_for eng) (map fst peers) call) calls"
    unfolding engine_trace_def by (rule list.pred_mono_strong) (use accepts in auto)
  with c(2,3) Inr new show ?thesis by (auto simp: Let_def)
qed

end
