(* ===== verification/Raft_Cluster.thy ===== *)
theory Raft_Cluster
  imports Raft_Founding Raft_Port
begin

text \<open>
  Nodes wired together: the HTTP client of one node reaches the raft port of another. The engines
  of all nodes act on one state \<open>'q\<close>; \<open>wi_up\<close> says which calls get through, by
  their number. Composed here are \<open>node.rs\<close>, \<open>server.rs\<close> and \<open>peer.rs\<close>: a write
  that a follower forwards, and the discovery of peers when a cluster is founded.
\<close>

section \<open>Wiring\<close>

record 'q net =
  nt_engine :: 'q
  nt_addrs :: "u64 \<Rightarrow> PeerAddrs"
  nt_lookups :: nat
  nt_calls :: nat

record ('l, 'p, 'b, 'r, 'q) wiring =
  wi_sha256 :: "bytes \<Rightarrow> bytes"
  wi_dns :: resolver
  wi_json :: "('l, 'p, 'b) raft_json"
  wi_engine :: "u64 \<Rightarrow> ('l, 'p, 'b, 'r, 'q) raft_engine"
  wi_auth :: "u64 \<Rightarrow> PeerAuth"
  wi_node_at :: "string \<Rightarrow> u64 option"
  wi_source :: "u64 \<Rightarrow> IpAddr"
  wi_up :: "nat \<Rightarrow> bool"
  wi_reply :: "'r raft_response \<Rightarrow> bytes"
  wi_enc_command :: "'b Command \<Rightarrow> bytes"
  wi_dec_result :: "bytes \<Rightarrow> ApplyResult option"
  wi_dec_bool :: "bytes \<Rightarrow> bool option"
  wi_store :: "u64 \<Rightarrow> 'q \<Rightarrow> 'b RedbStore"
  wi_set_store :: "u64 \<Rightarrow> 'b RedbStore \<Rightarrow> 'q \<Rightarrow> 'q"

definition split_url :: "string \<Rightarrow> (string \<times> string) option" where
  "split_url url =
     (case strip_prefix ''http://'' url of
        None \<Rightarrow> None
      | Some rest \<Rightarrow> map_option (\<lambda>(host, path). (host, CHR ''/'' # path)) (split_once (CHR ''/'') rest))"

definition cluster_http :: "('l, 'p, 'b, 'r, 'q) wiring \<Rightarrow> u64 \<Rightarrow> 'q net http_client" where
  "cluster_http w self call n =
     (let n1 = n\<lparr>nt_calls := Suc (nt_calls n)\<rparr> in
      if \<not> wi_up w (nt_calls n) then (None, n1)
      else (case split_url (hm_url call) of
              None \<Rightarrow> (None, n1)
            | Some (host, path) \<Rightarrow>
           (case wi_node_at w host of
              None \<Rightarrow> (None, n1)
            | Some target \<Rightarrow>
           (case raft_router (wi_sha256 w) (wi_dns w) (wi_json w) (wi_engine w target) (wi_auth w target)
                   \<lparr>hr_method = hm_method call, hr_path = path, hr_source = Some (wi_source w self),
                    hr_authorization = hm_authorization call, hr_body = hm_body call\<rparr>
                   \<lparr>rv_engine = nt_engine n1, rv_peers = nt_addrs n1 target, rv_lookups = nt_lookups n1\<rparr> of
              (resp, s) \<Rightarrow>
                (Some (raft_status resp, wi_reply w resp),
                 n1\<lparr>nt_engine := rv_engine s, nt_addrs := (nt_addrs n1)(target := rv_peers s),
                    nt_lookups := rv_lookups s\<rparr>)))))"

definition lift_step :: "('q \<Rightarrow> 'a \<times> 'q) \<Rightarrow> 'q net \<Rightarrow> 'a \<times> 'q net" where
  "lift_step f n = (case f (nt_engine n) of (a, q) \<Rightarrow> (a, n\<lparr>nt_engine := q\<rparr>))"

definition lift_engine :: "('l, 'p, 'b, 'r, 'q) raft_engine \<Rightarrow> ('l, 'p, 'b, 'r, 'q net) raft_engine" where
  "lift_engine eng =
     \<lparr>ra_voted_for = ra_voted_for eng,
      ra_append_entries = (\<lambda>rpc. lift_step (ra_append_entries eng rpc)),
      ra_install_snapshot = (\<lambda>rpc. lift_step (ra_install_snapshot eng rpc)),
      ra_vote = (\<lambda>rpc. lift_step (ra_vote eng rpc)),
      ra_client_write = (\<lambda>c. lift_step (ra_client_write eng c)),
      ra_is_initialized = (\<lambda>n. ra_is_initialized eng (nt_engine n)),
      ra_initialize = (\<lambda>peers. lift_step (ra_initialize eng peers))\<rparr>"

definition cluster_ops :: "('l, 'p, 'b, 'r, 'q) wiring \<Rightarrow> u64 \<Rightarrow> ('l, 'p, 'b, 'r, 'q net) node_ops" where
  "cluster_ops w self =
     \<lparr>no_engine = lift_engine (wi_engine w self), no_http = cluster_http w self, no_idle = (\<lambda>n. n),
      no_store = (\<lambda>n. wi_store w self (nt_engine n)),
      no_set_store = (\<lambda>st n. n\<lparr>nt_engine := wi_set_store w self st (nt_engine n)\<rparr>),
      no_enc_command = wi_enc_command w, no_dec_result = wi_dec_result w, no_dec_bool = wi_dec_bool w\<rparr>"

text \<open>What the nodes rely on for their messages: JSON reads back as it was written.\<close>

definition answers_readable :: "('l, 'p, 'b, 'r, 'q) wiring \<Rightarrow> bool" where
  "answers_readable w \<longleftrightarrow> (\<forall>v. wi_dec_bool w (wi_reply w (InitializedReply v)) = Some v)"

definition write_readable :: "('l, 'p, 'b, 'r, 'q) wiring \<Rightarrow> u64 \<Rightarrow> 'b Command \<Rightarrow> 'q \<Rightarrow> bool" where
  "write_readable w leader c q \<longleftrightarrow>
     (\<forall>limit request. hr_body request = wi_enc_command w c \<longrightarrow> length (hr_body request) \<le> limit \<longrightarrow>
        js_command (wi_json w) limit request = Inr c) \<and>
     (\<forall>r. fst (ra_client_write (wi_engine w leader) c q) = Inr r \<longrightarrow> wi_dec_result w (wi_reply w (ApplyReply r)) = Some r)"

section \<open>Reaching a peer\<close>

lemma split_once_host: "c \<notin> set host \<Longrightarrow> split_once c (host @ c # path) = Some (host, path)"
  by (induction host) auto

lemma split_url_host: "CHR ''/'' \<notin> set host \<Longrightarrow> split_url (''http://'' @ host @ CHR ''/'' # path) = Some (host, CHR ''/'' # path)"
proof -
  assume "CHR ''/'' \<notin> set host"
  moreover have "strip_prefix ''http://'' (''http://'' @ rest) = Some rest" for rest
    unfolding strip_prefix_Some by simp
  ultimately show ?thesis by (simp only: split_url_def option.case) (simp add: split_once_host)
qed

text \<open>The source address is known to the target, or is not checked there.\<close>

definition source_known :: "('l, 'p, 'b, 'r, 'q) wiring \<Rightarrow> u64 \<Rightarrow> u64 \<Rightarrow> 'q net \<Rightarrow> bool" where
  "source_known w self target n \<longleftrightarrow>
     (pe_enabled (nt_addrs n target) \<longrightarrow> wi_source w self \<in> pe_resolved (nt_addrs n target))"

lemma raft_guard_known:
  assumes "pe_enabled (rv_peers s) \<longrightarrow> (\<exists>ip. hr_source request = Some ip \<and> ip \<in> pe_resolved (rv_peers s))"
  shows "raft_guard sha256 dns auth request s =
    (if peer_accepts sha256 auth (hr_authorization request) then None else Some 401, s)"
  using assms by (auto simp: raft_guard_def peer_allows_def)

lemma cluster_http_known:
  assumes "wi_up w (nt_calls n)" "CHR ''/'' \<notin> set addr" "wi_node_at w addr = Some target" "source_known w self target n"
    and "hm_url call = ''http://'' @ addr @ CHR ''/'' # path"
  defines "request \<equiv> \<lparr>hr_method = hm_method call, hr_path = CHR ''/'' # path, hr_source = Some (wi_source w self),
      hr_authorization = hm_authorization call, hr_body = hm_body call\<rparr>"
    and "s \<equiv> \<lparr>rv_engine = nt_engine n, rv_peers = nt_addrs n target, rv_lookups = nt_lookups n\<rparr>"
  shows "cluster_http w self call n =
    (case (if peer_accepts (wi_sha256 w) (wi_auth w target) (hm_authorization call)
           then raft_route (wi_json w) (wi_engine w target) request s else (StatusOnly 401, s)) of
       (resp, s') \<Rightarrow>
         (Some (raft_status resp, wi_reply w resp),
          n\<lparr>nt_calls := Suc (nt_calls n), nt_engine := rv_engine s', nt_addrs := (nt_addrs n)(target := rv_peers s'),
            nt_lookups := rv_lookups s'\<rparr>))"
proof -
  have "raft_guard (wi_sha256 w) (wi_dns w) (wi_auth w target) request s =
      (if peer_accepts (wi_sha256 w) (wi_auth w target) (hm_authorization call) then None else Some 401, s)"
    using raft_guard_known [of s request] assms(4) by (simp add: request_def s_def source_known_def)
  moreover have "split_url (hm_url call) = Some (addr, CHR ''/'' # path)"
    unfolding assms(5) by (rule split_url_host) fact
  ultimately show ?thesis
    using assms(1,3) unfolding request_def s_def
    by (simp add: cluster_http_def Let_def raft_router_def)
qed

lemma same_token_accepted:
  assumes "peer_auth_new sha256 token req1 = Inr a1" "peer_auth_new sha256 token req2 = Inr a2"
    "\<And>t. token = Some t \<Longrightarrow> trim t = t"
  shows "peer_accepts sha256 a2 (pa_header a1)"
proof -
  have "pa_header a1 = pa_header a2"
    using assms(1,2) by (auto simp: peer_auth_new_def split: if_splits)
  then show ?thesis using own_header [OF assms(2)] assms(3) by (simp split: option.split)
qed

section \<open>Forwarding a write\<close>

text \<open>
  C13: a follower's write is the leader's. When the engine of a node names a leader, and the
  forwarded request gets through, the node answers with the outcome that the leader's engine
  gave the command, and nothing else happens to the cluster; if the leader could not commit it, or does not accept the node's
  credential, the answer is an internal error that tells the two apart by the HTTP status, and in the latter
  case the command reached no engine but its own.
\<close>

theorem forwarded_write:
  assumes "write_readable w leader command q"
    "ra_client_write (wi_engine w self) command (nt_engine n) = (Inl (ForwardToLeader (Some addr)), q)"
    "wi_up w (nt_calls n)" "CHR ''/'' \<notin> set addr" "wi_node_at w addr = Some leader" "source_known w self leader n"
    "length (wi_enc_command w command) \<le> RPC_BODY_LIMIT" "nd_auth node = wi_auth w self"
  shows "node_write (cluster_ops w self) node command n =
    (let n' = n\<lparr>nt_engine := q, nt_calls := Suc (nt_calls n)\<rparr> in
     if peer_accepts (wi_sha256 w) (wi_auth w leader) (pa_header (wi_auth w self))
     then (case ra_client_write (wi_engine w leader) command q of
             (Inr outcome, q') \<Rightarrow> (outcome_to_result outcome, n'\<lparr>nt_engine := q'\<rparr>)
           | (Inl _, q') \<Rightarrow> (Inl (Internal (LeaderRejected 503)), n'\<lparr>nt_engine := q'\<rparr>))
     else (Inl (Internal (LeaderRejected 401)), n'))"
proof -
  let ?n = "n\<lparr>nt_engine := q\<rparr>"
  let ?call = "\<lparr>hm_method = ''POST'', hm_url = ''http://'' @ addr @ ''/raft/apply'',
    hm_authorization = pa_header (wi_auth w self), hm_body = wi_enc_command w command\<rparr>"
  have known: "wi_up w (nt_calls ?n)" "source_known w self leader ?n"
    using assms(3,6) by (simp_all add: source_known_def)
  have url: "hm_url ?call = ''http://'' @ addr @ CHR ''/'' # ''raft/apply''" by simp
  have same: "(nt_addrs n)(leader := nt_addrs n leader) = nt_addrs n" by simp
  have J: "hr_body request = wi_enc_command w command \<Longrightarrow> length (hr_body request) \<le> limit \<Longrightarrow>
      js_command (wi_json w) limit request = Inr command"
    "fst (ra_client_write (wi_engine w leader) command q) = Inr r \<Longrightarrow> wi_dec_result w (wi_reply w (ApplyReply r)) = Some r"
    for request limit r
    using assms(1) by (simp_all add: write_readable_def)
  have c: "ra_client_write (no_engine (cluster_ops w self)) command n = (Inl (ForwardToLeader (Some addr)), ?n)"
    using assms(2) by (simp add: cluster_ops_def lift_engine_def lift_step_def)
  then have "node_write (cluster_ops w self) node command n = node_forward (cluster_ops w self) node addr command ?n"
    by (simp add: node_write_def)
  also have "\<dots> = (let n' = n\<lparr>nt_engine := q, nt_calls := Suc (nt_calls n)\<rparr> in
     if peer_accepts (wi_sha256 w) (wi_auth w leader) (pa_header (wi_auth w self))
     then (case ra_client_write (wi_engine w leader) command q of
             (Inr outcome, q') \<Rightarrow> (outcome_to_result outcome, n'\<lparr>nt_engine := q'\<rparr>)
           | (Inl _, q') \<Rightarrow> (Inl (Internal (LeaderRejected 503)), n'\<lparr>nt_engine := q'\<rparr>))
     else (Inl (Internal (LeaderRejected 401)), n'))"
    using cluster_http_known [OF known(1) assms(4,5) known(2) url] assms(7,8) J(1) [of _ RPC_BODY_LIMIT] J(2)
    by (cases "ra_client_write (wi_engine w leader) command q")
      (auto simp: node_forward_def cluster_ops_def raft_route_def with_body_def raft_apply_def raft_status_def
        is_success_def same Let_def split: sum.split)
  finally show ?thesis .
qed

section \<open>Founding a cluster over the network\<close>

text \<open>A peer that can be reached, accepts the credential and belongs to no cluster yet.\<close>

definition fresh_peer :: "('l, 'p, 'b, 'r, 'q) wiring \<Rightarrow> u64 \<Rightarrow> 'q net \<Rightarrow> u64 \<times> string \<Rightarrow> bool" where
  "fresh_peer w self n peer =
     (case peer of (i, addr) \<Rightarrow>
        CHR ''/'' \<notin> set addr \<and> wi_node_at w addr = Some i \<and> source_known w self i n \<and>
        peer_accepts (wi_sha256 w) (wi_auth w i) (pa_header (wi_auth w self)) \<and>
        ra_is_initialized (wi_engine w i) (nt_engine n) \<noteq> Some True)"

lemma fresh_peer_calls [simp]: "fresh_peer w self (n\<lparr>nt_calls := m\<rparr>) = fresh_peer w self n"
  by (simp add: fresh_peer_def source_known_def fun_eq_iff)

lemma cluster_probe:
  assumes "answers_readable w" "fresh_peer w self n (i, addr)"
  shows "probe_peer_initialized (cluster_ops w self) (wi_auth w self) addr n =
    (if wi_up w (nt_calls n) then Some False else None, n\<lparr>nt_calls := Suc (nt_calls n)\<rparr>)"
proof (cases "wi_up w (nt_calls n)")
  case True
  let ?call = "\<lparr>hm_method = ''GET'', hm_url = ''http://'' @ addr @ ''/raft/initialized'',
    hm_authorization = pa_header (wi_auth w self), hm_body = []\<rparr>"
  have url: "hm_url ?call = ''http://'' @ addr @ CHR ''/'' # ''raft/initialized''" by simp
  have same: "(nt_addrs n)(i := nt_addrs n i) = nt_addrs n" by simp
  have F: "CHR ''/'' \<notin> set addr" "wi_node_at w addr = Some i" "source_known w self i n"
    "peer_accepts (wi_sha256 w) (wi_auth w i) (pa_header (wi_auth w self))"
    "(case ra_is_initialized (wi_engine w i) (nt_engine n) of None \<Rightarrow> False | Some v \<Rightarrow> v) = False"
    using assms(2) by (auto simp: fresh_peer_def split: option.split)
  show ?thesis
    using cluster_http_known [OF True F(1-3) url] F(4,5) True assms(1) [unfolded answers_readable_def]
    by (simp add: probe_peer_initialized_def cluster_ops_def raft_route_def raft_initialized_def raft_status_def
        is_success_def same)
qed (simp add: probe_peer_initialized_def cluster_ops_def cluster_http_def Let_def)

lemma ex_less_add: "(\<exists>k < Suc m. P (a + k)) \<longleftrightarrow> P a \<or> (\<exists>k < m. P (Suc a + k))" for P :: "nat \<Rightarrow> bool"
  by (auto simp: Ex_less_Suc2)

lemma cluster_round:
  assumes "answers_readable w"
  shows "list_all (fresh_peer w self n) others \<Longrightarrow>
    probe_round (cluster_ops w self) (wi_auth w self) others reached n =
      (if reached \<or> (\<exists>k < length others. wi_up w (nt_calls n + k)) then Some False else None,
       n\<lparr>nt_calls := nt_calls n + length others\<rparr>)"
proof (induction others arbitrary: reached n)
  case (Cons peer others)
  obtain i addr where peer: "peer = (i, addr)" by force
  let ?n = "n\<lparr>nt_calls := Suc (nt_calls n)\<rparr>"
  have ih: "probe_round (cluster_ops w self) (wi_auth w self) others r ?n =
      (if r \<or> (\<exists>k < length others. wi_up w (Suc (nt_calls n) + k)) then Some False else None,
       n\<lparr>nt_calls := nt_calls n + length (peer # others)\<rparr>)" for r
    using Cons.IH [of ?n r] Cons.prems by simp
  show ?case
    using cluster_probe [OF assms, of self n i addr] Cons.prems unfolding peer
    by (simp add: ih [unfolded peer] ex_less_add del: add_Suc)
qed simp

lemma ex_less_times:
  "(\<exists>k < Suc r * m. P (a + k)) \<longleftrightarrow> (\<exists>k < m. P (a + k)) \<or> (\<exists>k < r * m. P (a + m + k))" for P :: "nat \<Rightarrow> bool"
proof -
  have "(\<exists>k < m + r * m. P (a + k)) \<longleftrightarrow> (\<exists>k < m. P (a + k)) \<or> (\<exists>k. m \<le> k \<and> k < m + r * m \<and> P (a + k))"
    by (metis not_le trans_less_add1)
  also have "(\<exists>k. m \<le> k \<and> k < m + r * m \<and> P (a + k)) \<longleftrightarrow> (\<exists>k < r * m. P (a + m + k))"
    by (metis add.assoc le_add1 le_iff_add nat_add_left_cancel_less)
  finally show ?thesis by simp
qed

lemma cluster_discover:
  assumes "answers_readable w"
  shows "list_all (fresh_peer w self n) others \<Longrightarrow>
    \<exists>m. discover (cluster_ops w self) (wi_auth w self) others rounds n =
      (\<not> (\<exists>k < rounds * length others. wi_up w (nt_calls n + k)), n\<lparr>nt_calls := m\<rparr>)"
proof (induction rounds arbitrary: n)
  case 0
  show ?case by (auto intro: exI [of _ "nt_calls n"])
next
  case (Suc rounds)
  let ?n = "n\<lparr>nt_calls := nt_calls n + length others\<rparr>"
  have idle: "no_idle (cluster_ops w self) n = n" for n by (simp add: cluster_ops_def)
  show ?case
    using Suc.IH [of ?n] Suc.prems cluster_round [OF assms Suc.prems, of False] idle
    by (auto simp: ex_less_times simp del: mult_Suc)
qed

text \<open>
  C12: a cluster comes up. When all nodes are fresh, share the credential and know each other's
  addresses, the node with the lowest id founds the cluster with all configured peers as soon as one of
  the calls of its ten rounds gets through. When none does, it founds none and leaves
  its engine alone.
\<close>

theorem bootstrap_founds_cluster:
  assumes "answers_readable w" "ra_is_initialized (wi_engine w self) (nt_engine n) = Some False" "lowest_peer node"
    "nd_auth node = wi_auth w self" "other_peers node \<noteq> []" "list_all (fresh_peer w self n) (other_peers node)"
  shows "case bootstrap (cluster_ops w self) node n of (res, n') \<Rightarrow>
    if \<exists>k < 10 * length (other_peers node). wi_up w (nt_calls n + k)
    then (case ra_initialize (wi_engine w self) (nd_peers node) (nt_engine n) of
            (ok, q) \<Rightarrow> res = Inr (if ok then Initialized else InitializeSkipped) \<and> nt_engine n' = q)
    else res = Inr ClusterDetected \<and> nt_engine n' = nt_engine n"
proof -
  let ?up = "\<exists>k < 10 * length (other_peers node). wi_up w (nt_calls n + k)"
  obtain m where d: "cluster_already_running (cluster_ops w self) node n = (\<not> ?up, n\<lparr>nt_calls := m\<rparr>)"
    using cluster_discover [OF assms(1,6), of 10] assms(4,5) by (auto simp: cluster_already_running_def)
  have "no_engine (cluster_ops w self) = lift_engine (wi_engine w self)" by (simp add: cluster_ops_def)
  then show ?thesis
    unfolding bootstrap_cases d using assms(2,3)
    by (simp add: lift_engine_def lift_step_def split: prod.split)
qed

section \<open>A cluster of three nodes\<close>

text \<open>
  Node 1 leads. The state of the engines is one store and whether the cluster has been
  initialised.
\<close>

definition sample_leader :: "(nat, nat, row, nat, row RedbStore \<times> bool) raft_engine" where
  "sample_leader =
     \<lparr>ra_voted_for = (\<lambda>i. Some (of_nat i)), ra_append_entries = (\<lambda>_ q. (0, q)), ra_install_snapshot = (\<lambda>_ q. (0, q)),
      ra_vote = (\<lambda>_ q. (0, q)),
      ra_client_write = (\<lambda>c (st, i).
        case redb_apply row_codec c st of (Inr _, st') \<Rightarrow> (Inr Ok, st', i) | (Inl _, st') \<Rightarrow> (Inr ApplyNotFound, st', i)),
      ra_is_initialized = (\<lambda>(_, i). Some i), ra_initialize = (\<lambda>_ (st, i). (\<not> i, st, True))\<rparr>"

definition sample_follower :: "(nat, nat, row, nat, row RedbStore \<times> bool) raft_engine" where
  "sample_follower = sample_leader\<lparr>ra_client_write := (\<lambda>_ q. (Inl (ForwardToLeader (Some ''n1:7000'')), q))\<rparr>"

definition sample_members :: "(u64, string) table" where
  "sample_members = [(1, ''n1:7000''), (2, ''n2:7000''), (3, ''n3:7000'')]"

definition sample_auth :: PeerAuth where
  "sample_auth = \<lparr>pa_header = Some ''Bearer k'', pa_fingerprint = Some (as_bytes ''k''), pa_required = True\<rparr>"

definition sample_wiring :: "(nat, nat, row, nat, row RedbStore \<times> bool) wiring" where
  "sample_wiring =
     \<lparr>wi_sha256 = (\<lambda>bs. bs), wi_dns = (\<lambda>_ _. None),
      wi_json = \<lparr>js_append = (\<lambda>_ _. Inl 400), js_snapshot = (\<lambda>_ _. Inl 400), js_vote = (\<lambda>_ _. Inl 400),
        js_command = (\<lambda>_ _. Inr (AddToken sample_token))\<rparr>,
      wi_engine = (\<lambda>i. if i = 1 then sample_leader else sample_follower), wi_auth = (\<lambda>_. sample_auth),
      wi_node_at = (\<lambda>addr. if addr = ''n1:7000'' then Some 1 else if addr = ''n2:7000'' then Some 2
        else if addr = ''n3:7000'' then Some 3 else None),
      wi_source = (\<lambda>i. V4 (Ipv4 10 0 0 (ucast i))), wi_up = (\<lambda>k. k > 3),
      wi_reply = (\<lambda>resp. case resp of InitializedReply v \<Rightarrow> [if v then 1 else 0] | ApplyReply Ok \<Rightarrow> [] | ApplyReply ApplyNotFound \<Rightarrow> [2]
        | ApplyReply ApplyVersionConflict \<Rightarrow> [3] | _ \<Rightarrow> [4]),
      wi_enc_command = (\<lambda>_. [0]), wi_dec_result = (\<lambda>bs. if bs = [] then Some Ok else if bs = [2] then Some ApplyNotFound else None),
      wi_dec_bool = (\<lambda>bs. if bs = [1] then Some True else if bs = [0] then Some False else None),
      wi_store = (\<lambda>_. fst), wi_set_store = (\<lambda>_ st q. (st, snd q))\<rparr>"

definition sample_net :: "(row RedbStore \<times> bool) net" where
  "sample_net =
     \<lparr>nt_engine = (\<lparr>redb_db = empty_db, redb_node_id = 1\<rparr>, False),
      nt_addrs = (\<lambda>_. \<lparr>pe_enabled = True, pe_ids = [1, 2, 3], pe_hosts = map snd sample_members,
        pe_resolved = {V4 (Ipv4 10 0 0 1), V4 (Ipv4 10 0 0 2), V4 (Ipv4 10 0 0 3)}\<rparr>),
      nt_lookups = 0, nt_calls = 0\<rparr>"

definition sample_node :: "u64 \<Rightarrow> RaftNode" where
  "sample_node i = \<lparr>nd_peers = sample_members, nd_node_id = i, nd_auth = sample_auth\<rparr>"

lemma sample_accepts: "peer_accepts (\<lambda>bs. bs) sample_auth (pa_header sample_auth)"
  by code_simp

lemma sample_source: "i \<in> {1, 2, 3} \<Longrightarrow> source_known sample_wiring i target (sample_net\<lparr>nt_calls := k\<rparr>)"
  by (auto simp: source_known_def sample_net_def sample_wiring_def)

theorem forwarded_write_witness:
  "case node_write (cluster_ops sample_wiring 2) (sample_node 2) (AddToken sample_token) (sample_net\<lparr>nt_calls := 4\<rparr>) of
     (res, n) \<Rightarrow> res = Inr () \<and> tget (TOKENS (redb_db (fst (nt_engine n)))) [1, 2] = Some (RowToken sample_token)"
proof -
  let ?q = "nt_engine sample_net" and ?n = "sample_net\<lparr>nt_calls := 4\<rparr>"
  let ?d = "empty_db\<lparr>TOKENS_BY_NAME := [(''ci'', [1, 2])], TOKENS := [([1, 2], RowToken sample_token)]\<rparr>"
  have leads: "ra_client_write (wi_engine sample_wiring 1) (AddToken sample_token) ?q =
      (Inr Ok, \<lparr>redb_db = ?d, redb_node_id = 1\<rparr>, False)"
    by (simp add: sample_wiring_def sample_leader_def sample_net_def redb_apply_def apply_add_token_def empty_db_def
        sample_token_def tget_def row_codec_def)
  have readable: "write_readable sample_wiring 1 (AddToken sample_token) ?q"
    unfolding write_readable_def leads by (simp add: sample_wiring_def)
  have asks: "ra_client_write (wi_engine sample_wiring 2) (AddToken sample_token) (nt_engine ?n) =
      (Inl (ForwardToLeader (Some ''n1:7000'')), ?q)"
    by (simp add: sample_wiring_def sample_follower_def)
  have acc: "peer_accepts (wi_sha256 sample_wiring) (wi_auth sample_wiring 1) (pa_header (wi_auth sample_wiring 2))"
    using sample_accepts by (simp add: sample_wiring_def)
  have "node_write (cluster_ops sample_wiring 2) (sample_node 2) (AddToken sample_token) ?n =
      (Inr (), ?n\<lparr>nt_engine := (\<lparr>redb_db = ?d, redb_node_id = 1\<rparr>, False), nt_calls := 5\<rparr>)"
    using forwarded_write [OF readable asks, of "sample_node 2"] acc leads sample_source [of 2 1 4]
    by (simp add: Let_def sample_wiring_def sample_node_def RPC_BODY_LIMIT_def outcome_to_result_def)
  then show ?thesis by (simp add: tget_def)
qed

theorem bootstrap_founds_cluster_witness:
  "case bootstrap (cluster_ops sample_wiring 1) (sample_node 1) sample_net of
     (res, n) \<Rightarrow> res = Inr Initialized \<and> nt_engine n = (fst (nt_engine sample_net), True)"
proof -
  have others: "other_peers (sample_node 1) = [(2, ''n2:7000''), (3, ''n3:7000'')]"
    by (simp add: other_peers_def sample_node_def sample_members_def)
  have readable: "answers_readable sample_wiring" by (simp add: answers_readable_def sample_wiring_def)
  have init: "ra_is_initialized (wi_engine sample_wiring i) (nt_engine sample_net) = Some False" for i
    by (simp add: sample_wiring_def sample_leader_def sample_follower_def sample_net_def)
  have "source_known sample_wiring 1 i sample_net" for i using sample_source [of 1 i 0] by (simp add: sample_net_def)
  then have fresh: "list_all (fresh_peer sample_wiring 1 sample_net) (other_peers (sample_node 1))"
    using sample_accepts unfolding others
    by (simp add: fresh_peer_def init) (simp add: sample_wiring_def)
  have up: "\<exists>k < 10 * length (other_peers (sample_node 1)). wi_up sample_wiring (nt_calls sample_net + k)"
    by (rule exI [of _ 4]) (simp add: others sample_wiring_def)
  have found: "ra_initialize (wi_engine sample_wiring 1) (nd_peers (sample_node 1)) (nt_engine sample_net) =
      (True, fst (nt_engine sample_net), True)"
    by (simp add: sample_wiring_def sample_leader_def sample_net_def)
  have "lowest_peer (sample_node 1)" "nd_auth (sample_node 1) = wi_auth sample_wiring 1"
    by (simp_all add: lowest_peer_def sample_node_def sample_members_def sample_wiring_def)
  from bootstrap_founds_cluster [OF readable init this _ fresh] up found show ?thesis
    by (simp add: others)
qed

theorem start_keeps_raft_state_witness:
  "case node_start jval_codec (\<lambda>_. True) (\<lambda>_ _ _ r. (False, r)) (cluster_ops (sample_wiring\<lparr>wi_up := \<lambda>_. False\<rparr>) 1) 1 sample_members
      sample_auth (empty_raft, sample_net) of (res, r', q') \<Rightarrow> (res, r') = (Inl RaftNewFailed, empty_raft)"
proof -
  let ?ops = "cluster_ops (sample_wiring\<lparr>wi_up := \<lambda>_. False\<rparr>) 1"
  have probe: "fst (probe_peer_initialized ?ops auth addr n) = None" for auth addr n
    by (simp add: probe_peer_initialized_def cluster_ops_def cluster_http_def Let_def)
  have no: "Some True \<notin> set (fst (probe_all ?ops sample_auth others n))" for others n
  proof (induction others arbitrary: n)
    case (Cons peer others)
    obtain i addr where peer: "peer = (i, addr)" by force
    obtain n1 where "probe_peer_initialized ?ops sample_auth addr n = (None, n1)"
      using probe [of sample_auth addr n] by (cases "probe_peer_initialized ?ops sample_auth addr n") simp
    then show ?case using Cons.IH [of n1] unfolding peer by (simp add: case_prod_beta)
  qed simp
  have norm: "normalize_raft_log jval_codec empty_raft = (Inr (), empty_raft)"
    by (simp add: normalize_raft_log_def read_applied_def read_purged_def read_meta_def empty_raft_def tget_def
        normalize_floor_def Let_def tkeys_def)
  show ?thesis
    using start_keeps_raft_state [where rc = jval_codec and validate = "\<lambda>_. True" and raft_new = "\<lambda>_ _ _ r. (False, r)"
        and node_id = 1 and peers = sample_members and r = empty_raft and q = sample_net, OF no]
    by (simp add: norm split: prod.splits)
qed

end
