(* ===== verification/Cluster_Api.thy ===== *)
theory Cluster_Api
  imports Raft_Cluster Api_Safety
begin

text \<open>
  The service on a replicated store: requests and workers on one node of a cluster, whose writes
  go through the engine or are forwarded to the leader, keep the stores of all nodes
  consistent.
\<close>

section \<open>What the engine does to the stores\<close>

text \<open>
  The engine changes the tables of a node in two ways: it applies a command of the log, or it
  installs a snapshot of another node, which replaces the replicated tables.
\<close>

inductive store_step :: "'b codec \<Rightarrow> 'b Command set \<Rightarrow> (u64 \<Rightarrow> 'b db) \<Rightarrow> (u64 \<Rightarrow> 'b db) \<Rightarrow> bool" for cd L where
  applied: "c \<in> L \<Longrightarrow> store_step cd L D (D(i := snd (apply_command cd n c (D i))))"
| installed: "store_step cd L D (D(i := (D k)\<lparr>LOCKOUTS := LOCKOUTS (D i), AUDIT := AUDIT (D i)\<rparr>))"

inductive_cases store_stepE: "store_step cd L D D'"

definition stores_ok :: "'b codec \<Rightarrow> (u64 \<Rightarrow> 'b db) \<Rightarrow> bool" where
  "stores_ok cd D \<longleftrightarrow> (\<forall>i. vault_inv cd (D i))"

lemma vault_inv_local: "vault_inv cd d \<Longrightarrow> vault_inv cd e \<Longrightarrow> vault_inv cd (d\<lparr>LOCKOUTS := LOCKOUTS e, AUDIT := AUDIT e\<rparr>)"
  by (simp add: vault_inv_def db_wf_def rows_inv_def)

lemma store_step_ok:
  assumes "store_step cd L D D'" "codec_ok cd" "\<forall>c \<in> L. command_ok cd c" "stores_ok cd D"
  shows "stores_ok cd D'"
  using assms(1)
proof (cases rule: store_step.cases)
  case (applied c i n)
  then have "vault_inv cd (snd (apply_command cd n c (D i)))"
    using apply_command_good [of cd "D i" c n] assms by (simp add: stores_ok_def good_outcome_def case_prod_beta)
  with applied assms(4) show ?thesis by (simp add: stores_ok_def)
next
  case (installed i k)
  with assms(4) show ?thesis by (simp add: stores_ok_def vault_inv_local)
qed

lemma store_steps_ok:
  "(store_step cd L)\<^sup>*\<^sup>* D D' \<Longrightarrow> codec_ok cd \<Longrightarrow> \<forall>c \<in> L. command_ok cd c \<Longrightarrow> stores_ok cd D \<Longrightarrow> stores_ok cd D'"
  by (induction rule: rtranclp_induct) (auto intro: store_step_ok)

text \<open>
  What the service relies on of the engine. \<open>ledger\<close> holds the commands that were ever written.
  Writing adds at most the given command to it, and moves the stores by commands of the
  ledger and by snapshots. The local store of a node is its own.
\<close>

definition stores :: "('l, 'p, 'b, 'r, 'q) wiring \<Rightarrow> 'q \<Rightarrow> u64 \<Rightarrow> 'b db" where
  "stores w q i = redb_db (wi_store w i q)"

definition consensus_ok :: "'b codec \<Rightarrow> ('l, 'p, 'b, 'r, 'q) wiring \<Rightarrow> ('q \<Rightarrow> 'b Command set) \<Rightarrow> bool" where
  "consensus_ok cd w ledger \<longleftrightarrow>
     (\<forall>i c q. let q' = snd (ra_client_write (wi_engine w i) c q) in
        ledger q' \<subseteq> insert c (ledger q) \<and> (store_step cd (ledger q'))\<^sup>*\<^sup>* (stores w q) (stores w q')) \<and>
     (\<forall>i st q. ledger (wi_set_store w i st q) = ledger q \<and>
        stores w (wi_set_store w i st q) = (stores w q)(i := redb_db st))"

text \<open>A message that is read is read as it was written.\<close>

definition commands_faithful :: "('l, 'p, 'b, 'r, 'q) wiring \<Rightarrow> bool" where
  "commands_faithful w \<longleftrightarrow>
     (\<forall>c c' limit request. hr_body request = wi_enc_command w c \<longrightarrow>
        js_command (wi_json w) limit request = Inr c' \<longrightarrow> c' = c)"

definition cluster_good :: "'b codec \<Rightarrow> ('l, 'p, 'b, 'r, 'q) wiring \<Rightarrow> ('q \<Rightarrow> 'b Command set) \<Rightarrow> 'q net \<Rightarrow> bool" where
  "cluster_good cd w ledger n \<longleftrightarrow>
     (\<forall>c \<in> ledger (nt_engine n). command_ok cd c) \<and> stores_ok cd (stores w (nt_engine n))"

section \<open>Writes\<close>

lemma engine_write_good:
  fixes i :: u64
  assumes "codec_ok cd" "consensus_ok cd w ledger" "command_ok cd c"
    "\<forall>c \<in> ledger q. command_ok cd c" "stores_ok cd (stores w q)"
  defines "q' \<equiv> snd (ra_client_write (wi_engine w i) c q)"
  shows "(\<forall>c \<in> ledger q'. command_ok cd c) \<and> stores_ok cd (stores w q')"
proof -
  have L: "ledger q' \<subseteq> insert c (ledger q)" "(store_step cd (ledger q'))\<^sup>*\<^sup>* (stores w q) (stores w q')"
    using assms(2) by (simp_all add: consensus_ok_def Let_def q'_def)
  then have "\<forall>c \<in> ledger q'. command_ok cd c" using assms(3,4) by auto
  with store_steps_ok [OF L(2) assms(1) _ assms(5)] show ?thesis by blast
qed

lemma raft_guard_engine: "rv_engine (snd (raft_guard sha256 dns auth request s)) = rv_engine s"
  by (auto simp: raft_guard_def split: option.split prod.split)

lemma raft_router_engine:
  assumes "raft_router sha256 dns js eng auth request s = (resp, s')"
  shows "rv_engine s' = rv_engine s \<or>
    (\<exists>call. requested_call js request call \<and> rv_engine s' = run_call eng call (rv_engine s))"
proof -
  obtain verdict s1 where g: "raft_guard sha256 dns auth request s = (verdict, s1)" by force
  have s1: "rv_engine s1 = rv_engine s" using raft_guard_engine [of sha256 dns auth request s] g by simp
  show ?thesis
  proof (cases verdict)
    case None
    then have "raft_route js eng request s1 = (resp, s')" using assms g by (simp add: raft_router_def)
    from raft_route_calls [OF this] show ?thesis by (auto simp: s1)
  qed (use assms g s1 in \<open>simp add: raft_router_def\<close>)
qed

lemma split_url_Some: "split_url url = Some (host, path) \<Longrightarrow> \<exists>p. path = CHR ''/'' # p \<and> url = ''http://'' @ host @ path"
  by (auto simp: split_url_def split_once_Some strip_prefix_Some split: option.splits)

lemma apply_path_call:
  assumes "split_url (''http://'' @ addr @ ''/raft/apply'') = Some (host, path)"
    "requested_call js request call" "hr_path request = path"
  shows "\<exists>c. call = WriteCall c \<and> js_command js RPC_BODY_LIMIT request = Inr c"
proof -
  have "last path = last (''http://'' @ addr @ ''/raft/apply'')"
    using split_url_Some [OF assms(1)] by (auto simp del: append.simps)
  then have "last path = CHR ''y''" by simp
  then show ?thesis using assms(2,3) by (auto simp: requested_call_def split: engine_call.splits)
qed

lemma cluster_http_good:
  assumes "codec_ok cd" "consensus_ok cd w ledger" "commands_faithful w" "command_ok cd c" "cluster_good cd w ledger n"
    "hm_url call = ''http://'' @ addr @ ''/raft/apply''" "hm_body call = wi_enc_command w c"
  shows "cluster_good cd w ledger (snd (cluster_http w self call n))"
proof (cases "wi_up w (nt_calls n)")
  case True
  have G: "(\<forall>c \<in> ledger (nt_engine n). command_ok cd c)" "stores_ok cd (stores w (nt_engine n))"
    using assms(5) by (simp_all add: cluster_good_def)
  show ?thesis
  proof (cases "Option.bind (split_url (hm_url call)) (\<lambda>(host, path). map_option (Pair path) (wi_node_at w host))")
    case None
    then show ?thesis using G True
      by (auto simp: cluster_http_def Let_def cluster_good_def split: option.splits)
  next
    case (Some pt)
    then obtain host path target where url: "split_url (hm_url call) = Some (host, path)" "wi_node_at w host = Some target"
      by (auto simp: Option.bind_eq_Some_conv)
    let ?req = "\<lparr>hr_method = hm_method call, hr_path = path, hr_source = Some (wi_source w self),
      hr_authorization = hm_authorization call, hr_body = hm_body call\<rparr>"
    let ?s = "\<lparr>rv_engine = nt_engine n, rv_peers = nt_addrs n target, rv_lookups = nt_lookups n\<rparr>"
    obtain resp s' where r: "raft_router (wi_sha256 w) (wi_dns w) (wi_json w) (wi_engine w target) (wi_auth w target) ?req ?s = (resp, s')"
      by force
    have only: "x = WriteCall c" if asked: "requested_call (wi_json w) ?req x" for x
    proof -
      obtain c' where c': "x = WriteCall c'" "js_command (wi_json w) RPC_BODY_LIMIT ?req = Inr c'"
        using apply_path_call [OF url(1) [unfolded assms(6)] asked] by auto
      then show ?thesis using assms(3,7) unfolding commands_faithful_def by (metis http_request.select_convs(5))
    qed
    have "rv_engine s' = nt_engine n \<or> rv_engine s' = snd (ra_client_write (wi_engine w target) c (nt_engine n))"
      using raft_router_engine [OF r] by (auto dest: only)
    then show ?thesis
      using engine_write_good [OF assms(1,2,4) G, where i = target] G True url r
      by (auto simp: cluster_http_def Let_def cluster_good_def)
  qed
qed (use assms(5) in \<open>simp add: cluster_http_def Let_def cluster_good_def\<close>)

lemma node_write_good:
  assumes "codec_ok cd" "consensus_ok cd w ledger" "commands_faithful w" "command_ok cd c" "cluster_good cd w ledger n"
  shows "cluster_good cd w ledger (snd (node_write (cluster_ops w self) node c n))"
proof -
  obtain r q where e: "ra_client_write (wi_engine w self) c (nt_engine n) = (r, q)" by force
  let ?n = "n\<lparr>nt_engine := q\<rparr>"
  have engine: "ra_client_write (no_engine (cluster_ops w self)) c n = (r, ?n)"
    using e by (simp add: cluster_ops_def lift_engine_def lift_step_def)
  have good: "cluster_good cd w ledger ?n"
    using engine_write_good [OF assms(1,2,4), where q = "nt_engine n" and i = self] assms(5) e by (simp add: cluster_good_def)
  have fwd: "cluster_good cd w ledger (snd (node_forward (cluster_ops w self) node addr c ?n))" for addr
    using cluster_http_good [OF assms(1-4) good, of "\<lparr>hm_method = ''POST'', hm_url = ''http://'' @ addr @ ''/raft/apply'',
        hm_authorization = pa_header (nd_auth node), hm_body = wi_enc_command w c\<rparr>" addr self]
    by (auto simp: node_forward_def cluster_ops_def split: prod.splits option.splits)
  show ?thesis
    unfolding node_write_def engine using good fwd
    by (auto split: sum.split client_write_error.split option.split)
qed

lemma raft_store_apply_good:
  assumes "codec_ok cd" "consensus_ok cd w ledger" "commands_faithful w" "command_ok cd c" "cluster_good cd w ledger n"
  shows "cluster_good cd w ledger (snd (raft_store_apply cd (cluster_ops w self) node c n))"
proof (cases "is_local c")
  case True
  obtain res st where r: "redb_apply cd c (wi_store w self (nt_engine n)) = (res, st)" by force
  have inv: "vault_inv cd (stores w (nt_engine n) self)" using assms(5) by (simp add: cluster_good_def stores_ok_def)
  then have "vault_inv cd (redb_db st)"
    using redb.write_inv [OF assms(1) _ assms(4) r] by (simp add: stores_def)
  with True r assms(2,5) show ?thesis
    by (simp add: raft_store_apply_def cluster_ops_def cluster_good_def stores_ok_def consensus_ok_def)
next
  case False
  with node_write_good [OF assms] show ?thesis by (simp add: raft_store_apply_def)
qed

section \<open>The service\<close>

definition on_cluster :: "('b, 'q net) env \<Rightarrow> ('l, 'p, 'b, 'r, 'q) wiring \<Rightarrow> u64 \<Rightarrow> RaftNode \<Rightarrow> bool" where
  "on_cluster E w self node \<longleftrightarrow>
     e_store_apply E = raft_store_apply (e_codec E) (cluster_ops w self) node \<and>
     e_store_restore E = raft_store_restore (cluster_ops w self) node \<and>
     e_store_view E = (\<lambda>n. stores w (nt_engine n) self)"

definition cluster_env_ok ::
  "('b, 'q net) env \<Rightarrow> ('l, 'p, 'b, 'r, 'q) wiring \<Rightarrow> u64 \<Rightarrow> RaftNode \<Rightarrow> ('q \<Rightarrow> 'b Command set) \<Rightarrow> bool" where
  "cluster_env_ok E w self node ledger \<longleftrightarrow>
     codec_ok (e_codec E) \<and> on_cluster E w self node \<and> consensus_ok (e_codec E) w ledger \<and> commands_faithful w \<and>
     (\<forall>k n. cluster_good (e_codec E) w ledger n \<longrightarrow> cluster_good (e_codec E) w ledger (e_others E k n))"

abbreviation cluster_inv ::
  "('b, 'q net) env \<Rightarrow> ('l, 'p, 'b, 'r, 'q) wiring \<Rightarrow> u64 \<Rightarrow> RaftNode \<Rightarrow> ('q \<Rightarrow> 'b Command set) \<Rightarrow> 'q net world \<Rightarrow> bool" where
  "cluster_inv E w self node ledger W \<equiv>
     cluster_env_ok E w self node ledger \<longrightarrow> cluster_good (e_codec E) w ledger (w_store W)"

lemma cluster_env_write:
  assumes "cluster_env_ok E w self node ledger" "cluster_good (e_codec E) w ledger n"
  shows "command_ok (e_codec E) c \<Longrightarrow> cluster_good (e_codec E) w ledger (snd (e_store_apply E c n))"
    and "command_ok (e_codec E) (RestoreDatabase data) \<Longrightarrow> cluster_good (e_codec E) w ledger (snd (e_store_restore E data n))"
  using assms
  by (simp_all add: cluster_env_ok_def on_cluster_def raft_store_apply_good raft_store_restore_def node_write_good)

interpretation cluster_run: api_invariant E "cluster_inv E w self node ledger" "command_ok (e_codec E)"
  for E :: "('b, 'q net) env" and w :: "('l, 'p, 'b, 'r, 'q) wiring" and self node ledger
  by unfold_locales
    (simp_all add: cache_lookup_world bookkeeping_ok cluster_env_write, simp add: cluster_env_ok_def)


section \<open>A leader and its stores\<close>

type_synonym sample_stores = "(u64 \<Rightarrow> row db) \<times> row Command set"

definition ledger_engine :: "(nat, nat, row, nat, sample_stores) raft_engine" where
  "ledger_engine =
     \<lparr>ra_voted_for = (\<lambda>_. None), ra_append_entries = (\<lambda>_ q. (0, q)), ra_install_snapshot = (\<lambda>_ q. (0, q)),
      ra_vote = (\<lambda>_ q. (0, q)),
      ra_client_write = (\<lambda>c (D, L). (Inr Ok, D(1 := snd (apply_command row_codec 1 c (D 1))), insert c L)),
      ra_is_initialized = (\<lambda>_. Some True), ra_initialize = (\<lambda>_ q. (False, q))\<rparr>"

definition ledger_wiring :: "(nat, nat, row, nat, sample_stores) wiring" where
  "ledger_wiring =
     \<lparr>wi_sha256 = (\<lambda>bs. bs), wi_dns = (\<lambda>_ _. None),
      wi_json = \<lparr>js_append = (\<lambda>_ _. Inl 400), js_snapshot = (\<lambda>_ _. Inl 400), js_vote = (\<lambda>_ _. Inl 400), js_command = (\<lambda>_ _. Inl 400)\<rparr>,
      wi_engine = (\<lambda>_. ledger_engine), wi_auth = (\<lambda>_. sample_auth), wi_node_at = (\<lambda>_. Some 1),
      wi_source = (\<lambda>_. V4 (Ipv4 10 0 0 1)), wi_up = (\<lambda>_. True), wi_reply = (\<lambda>_. []),
      wi_enc_command = (\<lambda>_. []), wi_dec_result = (\<lambda>_. None), wi_dec_bool = (\<lambda>_. None),
      wi_store = (\<lambda>i (D, _). \<lparr>redb_db = D i, redb_node_id = i\<rparr>),
      wi_set_store = (\<lambda>i st (D, L). (D(i := redb_db st), L))\<rparr>"

definition cluster_env :: "(row, sample_stores net) env" where
  "cluster_env =
     \<lparr>e_codec = row_codec, e_store_apply = raft_store_apply row_codec (cluster_ops ledger_wiring 1) (sample_node 1),
      e_store_restore = raft_store_restore (cluster_ops ledger_wiring 1) (sample_node 1),
      e_store_view = (\<lambda>n. stores ledger_wiring (nt_engine n) 1), e_store_node = (\<lambda>_. 1), e_others = (\<lambda>_ n. n),
      e_cache_others = (\<lambda>_ c. c), e_kms = sample_kms, e_aead = prefix_aead, e_system_time = (\<lambda>_. Some 1000),
      e_instant = (\<lambda>n. n), e_random = (\<lambda>n k. replicate k (of_nat n)), e_b64url = e_b64url sample_env,
      e_sha256 = (\<lambda>bs. bs), e_enc_userpass = sample_enc_userpass, e_dec_userpass = sample_dec_userpass,
      e_backup_size = (\<lambda>_. Some 0), e_format_date = (\<lambda>t. Some (show_int t)), e_pg_targets = e_pg_targets sample_env,
      e_pg = (\<lambda>_ _. Some True), e_clustered = True, e_node_id = 1, e_current_leader = (\<lambda>_. Some 1),
      e_auth_max_failures = 5, e_auth_lockout_secs = 300, e_auth_window_secs = 60, e_token_touch_secs = 60,
      e_kms_rewrap_enabled = True, e_trust_proxy = False, e_allowed = (\<lambda>ip. ip = Ipv4 10 0 0 5)\<rparr>"

definition cluster_world :: "sample_stores net world" where
  "cluster_world =
     \<lparr>w_store = \<lparr>nt_engine = (\<lambda>_. empty_db, {}), nt_addrs = nt_addrs sample_net, nt_lookups = 0, nt_calls = 0\<rparr>,
      w_cache = cache_new 300, w_calls = 0, w_attempts = [], w_rewrap_busy = False\<rparr>"

lemma ledger_consensus: "consensus_ok row_codec ledger_wiring snd"
proof -
  have st: "stores ledger_wiring (D, L) = D" for D L by (rule ext) (simp add: stores_def ledger_wiring_def)
  have "store_step row_codec (insert c L) D (D(1 := snd (apply_command row_codec 1 c (D 1))))" for c L and D :: "u64 \<Rightarrow> row db"
    by (rule applied) simp
  moreover have "ra_client_write (wi_engine ledger_wiring i) c (D, L) = (Inr Ok, D(1 := snd (apply_command row_codec 1 c (D 1))), insert c L)"
    "wi_set_store ledger_wiring i st (D, L) = (D(i := redb_db st), L)" for i c st D L
    by (simp_all add: ledger_wiring_def ledger_engine_def)
  ultimately show ?thesis by (auto simp: consensus_ok_def Let_def st)
qed

lemma cluster_env_ok_sample: "cluster_env_ok cluster_env ledger_wiring 1 (sample_node 1) snd"
proof -
  have "commands_faithful ledger_wiring" by (simp add: commands_faithful_def ledger_wiring_def)
  then show ?thesis using ledger_consensus by (simp add: cluster_env_ok_def on_cluster_def cluster_env_def row_codec_ok)
qed


end
