(* ===== verification/Startup.thy ===== *)
theory Startup
  imports Raft_Node Api_World
begin

text \<open>
  \<open>lib.rs\<close> and \<open>build\<close> of \<open>kms.rs\<close>: from the configuration to a running vault. The disk is a
  \<open>raft_db\<close> (the tables of the vault and those of raft), \<open>'q\<close> is the outside of the
  node as in \<open>raft/node.rs\<close>. The libraries used on the way are the fields of
  \<open>startup\<close>; \<open>su_client_config\<close> is what loading the certificates returns and \<open>su_now\<close> the
  system clock. The log lines about rotation targets and peers are in \<open>Pg_Connect\<close>.
\<close>

section \<open>The key management provider\<close>

definition LocalKeyWrapper_random :: "bytes \<Rightarrow> LocalKeyWrapper" where
  "LocalKeyWrapper_random master = \<lparr>lk_master = master, lk_key_id = ''local-dev''\<rparr>"

definition kms_build ::
  "(string \<Rightarrow> kms) \<Rightarrow> aead \<Rightarrow> (string \<Rightarrow> bytes option) \<Rightarrow> bytes \<Rightarrow> (nat \<Rightarrow> bytes \<times> bytes) \<Rightarrow> Config \<Rightarrow> core_error + kms" where
  "kms_build aws A b64_decode master draw cfg =
     (case (case cf_kms_mode cfg of
              Aws \<Rightarrow> Inr (aws (cf_kms_key_id cfg))
            | Local \<Rightarrow>
                (case (case cf_local_master_key_b64 cfg of
                         Some encoded \<Rightarrow> LocalKeyWrapper_from_base64 b64_decode encoded ''local''
                       | None \<Rightarrow> Inr (LocalKeyWrapper_random master)) of
                   Inl e \<Rightarrow> Inl e
                 | Inr wrapper \<Rightarrow> Inr (local_kms A wrapper draw))) of
        Inl e \<Rightarrow> Inl e
      | Inr inner \<Rightarrow>
          Inr (if cf_kms_max_retries cfg = 0 then inner else retrying_kms inner (cf_kms_max_retries cfg)))"

section \<open>The first token\<close>

definition bootstrap_record :: "bytes \<Rightarrow> i64 \<Rightarrow> TokenRecord" where
  "bootstrap_record fp now =
     \<lparr>tr_name = ''bootstrap-admin'', tr_role = Some ''admin'', tr_fingerprint = fp, tr_created_at = now,
      tr_last_used_at = None, tr_revoked_at = None\<rparr>"

definition seed_bootstrap_token ::
  "'b codec \<Rightarrow> (bytes \<Rightarrow> bytes) \<Rightarrow> i64 \<Rightarrow> string option \<Rightarrow> 'b RedbStore \<Rightarrow> unit StoreResult \<times> 'b RedbStore" where
  "seed_bootstrap_token cd sha256 now bootstrap_token st =
     (case bootstrap_token of
        None \<Rightarrow> (Inr (), st)
      | Some token \<Rightarrow>
          (let fp = fingerprint sha256 token in
           case token_by_fingerprint cd fp (redb_db st) of
             Inl e \<Rightarrow> (Inl e, st)
           | Inr (Some _) \<Rightarrow> (Inr (), st)
           | Inr None \<Rightarrow>
               (case redb_apply cd (AddToken (bootstrap_record fp now)) st of
                  (Inr _, st') \<Rightarrow> (Inr (), st')
                | (Inl (Conflict _), st') \<Rightarrow> (Inr (), st')
                | (Inl err, st') \<Rightarrow> (Inl err, st'))))"

section \<open>The rotation targets\<close>

datatype policy_error = PolicyStore StoreError | PolicyInvalid pg_error

definition target_hosts :: "SecretRecord \<Rightarrow> string list" where
  "target_hosts secret = (case sr_target secret of Some (PgReplica pg) \<Rightarrow> pg_hosts pg | None \<Rightarrow> [])"

definition build_pg_target_policy ::
  "'b codec \<Rightarrow> (string option \<Rightarrow> pg_error + unit) \<Rightarrow> Config \<Rightarrow> 'b db \<Rightarrow> policy_error + PgTargetPolicy" where
  "build_pg_target_policy cd client_config cfg d =
     (let ca = client_config (cf_pg_target_ca_file cfg) in
      if trim (cf_pg_target_hosts cfg) \<noteq> []
      then (case policy_build (cf_pg_target_hosts cfg) (cf_pg_target_tls cfg) ca of
              Inl e \<Rightarrow> Inl (PolicyInvalid e) | Inr policy \<Rightarrow> Inr policy)
      else (case list_secrets cd d of
              Inl e \<Rightarrow> Inl (PolicyStore e)
            | Inr secrets \<Rightarrow>
                (case policy_seeded (concat (map target_hosts secrets)) (cf_pg_target_tls cfg) ca of
                   Inl e \<Rightarrow> Inl (PolicyInvalid e) | Inr policy \<Rightarrow> Inr policy)))"

section \<open>The raft listener\<close>

datatype listen_error = SelfNotInPeers | PeerNotHostPort string | BindNotAddress string nat

definition raft_listen_addr :: "Config \<Rightarrow> listen_error + SocketAddr" where
  "raft_listen_addr cfg =
     (case self_addr cfg of
        None \<Rightarrow> Inl SelfNotInPeers
      | Some addr \<Rightarrow>
     (case parse_port (last (split_on (CHR '':'') addr)) of
        None \<Rightarrow> Inl (PeerNotHostPort addr)
      | Some port \<Rightarrow>
          (let bind = trim (cf_raft_bind cfg) in
           ok_or (BindNotAddress bind port) (socket_addr_from_str (bind @ '':'' @ show_nat port)))))"

section \<open>Building the state\<close>

record 'n AppState =
  ap_raft_node :: "RaftNode option"
  ap_kms :: kms
  ap_dek_cache :: DekCache
  ap_allowlist :: "'n list"
  ap_trust_proxy :: bool
  ap_pg_targets :: PgTargetPolicy
  ap_node_id :: u64
  ap_auth_max_failures :: u32
  ap_auth_lockout_secs :: i64
  ap_auth_window_secs :: i64
  ap_token_touch_secs :: i64
  ap_kms_rewrap_enabled :: bool
  ap_kms_rewrap_max_per_sec :: u32
  ap_rewrap_busy :: bool

text \<open>The RPC server that is spawned for a cluster.\<close>

record raft_port =
  po_auth :: PeerAuth
  po_peers :: PeerAddrs
  po_lookups :: nat
  po_listen :: SocketAddr

datatype start_error =
    ConfigInvalid config_error
  | NodeNotInPeers u64
  | AllowlistInvalid core_error
  | SeedFailed StoreError
  | PolicyFailed policy_error
  | ClusterAuthInvalid peer_auth_error
  | RaftStartFailed node_error
  | RaftListenInvalid listen_error
  | RaftBootstrapFailed node_error
  | KmsBuildFailed core_error
  | BindFailed SocketAddr

record ('l, 'm, 'b, 'x, 'p, 'r, 'q, 'n) startup =
  su_codec :: "'b codec"
  su_raft_codec :: "('l, 'm, 'b, 'x) raft_codec"
  su_ipnet :: "'n ipnet"
  su_sha256 :: "bytes \<Rightarrow> bytes"
  su_now :: i64
  su_dns :: resolver
  su_client_config :: "string option \<Rightarrow> pg_error + unit"
  su_validate :: "raft_config \<Rightarrow> bool"
  su_raft_new :: "u64 \<Rightarrow> raft_config \<Rightarrow> PeerAuth \<Rightarrow> ('b, 'x) raft_db \<Rightarrow> bool \<times> ('b, 'x) raft_db"
  su_ops :: "('l, 'p, 'b, 'r, 'q) node_ops"
  su_aws :: "string \<Rightarrow> kms"
  su_aead :: aead
  su_b64_decode :: "string \<Rightarrow> bytes option"
  su_master :: bytes
  su_draw :: "nat \<Rightarrow> bytes \<times> bytes"
  su_can_bind :: "SocketAddr \<Rightarrow> bool"

definition start_cluster ::
  "('l, 'm, 'b, 'x, 'p, 'r, 'q, 'n) startup \<Rightarrow> Config \<Rightarrow> ('b, 'x) raft_db \<times> 'q \<Rightarrow>
   (start_error + RaftNode \<times> raft_port) \<times> ('b, 'x) raft_db \<times> 'q" where
  "start_cluster P cfg s =
     (case peer_auth_new (su_sha256 P) (cf_cluster_token cfg) (cf_cluster_auth_required cfg) of
        Inl e \<Rightarrow> (Inl (ClusterAuthInvalid e), s)
      | Inr auth \<Rightarrow>
     (case peer_addrs_new (su_dns P) 0 (cf_raft_peer_check cfg) (cf_peers cfg) of
        (lookups, peers) \<Rightarrow>
     (case node_start (su_raft_codec P) (su_validate P) (su_raft_new P) (su_ops P) (cf_node_id cfg) (cf_peers cfg) auth s of
        (Inl e, s1) \<Rightarrow> (Inl (RaftStartFailed e), s1)
      | (Inr node, r1, q1) \<Rightarrow>
     (case raft_listen_addr cfg of
        Inl e \<Rightarrow> (Inl (RaftListenInvalid e), r1, q1)
      | Inr listen \<Rightarrow>
     (case bootstrap (su_ops P) node q1 of
        (Inl e, q2) \<Rightarrow> (Inl (RaftBootstrapFailed e), r1, q2)
      | (Inr _, q2) \<Rightarrow>
          (Inr (node, \<lparr>po_auth = auth, po_peers = peers, po_lookups = lookups, po_listen = listen\<rparr>), r1, q2))))))"

definition build_state ::
  "('l, 'm, 'b, 'x, 'p, 'r, 'q, 'n) startup \<Rightarrow> Config \<Rightarrow> ('b, 'x) raft_db \<times> 'q \<Rightarrow>
   (start_error + 'n AppState \<times> raft_port option) \<times> ('b, 'x) raft_db \<times> 'q" where
  "build_state P cfg s =
     (case s of (r, q) \<Rightarrow>
     (case allowlist_parse (su_ipnet P) (cf_allowed_ips cfg) of
        Inl e \<Rightarrow> (Inl (AllowlistInvalid e), r, q)
      | Inr allowlist \<Rightarrow>
     (case seed_bootstrap_token (su_codec P) (su_sha256 P) (su_now P) (cf_bootstrap_token cfg)
             (from_database (su_codec P) (rd_db r) (cf_node_id cfg)) of
        (Inl e, st) \<Rightarrow> (Inl (SeedFailed e), r\<lparr>rd_db := redb_db st\<rparr>, q)
      | (Inr _, st) \<Rightarrow>
     (let r1 = r\<lparr>rd_db := redb_db st\<rparr> in
      case build_pg_target_policy (su_codec P) (su_client_config P) cfg (redb_db st) of
        Inl e \<Rightarrow> (Inl (PolicyFailed e), r1, q)
      | Inr pg_targets \<Rightarrow>
     (case (if length (cf_peers cfg) > 1
            then (case start_cluster P cfg (r1, q) of (Inl e, s') \<Rightarrow> (Inl e, s') | (Inr np, s') \<Rightarrow> (Inr (Some np), s'))
            else (Inr None, r1, q)) of
        (Inl e, s2) \<Rightarrow> (Inl e, s2)
      | (Inr started, s2) \<Rightarrow>
     (case kms_build (su_aws P) (su_aead P) (su_b64_decode P) (su_master P) (su_draw P) cfg of
        Inl e \<Rightarrow> (Inl (KmsBuildFailed e), s2)
      | Inr kms \<Rightarrow>
          (Inr (\<lparr>ap_raft_node = map_option fst started, ap_kms = kms, ap_dek_cache = cache_new (cf_dek_cache_ttl_secs cfg),
                 ap_allowlist = allowlist, ap_trust_proxy = cf_trust_proxy cfg, ap_pg_targets = pg_targets,
                 ap_node_id = cf_node_id cfg, ap_auth_max_failures = cf_auth_max_failures cfg,
                 ap_auth_lockout_secs = cf_auth_lockout_secs cfg, ap_auth_window_secs = cf_auth_window_secs cfg,
                 ap_token_touch_secs = cf_token_touch_secs cfg, ap_kms_rewrap_enabled = cf_kms_rewrap_enabled cfg,
                 ap_kms_rewrap_max_per_sec = cf_kms_rewrap_max_per_sec cfg, ap_rewrap_busy = False\<rparr>,
                map_option snd started), s2)))))))"

section \<open>Serving\<close>

record 'n serving =
  sg_state :: "'n AppState"
  sg_raft_port :: "raft_port option"
  sg_rotation_poll_secs :: u64
  sg_rewrap_poll_secs :: "u64 option"
  sg_listen :: SocketAddr

definition vault_serve ::
  "('l, 'm, 'b, 'x, 'p, 'r, 'q, 'n) startup \<Rightarrow> process_env \<Rightarrow> ('b, 'x) raft_db \<times> 'q \<Rightarrow>
   (start_error + 'n serving) \<times> ('b, 'x) raft_db \<times> 'q" where
  "vault_serve P env s =
     (case from_env env of
        Inl e \<Rightarrow> (Inl (ConfigInvalid e), s)
      | Inr cfg \<Rightarrow>
          (if length (cf_peers cfg) > 1 \<and> self_addr cfg = None then (Inl (NodeNotInPeers (cf_node_id cfg)), s)
           else
             (case build_state P cfg s of
                (Inl e, s1) \<Rightarrow> (Inl e, s1)
              | (Inr (state, port), s1) \<Rightarrow>
                  (if su_can_bind P (cf_api_listen cfg)
                   then (Inr \<lparr>sg_state = state, sg_raft_port = port, sg_rotation_poll_secs = cf_rotation_poll_secs cfg,
                              sg_rewrap_poll_secs =
                                (if cf_kms_rewrap_enabled cfg then Some (cf_kms_rewrap_poll_secs cfg) else None),
                              sg_listen = cf_api_listen cfg\<rparr>, s1)
                   else (Inl (BindFailed (cf_api_listen cfg)), s1)))))"

end
