(* ===== verification/Startup_Laws.thy ===== *)
theory Startup_Laws
  imports Startup Access_Laws Raft_Snapshots
begin

text \<open>
  What a start leaves behind: a consistent store, the first token, the list of rotation targets,
  and a service that is safe from its first request on.
\<close>

section \<open>The store\<close>

lemma seed_bootstrap_token_cases:
  "seed_bootstrap_token cd sha256 now token st = (res, st') \<Longrightarrow>
     st' = st \<or> (\<exists>t. token = Some t \<and> res = Inr () \<and>
       redb_apply cd (AddToken (bootstrap_record (fingerprint sha256 t) now)) st = (Inr (), st'))"
  by (auto simp: seed_bootstrap_token_def Let_def redb_apply_def split: option.splits sum.splits prod.splits StoreError.splits)

lemma seed_bootstrap_token_inv:
  assumes "codec_ok cd" "vault_inv cd (redb_db st)" "seed_bootstrap_token cd sha256 now token st = (res, st')"
  shows "vault_inv cd (redb_db st')"
proof -
  have ok: "command_ok cd (AddToken t)" for t by (simp add: command_ok_def)
  show ?thesis
    using seed_bootstrap_token_cases [OF assms(3)] redb.write_inv [OF assms(1,2) ok] assms(2) by blast
qed

lemma normalize_raft_log_db: "rd_db (snd (normalize_raft_log rc r)) = rd_db r"
  by (simp add: normalize_raft_log_def Let_def write_meta_def split: sum.split option.split)

lemma reset_raft_state_db: "rd_db (reset_raft_state r) = rd_db r"
  by (simp add: reset_raft_state_def)

definition raft_new_keeps :: "'b codec \<Rightarrow> (u64 \<Rightarrow> raft_config \<Rightarrow> PeerAuth \<Rightarrow> ('b, 'x) raft_db \<Rightarrow> bool \<times> ('b, 'x) raft_db) \<Rightarrow> bool" where
  "raft_new_keeps cd raft_new \<longleftrightarrow>
     (\<forall>i c a r. vault_inv cd (rd_db r) \<longrightarrow> vault_inv cd (rd_db (snd (raft_new i c a r))))"

lemma build_raft_inv:
  "raft_new_keeps cd raft_new \<Longrightarrow> build_raft raft_new i c a r = (res, r') \<Longrightarrow> vault_inv cd (rd_db r) \<Longrightarrow> vault_inv cd (rd_db r')"
  by (auto simp: raft_new_keeps_def build_raft_def split: prod.splits) (metis snd_conv)

lemma node_start_inv:
  assumes "raft_new_keeps cd raft_new" "node_start rc validate raft_new ops i peers auth (r, q) = (res, r', q')"
    "vault_inv cd (rd_db r)"
  shows "vault_inv cd (rd_db r')"
proof -
  have n: "vault_inv cd (rd_db r1)" if "normalize_raft_log rc r = (x, r1)" for x r1
    using normalize_raft_log_db [of rc r] that assms(3) by simp
  have reset: "vault_inv cd (rd_db (reset_raft_state r1))" if "vault_inv cd (rd_db r1)" for r1 :: "('a, 'b) raft_db"
    using that by (simp add: reset_raft_state_db)
  note b = build_raft_inv [OF assms(1)]
  show ?thesis
    using assms(2,3) unfolding node_start_def Let_def
    by (auto split: if_splits prod.splits sum.splits bool.splits dest!: n b intro: reset dest: reset)
qed

lemma start_cluster_inv:
  assumes "raft_new_keeps cd (su_raft_new P)" "start_cluster P cfg (r, q) = (res, r', q')" "vault_inv cd (rd_db r)"
  shows "vault_inv cd (rd_db r')"
  using assms(2,3) unfolding start_cluster_def
  by (auto split: sum.splits prod.splits dest!: node_start_inv [OF assms(1)])

text \<open>How a start proceeds: it stops at the first failure, and everything it did is on the disk.\<close>

lemma build_state_steps:
  assumes "build_state P cfg (r, q) = (res, r', q')" "allowlist_parse (su_ipnet P) (cf_allowed_ips cfg) = Inr allowlist"
    "seed_bootstrap_token (su_codec P) (su_sha256 P) (su_now P) (cf_bootstrap_token cfg)
       (from_database (su_codec P) (rd_db r) (cf_node_id cfg)) = (seeded, st)"
  shows "(r' = r\<lparr>rd_db := redb_db st\<rparr> \<and> (\<forall>state port. res = Inr (state, port) \<longrightarrow> \<not> 1 < length (cf_peers cfg) \<and> ap_raft_node state = None)) \<or>
    (1 < length (cf_peers cfg) \<and> (\<exists>res1. start_cluster P cfg (r\<lparr>rd_db := redb_db st\<rparr>, q) = (res1, r', q')) \<and>
     (\<forall>state port. res = Inr (state, port) \<longrightarrow> ap_raft_node state \<noteq> None))"
  using assms unfolding build_state_def Let_def
  by (auto split: sum.splits prod.splits if_splits)

lemma build_state_inv:
  assumes "codec_ok (su_codec P)" "raft_new_keeps (su_codec P) (su_raft_new P)" "vault_inv (su_codec P) (rd_db r)"
    "build_state P cfg (r, q) = (res, r', q')"
  shows "vault_inv (su_codec P) (rd_db r')"
proof (cases "allowlist_parse (su_ipnet P) (cf_allowed_ips cfg)")
  case (Inl e)
  then show ?thesis using assms(3,4) by (simp add: build_state_def)
next
  case (Inr allowlist)
  obtain seeded st where st: "seed_bootstrap_token (su_codec P) (su_sha256 P) (su_now P) (cf_bootstrap_token cfg)
       (from_database (su_codec P) (rd_db r) (cf_node_id cfg)) = (seeded, st)" by force
  have inv: "vault_inv (su_codec P) (redb_db st)"
    using seed_bootstrap_token_inv [OF assms(1) _ st] seed_admin_role_inv [OF assms(1,3)] by (simp add: from_database_def)
  show ?thesis
    using build_state_steps [OF assms(4) Inr st]
  proof (elim disjE conjE exE)
    fix res1
    assume "start_cluster P cfg (r\<lparr>rd_db := redb_db st\<rparr>, q) = (res1, r', q')"
    from start_cluster_inv [OF assms(2) this] inv show ?thesis by simp
  qed (use inv in simp)
qed

section \<open>The service that was started\<close>

text \<open>The environment of the handlers, with the fields that \<open>AppState\<close> provides.\<close>

definition app_env :: "'n ipnet \<Rightarrow> 'n AppState \<Rightarrow> ('b, 's) env \<Rightarrow> ('b, 's) env" where
  "app_env N state E =
     E\<lparr>e_kms := ap_kms state, e_pg_targets := ap_pg_targets state, e_clustered := ap_raft_node state \<noteq> None,
       e_node_id := ap_node_id state, e_auth_max_failures := ap_auth_max_failures state,
       e_auth_lockout_secs := ap_auth_lockout_secs state, e_auth_window_secs := ap_auth_window_secs state,
       e_token_touch_secs := ap_token_touch_secs state, e_kms_rewrap_enabled := ap_kms_rewrap_enabled state,
       e_trust_proxy := ap_trust_proxy state, e_allowed := allowlist_contains N (ap_allowlist state)\<rparr>"

definition first_world :: "'n AppState \<Rightarrow> 's \<Rightarrow> 's world" where
  "first_world state st =
     \<lparr>w_store = st, w_cache = ap_dek_cache state, w_calls = 0, w_attempts = [], w_rewrap_busy = ap_rewrap_busy state\<rparr>"

lemma app_env_store:
  "e_codec (app_env N state E) = e_codec E" "e_store_view (app_env N state E) = e_store_view E"
  "e_store_apply (app_env N state E) = e_store_apply E" "e_store_restore (app_env N state E) = e_store_restore E"
  "e_store_node (app_env N state E) = e_store_node E" "e_others (app_env N state E) = e_others E"
  "e_pg_targets (app_env N state E) = ap_pg_targets state"
  by (simp_all add: app_env_def)

lemma app_env_ok: "store_ok E \<Longrightarrow> store_ok (app_env N state E)"
  unfolding store_ok_def restore_as_command_def app_env_store .


section \<open>The first token\<close>

lemma bearer_token_trim: "bearer_token (bearer t) = (if trim t = [] then None else Some (trim t))"
  by (simp add: bearer_token_def bearer_def strip_prefix_def starts_with_def Let_def)

lemma seeded_on_fresh_disk:
  assumes "codec_ok cd" "seed_bootstrap_token cd sha256 now (Some t) (from_database cd empty_db i) = (res, st)"
  shows "TOKENS (redb_db st) = [(fingerprint sha256 t, enc_token cd (bootstrap_record (fingerprint sha256 t) now))]"
    "ROLES (redb_db st) = [(''admin'', enc_role cd admin_role)]"
  using assms(2)
  by (auto simp: seed_bootstrap_token_def from_database_def seed_admin_role_def empty_db_def tget_def Let_def
      token_by_fingerprint_def decode_opt_def redb_apply_def apply_add_token_def bootstrap_record_def)

text \<open>
  C29: the bootstrap token. After a first start on an empty disk, a request with the configured
  token acts as administrator, provided the token has no blanks around it; a token
  that has them is stored as it is but compared without them, so that nobody can use it.
\<close>

theorem bootstrap_token_admits:
  assumes "codec_ok (su_codec P)" "rd_db r = empty_db" "cf_bootstrap_token cfg = Some t" "length (cf_peers cfg) \<le> 1"
    "build_state P cfg (r, q) = (Inr (state, port), r', q')"
    and "quiet E" "e_codec E = su_codec P" "e_sha256 E = su_sha256 P" "e_store_view E (w_store w) = rd_db r'"
  shows "if trim t \<noteq> [] \<and> fingerprint (su_sha256 P) (trim t) = fingerprint (su_sha256 P) t
    then (\<exists>actor w'. admin_actor E (bearer t) w = (Inr actor, w') \<and> aa_is_admin actor)
    else (\<exists>e. fst (admin_actor E (bearer t) w) = Inl e)"
proof -
  let ?cd = "su_codec P" and ?sha = "su_sha256 P"
  obtain allowlist where al: "allowlist_parse (su_ipnet P) (cf_allowed_ips cfg) = Inr allowlist"
    using assms(5) by (auto simp: build_state_def split: sum.splits)
  obtain seeded st where st: "seed_bootstrap_token ?cd ?sha (su_now P) (Some t) (from_database ?cd empty_db (cf_node_id cfg)) = (seeded, st)"
    by force
  have r': "rd_db r' = redb_db st"
    using build_state_steps [OF assms(5) al] st assms(2-4) by force
  note E = codec_okD [OF assms(1)]
  have "rights_of E (rd_db r') (bearer t) =
      (if trim t \<noteq> [] \<and> fingerprint ?sha (trim t) = fingerprint ?sha t then Some (True, []) else None)"
    using seeded_on_fresh_disk [OF assms(1) st] unfolding r'
    by (simp add: rights_of_def bearer_token_trim assms(7,8) token_by_fingerprint_def reader_role_def decode_opt_def tget_def
        E bootstrap_record_def admin_role_def)
  then show ?thesis
    using rights_admin_actor [OF assms(6), of w "bearer t"] admin_actor_rights [OF assms(6), of "bearer t" w]
    unfolding assms(9) by (cases "admin_actor E (bearer t) w"; cases "fst (admin_actor E (bearer t) w)")
      (auto simp: bearer_def peer_ip_def split: if_splits)
qed

section \<open>The rotation targets\<close>

lemma push_host_set: "set (push_host hp hosts) = insert (to_ascii_lowercase (fst hp), snd hp) (set hosts)"
  by (auto simp: push_host_def Let_def list_ex_iff split: if_splits prod.splits)

lemma seeded_hosts:
  "set (foldl (\<lambda>parsed entry. let hp = split_hostport (trim entry) in if fst hp = [] then parsed else push_host hp parsed) hosts entries) =
   set hosts \<union> (\<lambda>e. (to_ascii_lowercase (fst (split_hostport (trim e))), snd (split_hostport (trim e)))) `
     {e \<in> set entries. fst (split_hostport (trim e)) \<noteq> []}"
proof (induction entries arbitrary: hosts)
  case (Cons e entries)
  have "{e' \<in> set (e # entries). fst (split_hostport (trim e')) \<noteq> []} =
      (if fst (split_hostport (trim e)) = [] then {} else {e}) \<union> {e' \<in> set entries. fst (split_hostport (trim e')) \<noteq> []}"
    by auto
  then show ?case by (simp add: Cons.IH [unfolded Let_def] Let_def push_host_set)
qed simp

lemma from_hosts_hosts: "from_hosts hosts mode cc = Inr policy \<Longrightarrow> pt_hosts policy = hosts"
  by (auto simp: from_hosts_def split: if_splits PgTlsMode.splits sum.splits)

text \<open>
  Without a configured list, the rotation targets are exactly those already stored. A host is
  allowed if and only if some stored target names it, up to letter case, blanks around the stored
  entry, and the default port; so stored secrets keep rotating after a restart and no
  other host becomes reachable.
\<close>

theorem stored_targets_allowed:
  assumes "trim (cf_pg_target_hosts cfg) = []" "list_secrets cd d = Inr secrets"
    "build_pg_target_policy cd client_config cfg d = Inr policy"
  shows "policy_allows policy hostport \<longleftrightarrow>
    (\<exists>s e. s \<in> set secrets \<and> e \<in> set (target_hosts s) \<and> fst (split_hostport (trim e)) \<noteq> [] \<and>
       to_ascii_lowercase (fst (split_hostport (trim e))) = to_ascii_lowercase (fst (split_hostport hostport)) \<and>
       snd (split_hostport (trim e)) = snd (split_hostport hostport))"
proof -
  have "policy_seeded (concat (map target_hosts secrets)) (cf_pg_target_tls cfg) (client_config (cf_pg_target_ca_file cfg)) = Inr policy"
    using assms by (auto simp: build_pg_target_policy_def Let_def split: sum.splits)
  then have "set (pt_hosts policy) =
      (\<lambda>e. (to_ascii_lowercase (fst (split_hostport (trim e))), snd (split_hostport (trim e)))) `
        {e \<in> set (concat (map target_hosts secrets)). fst (split_hostport (trim e)) \<noteq> []}"
    unfolding policy_seeded_def using from_hosts_hosts seeded_hosts [of "[]"] by fastforce
  then show ?thesis
    by (force simp: policy_allows_def Let_def list_ex_iff)
qed

section \<open>A first start\<close>

definition sample_config :: Config where
  "sample_config =
     \<lparr>cf_node_id = 1, cf_peers = [], cf_api_listen = SocketV4 (Ipv4 0 0 0 0) 8200, cf_db_path = ''vault.redb'',
      cf_bootstrap_token = Some ''root'', cf_allowed_ips = [], cf_trust_proxy = False, cf_read_consistency_linearizable = False,
      cf_kms_mode = Local, cf_kms_key_id = [], cf_local_master_key_b64 = None, cf_raft_bind = ''0.0.0.0'',
      cf_cluster_token = None, cf_cluster_auth_required = False, cf_raft_peer_check = False, cf_rotation_poll_secs = 15,
      cf_pg_target_hosts = [], cf_pg_target_tls = Prefer, cf_pg_target_ca_file = None, cf_dek_cache_ttl_secs = 300,
      cf_kms_max_retries = 5, cf_kms_rewrap_enabled = False, cf_kms_rewrap_poll_secs = 86400, cf_kms_rewrap_max_per_sec = 10,
      cf_auth_max_failures = 5, cf_auth_lockout_secs = 900, cf_auth_window_secs = 300, cf_token_touch_secs = 300\<rparr>"

definition sample_startup :: "(nat, nat, row, jval, nat, nat, unit, unit) startup" where
  "sample_startup =
     \<lparr>su_codec = row_codec, su_raft_codec = jval_codec,
      su_ipnet = \<lparr>net_from_str = (\<lambda>_. None), net_new = (\<lambda>_ _. None), net_contains = (\<lambda>_ _. False)\<rparr>,
      su_sha256 = (\<lambda>bs. bs), su_now = 1000, su_dns = (\<lambda>_ _. None), su_client_config = (\<lambda>_. Inr ()),
      su_validate = (\<lambda>_. True), su_raft_new = (\<lambda>_ _ _ r. (True, r)),
      su_ops = \<lparr>no_engine = \<lparr>ra_voted_for = (\<lambda>_. None), ra_append_entries = (\<lambda>_ q. (0, q)), ra_install_snapshot = (\<lambda>_ q. (0, q)),
          ra_vote = (\<lambda>_ q. (0, q)), ra_client_write = (\<lambda>_ q. (Inl WriteFailed, q)), ra_is_initialized = (\<lambda>_. None),
          ra_initialize = (\<lambda>_ q. (False, q))\<rparr>,
        no_http = (\<lambda>_ q. (None, q)), no_idle = (\<lambda>q. q), no_store = (\<lambda>_. \<lparr>redb_db = empty_db, redb_node_id = 1\<rparr>),
        no_set_store = (\<lambda>_ q. q), no_enc_command = (\<lambda>_. []), no_dec_result = (\<lambda>_. None), no_dec_bool = (\<lambda>_. None)\<rparr>,
      su_aws = (\<lambda>_. sample_kms), su_aead = prefix_aead, su_b64_decode = (\<lambda>_. None), su_master = replicate 32 7,
      su_draw = (\<lambda>_. (replicate 32 1, replicate 24 2)), su_can_bind = (\<lambda>_. True)\<rparr>"

definition sample_disk :: "row db" where
  "sample_disk =
     empty_db\<lparr>ROLES := [(''admin'', RowRole admin_role)],
       TOKENS_BY_NAME := [(''bootstrap-admin'', as_bytes ''root'')],
       TOKENS := [(as_bytes ''root'', RowToken (bootstrap_record (as_bytes ''root'') 1000))]\<rparr>"

lemma sample_seeded:
  "seed_bootstrap_token row_codec (\<lambda>bs. bs) 1000 (Some ''root'') (from_database row_codec empty_db 1) =
     (Inr (), \<lparr>redb_db = sample_disk, redb_node_id = 1\<rparr>)"
  by (simp add: seed_bootstrap_token_def from_database_def seed_admin_role_def empty_db_def tget_def Let_def sample_disk_def
      token_by_fingerprint_def decode_opt_def redb_apply_def apply_add_token_def bootstrap_record_def fingerprint_def admin_role_def
      row_codec_def)

lemma trim_blank: "trim [] = []"
  by code_simp

lemma sample_policy: "build_pg_target_policy row_codec (\<lambda>_. Inr ()) sample_config sample_disk = Inr \<lparr>pt_hosts = [], pt_mode = Prefer, pt_tls = False\<rparr>"
  by (simp add: build_pg_target_policy_def sample_config_def Let_def trim_blank list_secrets_def sample_disk_def empty_db_def map_result_def policy_seeded_def from_hosts_def)

lemma sample_build:
  "\<exists>state. build_state sample_startup sample_config (empty_raft, ()) = (Inr (state, None), empty_raft\<lparr>rd_db := sample_disk\<rparr>, ())"
proof -
  have "allowlist_parse (su_ipnet sample_startup) (cf_allowed_ips sample_config) = Inr []"
    by (simp add: sample_config_def allowlist_parse_def Let_def trim_blank)
  moreover obtain k where "kms_build (su_aws sample_startup) (su_aead sample_startup) (su_b64_decode sample_startup)
      (su_master sample_startup) (su_draw sample_startup) sample_config = Inr k"
    by (simp add: kms_build_def sample_config_def)
  moreover have "rd_db empty_raft = empty_db" "su_codec sample_startup = row_codec" "su_sha256 sample_startup = (\<lambda>bs. bs)"
    "su_now sample_startup = 1000" "su_client_config sample_startup = (\<lambda>_. Inr ())" "cf_node_id sample_config = 1"
    "cf_bootstrap_token sample_config = Some ''root''" "cf_peers sample_config = []"
    by (simp_all add: empty_raft_def sample_startup_def sample_config_def)
  ultimately show ?thesis
    using sample_seeded sample_policy by (simp add: build_state_def Let_def)
qed

theorem bootstrap_token_admits_witness:
  "\<exists>actor w'. admin_actor sample_env (bearer ''root'') (sample_world\<lparr>w_store := \<lparr>redb_db = sample_disk, redb_node_id = 1\<rparr>\<rparr>) =
     (Inr actor, w') \<and> aa_is_admin actor"
proof -
  have t: "trim ''root'' = ''root''" by (rule trim_graphic) (simp_all add: graphic_def)
  obtain state where b: "build_state sample_startup sample_config (empty_raft, ()) = (Inr (state, None), empty_raft\<lparr>rd_db := sample_disk\<rparr>, ())"
    using sample_build ..
  have "codec_ok (su_codec sample_startup)" "rd_db empty_raft = empty_db" "cf_bootstrap_token sample_config = Some ''root''"
    "length (cf_peers sample_config) \<le> 1"
    by (simp_all add: sample_startup_def sample_config_def empty_raft_def row_codec_ok)
  from bootstrap_token_admits [OF this b sample_env_quiet,
      of "sample_world\<lparr>w_store := \<lparr>redb_db = sample_disk, redb_node_id = 1\<rparr>\<rparr>"]
  show ?thesis by (simp add: t sample_startup_def) (simp add: sample_env_def)
qed

definition sample_process_env :: process_env where
  "sample_process_env key = (if key = ''VAULT_KMS_MODE'' then Some ''local'' else None)"


definition sample_pg_disk :: "row db" where
  "sample_pg_disk = empty_db\<lparr>SECRETS := [(''a'', RowSecret (sample_secret\<lparr>sr_target := Some (PgReplica
     \<lparr>pg_hosts = ['' DB1''], pg_database = ''app'', pg_role = None, pg_login_secret = None\<rparr>)\<rparr>))]\<rparr>"

theorem stored_targets_allowed_witness:
  "\<exists>policy. build_pg_target_policy row_codec (\<lambda>_. Inr ()) sample_config sample_pg_disk = Inr policy \<and>
     policy_allows policy ''db1'' \<and> \<not> policy_allows policy ''db2''"
proof -
  let ?s = "sample_secret\<lparr>sr_target := Some (PgReplica
     \<lparr>pg_hosts = ['' DB1''], pg_database = ''app'', pg_role = None, pg_login_secret = None\<rparr>)\<rparr>"
  have blank: "trim (cf_pg_target_hosts sample_config) = []" by (simp add: sample_config_def trim_blank)
  have secrets: "list_secrets row_codec sample_pg_disk = Inr [?s]"
    by (simp add: list_secrets_def sample_pg_disk_def map_result_def row_codec_def)
  have "\<exists>policy. policy_seeded hs mode (Inr ()) = Inr policy" for hs mode
    by (simp add: policy_seeded_def from_hosts_def split: PgTlsMode.split)
  then obtain policy where "policy_seeded (concat (map target_hosts [?s])) (cf_pg_target_tls sample_config) (Inr ()) = Inr policy"
    by blast
  then have p: "build_pg_target_policy row_codec (\<lambda>_. Inr ()) sample_config sample_pg_disk = Inr policy"
    using blank secrets by (simp add: build_pg_target_policy_def)
  have "target_hosts ?s = ['' DB1'']" by (simp add: target_hosts_def)
  moreover have "trim '' DB1'' = ''DB1''" "to_ascii_lowercase ''DB1'' = ''db1''" "to_ascii_lowercase ''db1'' = ''db1''"
    "to_ascii_lowercase ''db2'' = ''db2''"
    by code_simp+
  moreover have "split_hostport ''DB1'' = (''DB1'', 5432)" "split_hostport ''db1'' = (''db1'', 5432)" "split_hostport ''db2'' = (''db2'', 5432)"
    by (simp_all add: split_hostport_def strip_prefix_def starts_with_def rsplit_once_def DEFAULT_PG_PORT_def)
  ultimately show ?thesis
    using stored_targets_allowed [OF blank secrets p] p by auto
qed

end
