(* ===== verification/Pg_Connect.thy ===== *)
theory Pg_Connect
  imports Startup_Laws
begin

text \<open>
  The rest of \<open>pg_apply.rs\<close>: loading the trusted certificates, one connection attempt with its
  query, and what the start-up log of \<open>lib.rs\<close> says about the resulting policy and about the
  raft port. The TLS library, the system's certificate store and the Postgres driver are
  parameters; \<open>cert_lib_ok\<close> states what the code relies on of the first: adding a certificate
  makes the store larger, and the count of added certificates is right.

  The query's single column is a boolean, as the called database function is declared; the driver
  would panic on a NULL.
\<close>

section \<open>The policy\<close>

definition policy_is_empty :: "PgTargetPolicy \<Rightarrow> bool" where
  "policy_is_empty p \<longleftrightarrow> pt_hosts p = []"

definition policy_len :: "PgTargetPolicy \<Rightarrow> nat" where
  "policy_len p = length (pt_hosts p)"

definition tls_enabled :: "PgTargetPolicy \<Rightarrow> bool" where
  "tls_enabled p \<longleftrightarrow> pt_tls p"

definition tls_required :: "PgTargetPolicy \<Rightarrow> bool" where
  "tls_required p \<longleftrightarrow> pt_tls p \<and> pt_mode p = VerifyFull"

section \<open>Trusted certificates\<close>

record 'c cert_lib =
  cl_pem_file_iter :: "string \<Rightarrow> 'c option list option"
  cl_add :: "'c list \<Rightarrow> 'c \<Rightarrow> 'c list option"
  cl_native_certs :: "'c list"
  cl_add_parsable :: "'c list \<Rightarrow> 'c list \<Rightarrow> 'c list \<times> nat"
  cl_safe_protocols :: bool

datatype cert_error =
    CaFileOpen string
  | CaFileRead string
  | CaRejected
  | CaFileEmpty string
  | NoSystemCertificates
  | TlsConfigFailed

fun add_certs :: "'c cert_lib \<Rightarrow> string \<Rightarrow> 'c option list \<Rightarrow> 'c list \<Rightarrow> nat \<Rightarrow> cert_error + 'c list \<times> nat" where
  "add_certs L path [] roots added = Inr (roots, added)"
| "add_certs L path (cert # certs) roots added =
     (case cert of
        None \<Rightarrow> Inl (CaFileRead path)
      | Some c \<Rightarrow>
          (case cl_add L roots c of
             None \<Rightarrow> Inl CaRejected
           | Some roots' \<Rightarrow> add_certs L path certs roots' (Suc added)))"

definition client_config :: "'c cert_lib \<Rightarrow> string option \<Rightarrow> cert_error + 'c list" where
  "client_config L ca_file =
     and_then
       (case ca_file of
          Some path \<Rightarrow>
            (case cl_pem_file_iter L path of
               None \<Rightarrow> Inl (CaFileOpen path)
             | Some certs \<Rightarrow>
                 and_then (add_certs L path certs [] 0) (\<lambda>(roots, added).
                 if added = 0 then Inl (CaFileEmpty path) else Inr roots))
        | None \<Rightarrow>
            (case cl_add_parsable L [] (cl_native_certs L) of
               (roots, added) \<Rightarrow> if added = 0 then Inl NoSystemCertificates else Inr roots)) (\<lambda>roots.
     if cl_safe_protocols L then Inr roots else Inl TlsConfigFailed)"

text \<open>What the policy keeps of it: whether a TLS connector could be made.\<close>

definition connector_result :: "cert_error + 'c list \<Rightarrow> pg_error + unit" where
  "connector_result r = (case r of Inl _ \<Rightarrow> Inl NoCertificates | Inr _ \<Rightarrow> Inr ())"

section \<open>One attempt\<close>

definition CONNECT_TIMEOUT :: nat where "CONNECT_TIMEOUT = 5"

datatype connect_outcome = Connected | ConnectError | ConnectElapsed

text \<open>The driver: connecting within a timeout, and a query that returns one row.\<close>

record pg_lib =
  pl_connect :: "nat \<Rightarrow> nat \<Rightarrow> pg_attempt \<Rightarrow> connect_outcome"
  pl_query_one :: "nat \<Rightarrow> string \<Rightarrow> string list \<Rightarrow> bool option"

datatype rotate_error =
    ConnectFailed string nat
  | ConnectTimedOut string nat
  | RotateCredentialFailed string nat

definition rotate_query :: string where
  "rotate_query = ''SELECT replica.rotate_credential($1, $2)''"

definition rotate_with :: "pg_lib \<Rightarrow> nat \<Rightarrow> pg_attempt \<Rightarrow> rotate_error + bool" where
  "rotate_with D n a =
     (case pl_connect D n CONNECT_TIMEOUT a of
        ConnectError \<Rightarrow> Inl (ConnectFailed (pa_host a) (pa_port a))
      | ConnectElapsed \<Rightarrow> Inl (ConnectTimedOut (pa_host a) (pa_port a))
      | Connected \<Rightarrow>
          (case pl_query_one D n rotate_query [pa_role a, pa_new_password a] of
             Some accepted \<Rightarrow> Inr accepted
           | None \<Rightarrow> Inl (RotateCredentialFailed (pa_host a) (pa_port a))))"

definition driver_of :: "pg_lib \<Rightarrow> pg_driver" where
  "driver_of D n a = (case rotate_with D n a of Inr accepted \<Rightarrow> Some accepted | Inl _ \<Rightarrow> None)"

section \<open>What the log says\<close>

datatype target_log =
    NoTargetsInfo
  | HostsSeededWarn "string list"
  | HostsLoadedInfo "string list"
  | TlsVerifiedInfo
  | TlsPreferWarn
  | TlsDisableWarn

definition log_pg_target_policy :: "PgTargetPolicy \<Rightarrow> bool \<Rightarrow> target_log list" where
  "log_pg_target_policy p seeded =
     (if policy_is_empty p then [NoTargetsInfo]
      else
        [if seeded then HostsSeededWarn (policy_hosts p) else HostsLoadedInfo (policy_hosts p),
         if tls_required p then TlsVerifiedInfo
         else if tls_enabled p then TlsPreferWarn
         else TlsDisableWarn])"

datatype peer_log =
    CredentialRequiredInfo
  | CredentialOptionalWarn
  | CredentialUnsetWarn
  | PeersOnlyInfo nat
  | PeerCheckOffWarn

definition log_peer_guard :: "PeerAuth \<Rightarrow> PeerAddrs \<Rightarrow> peer_log list" where
  "log_peer_guard auth peers =
     [if pa_required auth then CredentialRequiredInfo
      else if peer_auth_configured auth then CredentialOptionalWarn
      else CredentialUnsetWarn,
      if pe_enabled peers then PeersOnlyInfo (resolved_len peers) else PeerCheckOffWarn]"

section \<open>Laws\<close>

definition cert_lib_ok :: "'c cert_lib \<Rightarrow> bool" where
  "cert_lib_ok L \<longleftrightarrow>
     (\<forall>roots c roots'. cl_add L roots c = Some roots' \<longrightarrow> length roots' = Suc (length roots)) \<and>
     (\<forall>roots certs roots' added. cl_add_parsable L roots certs = (roots', added) \<longrightarrow>
        length roots' = length roots + added)"

lemma cert_lib_okD:
  assumes "cert_lib_ok L"
  shows "cl_add L roots c = Some roots' \<Longrightarrow> length roots' = Suc (length roots)"
    and "cl_add_parsable L roots certs = (roots', added) \<Longrightarrow> length roots' = length roots + added"
  using assms unfolding cert_lib_ok_def by blast+

lemma add_certs_length:
  assumes "cert_lib_ok L" "add_certs L path certs roots added = Inr (roots', added')"
  shows "length roots' + added = length roots + added'"
  using assms(2)
proof (induction certs arbitrary: roots added)
  case (Cons cert certs)
  then obtain c roots1 where "cl_add L roots c = Some roots1"
    "add_certs L path certs roots1 (Suc added) = Inr (roots', added')"
    by (auto split: option.splits)
  then show ?case using Cons.IH cert_lib_okD(1) [OF assms(1)] by fastforce
qed simp

lemma client_config_nonempty:
  assumes "cert_lib_ok L" "client_config L ca_file = Inr roots"
  shows "roots \<noteq> []"
proof
  assume "roots = []"
  show False
  proof (cases ca_file)
    case None
    then show ?thesis
      using assms(2) \<open>roots = []\<close> cert_lib_okD(2) [OF assms(1), of "[]"]
      by (fastforce simp: client_config_def and_then_Inr split: prod.splits if_splits)
  next
    case (Some path)
    then show ?thesis
      using assms(2) \<open>roots = []\<close> add_certs_length [OF assms(1), of path _ "[]" 0 "[]"]
      by (fastforce simp: client_config_def and_then_Inr split: option.splits prod.splits if_splits)
  qed
qed

lemma from_hosts_ok:
  assumes "from_hosts hosts mode cc = Inr p"
  shows "pt_hosts p = hosts" "pt_mode p = mode" "pt_tls p \<longleftrightarrow> hosts \<noteq> [] \<and> mode \<noteq> Disable \<and> is_ok cc"
    "mode = VerifyFull \<Longrightarrow> hosts \<noteq> [] \<Longrightarrow> is_ok cc"
  using assms by (auto simp: from_hosts_def split: if_splits PgTlsMode.splits sum.splits)

lemma connector_result_ok: "is_ok (connector_result r) \<longleftrightarrow> (\<exists>roots. r = Inr roots)"
  by (cases r) (auto simp: connector_result_def)

lemma driver_of_accepts:
  "driver_of D n a = Some True \<longleftrightarrow>
     pl_connect D n CONNECT_TIMEOUT a = Connected \<and>
     pl_query_one D n rotate_query [pa_role a, pa_new_password a] = Some True"
  by (auto simp: driver_of_def rotate_with_def split: connect_outcome.split option.split)

lemma apply_password_carries:
  "list_all (\<lambda>a. pa_role a = role \<and> pa_new_password a = new_password)
     (snd (apply_password pg n p target user password role new_password))"
  using try_hosts_attempts
  by (fastforce simp: apply_password_def list.pred_set try_rotate_def Let_def split: sum.split)

lemma build_policy_tls:
  assumes "build_pg_target_policy cd cc cfg d = Inr p"
  shows "pt_mode p = cf_pg_target_tls cfg"
    and "pt_tls p \<longleftrightarrow> pt_hosts p \<noteq> [] \<and> cf_pg_target_tls cfg \<noteq> Disable \<and> is_ok (cc (cf_pg_target_ca_file cfg))"
    and "cf_pg_target_tls cfg = VerifyFull \<Longrightarrow> pt_hosts p \<noteq> [] \<Longrightarrow> is_ok (cc (cf_pg_target_ca_file cfg))"
proof -
  obtain hosts where *: "from_hosts hosts (cf_pg_target_tls cfg) (cc (cf_pg_target_ca_file cfg)) = Inr p"
    using assms
    by (auto simp: build_pg_target_policy_def policy_build_def policy_seeded_def Let_def split: if_splits sum.splits)
  show "pt_mode p = cf_pg_target_tls cfg"
    "pt_tls p \<longleftrightarrow> pt_hosts p \<noteq> [] \<and> cf_pg_target_tls cfg \<noteq> Disable \<and> is_ok (cc (cf_pg_target_ca_file cfg))"
    "cf_pg_target_tls cfg = VerifyFull \<Longrightarrow> pt_hosts p \<noteq> [] \<Longrightarrow> is_ok (cc (cf_pg_target_ca_file cfg))"
    using from_hosts_ok [OF *] by simp_all
qed

text \<open>
  C17: with verified TLS configured, a rotation reaches Postgres only so. Every attempt goes to an
  allowed host and requires TLS; attempts are made only by a node that loaded at least one trusted
  certificate; and the password counts as changed exactly if one of the attempts connected in time
  and the database function, called with the role and the new password, returned true.
\<close>

theorem verified_rotation:
  assumes "cert_lib_ok L" "cf_pg_target_tls cfg = VerifyFull"
    "build_pg_target_policy cd (\<lambda>ca. connector_result (client_config L ca)) cfg d = Inr p"
  shows "let (res, attempts) = apply_password (driver_of D) n p target user password role new_password in
    list_all (\<lambda>a. pa_ssl a = SslRequire \<and> (to_ascii_lowercase (pa_host a), pa_port a) \<in> set (pt_hosts p)) attempts \<and>
    (attempts = [] \<or> (\<exists>roots. client_config L (cf_pg_target_ca_file cfg) = Inr roots \<and> roots \<noteq> [])) \<and>
    (res = Inr () \<longleftrightarrow>
       (\<exists>i < length attempts. pl_connect D (n + i) CONNECT_TIMEOUT (attempts ! i) = Connected \<and>
          pl_query_one D (n + i) rotate_query [role, new_password] = Some True))"
proof -
  let ?r = "apply_password (driver_of D) n p target user password role new_password"
  have confined: "list_all (attempt_confined p) (snd ?r)"
    and offers: "list_all (\<lambda>a. pa_role a = role \<and> pa_new_password a = new_password) (snd ?r)"
    by (rule apply_password_attempts apply_password_carries)+
  have hosts: "snd ?r = [] \<or> pt_hosts p \<noteq> []"
    using confined by (cases "snd ?r") (auto simp: attempt_confined_def)
  note tls = build_policy_tls [OF assms(3), unfolded connector_result_ok]
  have "list_all (\<lambda>a. pa_ssl a = SslRequire \<and> (to_ascii_lowercase (pa_host a), pa_port a) \<in> set (pt_hosts p)) (snd ?r)"
    using confined hosts tls assms(2) by (auto simp: list.pred_set attempt_confined_def)
  moreover have "snd ?r = [] \<or> (\<exists>roots. client_config L (cf_pg_target_ca_file cfg) = Inr roots \<and> roots \<noteq> [])"
    using hosts tls(3) assms(2) client_config_nonempty [OF assms(1)] by blast
  moreover have "fst ?r = Inr () \<longleftrightarrow> (\<exists>i < length (snd ?r). driver_of D (n + i) (snd ?r ! i) = Some True)"
    using apply_password_confined [of "driver_of D" n p target user password role new_password]
    by (simp add: case_prod_beta)
  moreover have "driver_of D (n + i) (snd ?r ! i) = Some True \<longleftrightarrow>
      pl_connect D (n + i) CONNECT_TIMEOUT (snd ?r ! i) = Connected \<and>
      pl_query_one D (n + i) rotate_query [role, new_password] = Some True" if "i < length (snd ?r)" for i
    using offers that by (simp add: driver_of_accepts list_all_length)
  ultimately show ?thesis
    unfolding Let_def case_prod_beta by blast
qed

theorem verified_rotation_witness:
  "\<exists>p. build_pg_target_policy row_codec
      (\<lambda>ca. connector_result (client_config
         \<lparr>cl_pem_file_iter = (\<lambda>_. None), cl_add = (\<lambda>roots c. Some (c # roots)), cl_native_certs = [()],
          cl_add_parsable = (\<lambda>roots certs. (certs @ roots, length certs)), cl_safe_protocols = True\<rparr> ca))
      (sample_config\<lparr>cf_pg_target_hosts := ''db1'', cf_pg_target_tls := VerifyFull\<rparr>) empty_db = Inr p \<and>
    fst (apply_password
      (driver_of \<lparr>pl_connect = (\<lambda>_ _ _. Connected), pl_query_one = (\<lambda>_ _ _. Some True)\<rparr>) 0 p
      \<lparr>pg_hosts = [''DB1''], pg_database = ''app'', pg_role = None, pg_login_secret = None\<rparr> ''vault'' ''old'' ''app_role'' ''new'') = Inr () \<and>
    map pa_ssl (snd (apply_password
      (driver_of \<lparr>pl_connect = (\<lambda>_ _ _. Connected), pl_query_one = (\<lambda>_ _ _. Some True)\<rparr>) 0 p
      \<lparr>pg_hosts = [''DB1''], pg_database = ''app'', pg_role = None, pg_login_secret = None\<rparr> ''vault'' ''old'' ''app_role'' ''new'')) = [SslRequire]"
proof -
  let ?L = "\<lparr>cl_pem_file_iter = (\<lambda>_. None), cl_add = (\<lambda>roots c. Some (c # roots)), cl_native_certs = [()],
          cl_add_parsable = (\<lambda>roots certs. (certs @ roots, length certs)), cl_safe_protocols = True\<rparr>"
  let ?cfg = "sample_config\<lparr>cf_pg_target_hosts := ''db1'', cf_pg_target_tls := VerifyFull\<rparr>"
  let ?D = "\<lparr>pl_connect = (\<lambda>_ _ _. Connected), pl_query_one = (\<lambda>_ _ _. Some True)\<rparr>"
  let ?t = "\<lparr>pg_hosts = [''DB1''], pg_database = ''app'', pg_role = None, pg_login_secret = None\<rparr>"
  let ?p = "\<lparr>pt_hosts = [(''db1'', 5432)], pt_mode = VerifyFull, pt_tls = True\<rparr>"
  have low: "to_ascii_lowercase ''DB1'' = ''db1''" "to_ascii_lowercase ''db1'' = ''db1''" "trim ''db1'' = ''db1''"
    "split_on (CHR '','') ''db1'' = [''db1'']"
    by code_simp+
  have port: "split_hostport ''DB1'' = (''DB1'', 5432)" "split_hostport ''db1'' = (''db1'', 5432)"
    by (simp_all add: split_hostport_def strip_prefix_def starts_with_def rsplit_once_def DEFAULT_PG_PORT_def)
  have "parse_hosts ''db1'' = Inr [(''db1'', 5432)]"
    using low port by (simp add: parse_hosts_def push_host_def)
  note h = this low port
  have b: "build_pg_target_policy row_codec (\<lambda>ca. connector_result (client_config ?L ca)) ?cfg empty_db = Inr ?p"
    using h by (simp add: build_pg_target_policy_def policy_build_def from_hosts_def client_config_def
        connector_result_def sample_config_def and_then_def)
  have ok: "cert_lib_ok ?L" by (simp add: cert_lib_ok_def)
  have a: "length (snd (apply_password (driver_of ?D) 0 ?p ?t ''vault'' ''old'' ''app_role'' ''new'')) = 1"
    using h by (simp add: apply_password_def policy_check_def policy_allows_def driver_of_def rotate_with_def Let_def)
  have len1: "map pa_ssl xs = [SslRequire]" if "length xs = 1" "list_all (\<lambda>a. pa_ssl a = SslRequire \<and> Q a) xs" for xs Q
    using that by (cases xs) auto
  have mode: "cf_pg_target_tls ?cfg = VerifyFull" by simp
  note v = verified_rotation [OF ok mode b, of ?D 0 ?t "''vault''" "''old''" "''app_role''" "''new''", unfolded case_prod_beta Let_def]
  have "fst (apply_password (driver_of ?D) 0 ?p ?t ''vault'' ''old'' ''app_role'' ''new'') = Inr ()"
    using v a by simp
  moreover have "map pa_ssl (snd (apply_password (driver_of ?D) 0 ?p ?t ''vault'' ''old'' ''app_role'' ''new'')) = [SslRequire]"
    by (rule len1 [OF a conjunct1 [OF v]])
  ultimately show ?thesis by (intro exI [of _ ?p] conjI b)
qed

text \<open>
  The log tells plaintext rotations apart from verified ones: it reports verification exactly if no
  attempt can be without TLS. It names the wrong cause, though, for the mode that prefers TLS: with
  no usable certificate store the line says that the setting is to disable it.
\<close>

theorem log_matches_policy:
  assumes "build_pg_target_policy cd cc cfg d = Inr p" "pt_hosts p \<noteq> []"
  shows "TlsVerifiedInfo \<in> set (log_pg_target_policy p seeded) \<longleftrightarrow> cf_pg_target_tls cfg = VerifyFull"
    and "TlsDisableWarn \<in> set (log_pg_target_policy p seeded) \<longleftrightarrow>
           cf_pg_target_tls cfg = Disable \<or>
           cf_pg_target_tls cfg = Prefer \<and> \<not> is_ok (cc (cf_pg_target_ca_file cfg))"
  using assms(2) build_policy_tls [OF assms(1)]
  by (cases "cf_pg_target_tls cfg"; auto simp: log_pg_target_policy_def policy_is_empty_def tls_required_def tls_enabled_def)+

end
