(* ===== verification/Fuzz_Harness.thy ===== *)
theory Fuzz_Harness
  imports Vault_Config
begin

text \<open>
  What the fuzz targets under \<open>src/fuzz/fuzz_targets/\<close> are written with. A target is a
  function of an input chosen by the fuzzer; it calls the program and panics when an assertion
  fails. Its model returns \<open>Inl\<close> of the panic message, or \<open>Inr ()\<close> when the run ends
  without a panic; a plain \<open>return\<close> is \<open>Inr ()\<close>. Integers of the input are words
  of their width, so that every value of the model's input type is an input of the target. The
  program's own arithmetic wraps, as in a build without overflow checks.
\<close>

section \<open>Panics\<close>

named_theorems harness_simps \<open>runs that end without a panic\<close>

type_synonym 'a harness = "string + 'a"

definition assert_that :: "bool \<Rightarrow> string \<Rightarrow> unit harness" where
  "assert_that c message = (if c then Inr () else Inl message)"

definition expect_ok :: "string \<Rightarrow> 'e + 'a \<Rightarrow> 'a harness" where
  "expect_ok message r = (case r of Inl _ \<Rightarrow> Inl message | Inr a \<Rightarrow> Inr a)"

definition expect_some :: "string \<Rightarrow> 'a option \<Rightarrow> 'a harness" where
  "expect_some message x = (case x of None \<Rightarrow> Inl message | Some a \<Rightarrow> Inr a)"

fun for_each :: "('a \<Rightarrow> unit harness) \<Rightarrow> 'a list \<Rightarrow> unit harness" where
  "for_each f [] = Inr ()"
| "for_each f (x # xs) = and_then (f x) (\<lambda>_. for_each f xs)"

lemma assert_that_Inr [harness_simps]: "assert_that c message = Inr u \<longleftrightarrow> c"
  by (simp add: assert_that_def)

lemma expect_ok_Inr [harness_simps]: "expect_ok message r = Inr a \<longleftrightarrow> r = Inr a"
  by (simp add: expect_ok_def split: sum.split)

lemma expect_some_Inr [harness_simps]: "expect_some message x = Inr a \<longleftrightarrow> x = Some a"
  by (simp add: expect_some_def split: option.split)

lemma for_each_Inr [harness_simps]: "for_each f xs = Inr u \<longleftrightarrow> list_all (\<lambda>x. f x = Inr ()) xs"
  by (induction xs) (auto simp: and_then_Inr)

lemmas harness_and_then [harness_simps] = and_then_Inr

section \<open>Input values\<close>

definition i32_of :: "32 word \<Rightarrow> i32" where
  "i32_of w = sint w"

definition i64_of :: "64 word \<Rightarrow> i64" where
  "i64_of w = sint w"

lemma i32_of_range: "i32_min \<le> i32_of w" "i32_of w \<le> i32_max"
  using sint_range_size [of w] by (simp_all add: i32_of_def i32_min_def i32_max_def word_size)

text \<open>
  \<open>std::str::from_utf8\<close>: the well-formed byte sequences of the Unicode standard, which leave out
  overlong forms, surrogates and values above 10FFFF.
\<close>

definition utf8_cont :: "nat \<Rightarrow> bool" where
  "utf8_cont b \<longleftrightarrow> 128 \<le> b \<and> b \<le> 191"

fun utf8_valid :: "nat list \<Rightarrow> bool" where
  "utf8_valid [] = True"
| "utf8_valid (a # bs) =
     (if a \<le> 127 then utf8_valid bs
      else if 194 \<le> a \<and> a \<le> 223 then
        (case bs of b # rest \<Rightarrow> utf8_cont b \<and> utf8_valid rest | _ \<Rightarrow> False)
      else if 224 \<le> a \<and> a \<le> 239 then
        (case bs of
           b # c # rest \<Rightarrow>
             utf8_cont b \<and> (a = 224 \<longrightarrow> 160 \<le> b) \<and> (a = 237 \<longrightarrow> b \<le> 159) \<and> utf8_cont c \<and> utf8_valid rest
         | _ \<Rightarrow> False)
      else if 240 \<le> a \<and> a \<le> 244 then
        (case bs of
           b # c # d # rest \<Rightarrow>
             utf8_cont b \<and> (a = 240 \<longrightarrow> 144 \<le> b) \<and> (a = 244 \<longrightarrow> b \<le> 143) \<and> utf8_cont c \<and> utf8_cont d \<and>
             utf8_valid rest
         | _ \<Rightarrow> False)
      else False)"

definition from_utf8 :: "bytes \<Rightarrow> string option" where
  "from_utf8 bs = (if utf8_valid (map unat bs) then Some (of_bytes bs) else None)"

section \<open>Substrings\<close>

definition contains :: "string \<Rightarrow> string \<Rightarrow> bool" where
  "contains s t \<longleftrightarrow> sublist t s"

lemma trim_start_suffix: "suffix (trim_start s) s"
proof (induction s rule: trim_start.induct)
  case (1 s)
  show ?case
  proof (cases "strip_one ws_encodings s")
    case (Some t)
    then have "suffix t s"
      by (auto simp: strip_one_def starts_with_iff filter_eq_Cons_iff suffix_def split: list.splits)
    with 1 [OF Some] Some show ?thesis
      by (simp add: trim_start.simps [of s] suffix_order.trans [of "trim_start t" t s])
  qed (simp add: trim_start.simps [of s])
qed

lemma sublist_trim [simp]: "sublist (trim s) s"
proof -
  obtain t where "rev (trim_start s) = t @ trim_end_rev (rev (trim_start s))"
    using trim_end_rev_props by blast
  then have "trim_start s = trim s @ rev t" by (metis rev_append rev_rev_ident trim_def)
  moreover obtain u where "s = u @ trim_start s" using trim_start_suffix [of s] by (auto simp: suffix_def)
  ultimately have "s = u @ trim s @ rev t" by simp
  then show ?thesis unfolding sublist_def by blast
qed

lemma sublist_tail: "sublist b (a @ c # b)"
  using sublist_appendI [of b "a @ [c]" "[]"] by simp

lemma sublist_trans: "sublist a b \<Longrightarrow> sublist b c \<Longrightarrow> sublist a c"
  by (rule sublist_order.order.trans)

lemma sublist_split_once:
  "split_once c s = Some (a, b) \<Longrightarrow> sublist a s \<and> sublist b s"
  by (auto simp: split_once_Some sublist_tail)

lemma sublist_rsplit_once:
  "rsplit_once c s = Some (a, b) \<Longrightarrow> sublist a s \<and> sublist b s"
  by (auto simp: rsplit_once_Some sublist_tail)

lemma sublist_join: "seg \<in> set segs \<Longrightarrow> sublist seg (join_with c segs)"
proof (induction c segs rule: join_with.induct)
  case (3 c s t segs)
  then show ?case using sublist_tail [of "join_with c (t # segs)" s c] by (auto intro: sublist_trans)
qed auto

lemma sublist_split_on: "seg \<in> set (split_on c s) \<Longrightarrow> sublist seg s"
  using sublist_join [of seg "split_on c s" c] by (simp add: join_split_on)

lemma length_split_on: "length (split_on c s) = count_list s c + 1"
proof (induction s)
  case (Cons x s)
  then show ?case by (cases "split_on c s") auto
qed simp

text \<open>A number that was parsed prints as the end of the digits it was parsed from.\<close>

lemma suffix_show_digits:
  "ds \<noteq> [] \<Longrightarrow> list_all is_ascii_digit ds \<Longrightarrow> suffix (show_nat (digits_val ds)) ds"
proof (induction ds)
  case (Cons c ds)
  show ?case
  proof (cases "ds = [] \<or> c \<noteq> CHR ''0''")
    case True
    then have "show_nat (digits_val (c # ds)) = c # ds"
      using Cons.prems by (intro show_digits_val) auto
    then show ?thesis by simp
  next
    case False
    then have "digits_val (c # ds) = digits_val ds" by (simp add: digits_val_Cons digit_val_def)
    then show ?thesis using False Cons by (simp add: suffix_Cons)
  qed
qed simp

lemma parse_uint_shown:
  assumes "parse_uint m s = Some n"
  shows "sublist (show_nat n) s"
proof -
  obtain ds where ds: "suffix ds s" "ds \<noteq> []" "list_all is_ascii_digit ds" "n = digits_val ds"
  proof (cases "\<exists>r. s = CHR ''+'' # r")
    case True
    then obtain r where "s = CHR ''+'' # r" by blast
    with assms show ?thesis by (intro that [of r]) (auto simp: parse_uint_def suffix_Cons split: if_splits)
  next
    case False
    then have "parse_uint m s =
        (if s \<noteq> [] \<and> list_all is_ascii_digit s \<and> digits_val s \<le> m then Some (digits_val s) else None)"
      by (auto simp: parse_uint_def Let_def split: list.split char.split bool.split)
    with assms show ?thesis by (intro that [of s]) (auto split: if_splits)
  qed
  have "sublist (show_nat n) ds" unfolding ds(4) by (rule suffix_imp_sublist [OF suffix_show_digits [OF ds(2,3)]])
  then show ?thesis using suffix_imp_sublist [OF ds(1)] by (rule sublist_trans)
qed

end
