(* ===== verification/Fuzz_Parsers.thy ===== *)
theory Fuzz_Parsers
  imports Fuzz_Harness Guards Service Manage
begin

text \<open>
  The fuzz targets that call one parser, predicate or encoding:
  \<open>auth_fingerprint.rs\<close>, \<open>bearer_token_parse.rs\<close>, \<open>config_parse_peers.rs\<close>,
  \<open>crypto_roundtrip.rs\<close>, \<open>forwarded_for_parse.rs\<close>, \<open>ip_allowlist_parse.rs\<close>,
  \<open>local_key_from_base64.rs\<close>, \<open>name_validation.rs\<close>, \<open>pg_hostport.rs\<close>,
  \<open>rbac.rs\<close>, \<open>store_key_encoding.rs\<close> and \<open>types_aad.rs\<close>. For each there is one
  definition of the run, and a proof that no input makes it panic. The cipher can only be
  assumed to authenticate up to forgeries, so the run of \<open>crypto_roundtrip.rs\<close> is shown to
  panic only on a forgery against the cipher itself.

  The HTTP library's header values are a parameter: \<open>hv_from_bytes\<close> makes one from raw bytes
  and \<open>hv_to_str\<close> gives its text, when it is text.
\<close>

section \<open>Tokens and headers\<close>

definition run_auth_fingerprint :: "(bytes \<Rightarrow> bytes) \<Rightarrow> bytes \<Rightarrow> unit harness" where
  "run_auth_fingerprint sha256 data =
     (case from_utf8 data of
        None \<Rightarrow> Inr ()
      | Some token \<Rightarrow>
          (let fp = fingerprint sha256 token in
           and_then (assert_that (fp = fingerprint sha256 token) ''fingerprint must be deterministic'') (\<lambda>_.
           and_then (assert_that (auth_verify sha256 token fp) ''a token must verify against its own fingerprint'') (\<lambda>_.
           and_then (assert_that (fingerprints_match fp fp) ''fingerprints_match'') (\<lambda>_.
           if fp = [] then Inl ''attempt to subtract with overflow''
           else assert_that (\<not> auth_verify sha256 token (take (length fp - 1) fp))
                  ''a truncated expected fingerprint must not match'')))))"

record 'h header_lib =
  hv_from_bytes :: "bytes \<Rightarrow> 'h option"
  hv_to_str :: "'h \<Rightarrow> string option"

definition parts_with_authorization :: "'h header_lib \<Rightarrow> bytes \<Rightarrow> request_parts option" where
  "parts_with_authorization H raw =
     (case hv_from_bytes H raw of
        None \<Rightarrow> None
      | Some v \<Rightarrow> Some \<lparr>rq_authorization = hv_to_str H v, rq_forwarded_for = None, rq_connect_info = None\<rparr>)"

definition run_bearer_token_parse :: "'h header_lib \<Rightarrow> bytes \<Rightarrow> unit harness" where
  "run_bearer_token_parse H data =
     (case parts_with_authorization H data of
        None \<Rightarrow> Inr ()
      | Some parts \<Rightarrow>
          (case bearer_token parts of
             None \<Rightarrow> Inr ()
           | Some token \<Rightarrow>
               and_then (expect_some ''a token can only come from a UTF-8 header'' (rq_authorization parts)) (\<lambda>header.
               and_then (assert_that (token \<noteq> []) ''an empty token must be rejected'') (\<lambda>_.
               and_then (assert_that (contains header token) ''the returned token must appear verbatim in the header'') (\<lambda>_.
               and_then (assert_that (trim token = token) ''the returned token must be trimmed of surrounding whitespace'') (\<lambda>_.
               assert_that (starts_with ''Bearer '' header \<or> starts_with ''bearer '' header)
                 ''a token must only be accepted from a Bearer or bearer scheme''))))))"

record ForwardedForInput =
  ff_header :: bytes
  ff_send_header :: bool
  ff_peer_is_v6 :: bool
  ff_peer_v4 :: "u8 \<times> u8 \<times> u8 \<times> u8"
  ff_peer_v6 :: bytes
  ff_peer_port :: "16 word"
  ff_with_connect_info :: bool

text \<open>\<open>Ipv6Addr::from\<close> of sixteen bytes: two bytes per segment, the high one first.\<close>

fun octets_to_segments :: "bytes \<Rightarrow> 16 word list" where
  "octets_to_segments (hi # lo # rest) = word_of_nat (unat hi * 256 + unat lo) # octets_to_segments rest"
| "octets_to_segments _ = []"

definition build_forwarded :: "'h header_lib \<Rightarrow> ForwardedForInput \<Rightarrow> request_parts \<times> IpAddr option \<times> string option" where
  "build_forwarded H i =
     (let peer = (if ff_peer_is_v6 i then V6 (Ipv6 (octets_to_segments (ff_peer_v6 i)))
                  else (case ff_peer_v4 i of (a, b, c, d) \<Rightarrow> V4 (Ipv4 a b c d)));
          header_text = (if ff_send_header i
                         then (case hv_from_bytes H (ff_header i) of Some v \<Rightarrow> hv_to_str H v | None \<Rightarrow> None)
                         else None);
          socket_ip = (if ff_with_connect_info i then Some peer else None)
      in (\<lparr>rq_authorization = None, rq_forwarded_for = header_text, rq_connect_info = socket_ip\<rparr>,
          socket_ip, header_text))"

definition run_forwarded_for_parse :: "'h header_lib \<Rightarrow> ForwardedForInput \<Rightarrow> unit harness" where
  "run_forwarded_for_parse H i =
     (case build_forwarded H i of (parts, socket_ip, header_text) \<Rightarrow>
        and_then (assert_that (client_ip parts False = socket_ip)
          ''X-Forwarded-For must be ignored when VAULT_TRUST_PROXY is off'') (\<lambda>_.
        case client_ip parts True of
          None \<Rightarrow> assert_that (socket_ip = None) ''a request with a transport peer must resolve to some address''
        | Some resolved \<Rightarrow>
            (if Some resolved = socket_ip then Inr ()
             else
               and_then (expect_some ''a non-peer address must come from the header'' header_text) (\<lambda>header.
               let first = trim (hd (split_on (CHR '','') header)) in
               assert_that (ip_from_str first = Some resolved)
                 ''a trusted-proxy address must be the first X-Forwarded-For field''))))"

section \<open>Configuration and targets\<close>

definition run_config_parse_peers :: "string \<Rightarrow> unit harness" where
  "run_config_parse_peers raw =
     (case parse_peers raw of
        Inl _ \<Rightarrow> Inr ()
      | Inr peers \<Rightarrow>
          and_then (assert_that (length peers \<le> count_list raw (CHR '','') + 1)
            ''the map cannot hold more peers than there are comma-separated entries'') (\<lambda>_.
          for_each (\<lambda>(nid, addr).
            and_then (assert_that (addr \<noteq> []) ''an accepted peer address must be non-empty'') (\<lambda>_.
            and_then (assert_that (trim addr = addr) ''an accepted peer address must be trimmed'') (\<lambda>_.
            and_then (assert_that (contains raw (show_nat (unat nid))) ''an accepted peer id must appear in the input'') (\<lambda>_.
            assert_that (contains raw addr) ''an accepted peer address must appear in the input'')))) peers))"

definition run_pg_hostport :: "string \<Rightarrow> unit harness" where
  "run_pg_hostport raw =
     (case split_hostport raw of (host, port) \<Rightarrow>
        and_then (assert_that (contains raw host) ''the host must be a substring of the input'') (\<lambda>_.
        and_then (assert_that (length host \<le> length raw) ''the host must not grow the input'') (\<lambda>_.
        and_then
          (if CHR '':'' \<notin> set raw then
             and_then (assert_that (port = 5432) ''a colon-free input takes the default port'') (\<lambda>_.
             if \<not> starts_with ''['' raw then
               assert_that (host = raw) ''an unbracketed colon-free input is all host''
             else Inr ())
           else Inr ()) (\<lambda>_.
        and_then
          (if \<not> starts_with ''['' raw then
             (case rsplit_once (CHR '':'') raw of
                None \<Rightarrow> Inr ()
              | Some (expected_host, expected_port) \<Rightarrow>
                  (if CHR '':'' \<notin> set expected_host then
                     (case parse_port expected_port of
                        None \<Rightarrow> Inr ()
                      | Some parsed \<Rightarrow>
                          and_then (assert_that (host = expected_host) ''host must round-trip'') (\<lambda>_.
                          assert_that (port = parsed) ''port must round-trip''))
                   else Inr ()))
           else Inr ()) (\<lambda>_.
        case strip_prefix ''['' raw of
          None \<Rightarrow> Inr ()
        | Some rest \<Rightarrow>
            (case split_once (CHR '']'') rest of
               None \<Rightarrow> Inr ()
             | Some (inner, tail) \<Rightarrow>
                 (let well_formed = tail = [] \<or>
                        (case strip_prefix '':'' tail of Some p \<Rightarrow> parse_port p \<noteq> None | None \<Rightarrow> False)
                  in if well_formed
                     then assert_that (host = inner) ''a bracketed literal keeps its address'' else Inr ())))))))"

text \<open>The target also asks for five addresses whether the list contains them, and ignores the answers.\<close>

definition run_ip_allowlist_parse :: "'n ipnet \<Rightarrow> bytes \<Rightarrow> unit harness" where
  "run_ip_allowlist_parse N data =
     (case from_utf8 data of
        None \<Rightarrow> Inr ()
      | Some spec \<Rightarrow>
          (case allowlist_parse N spec of
             Inl _ \<Rightarrow> Inr ()
           | Inr nets \<Rightarrow> assert_that (allowlist_is_empty nets = (allowlist_len nets = 0)) ''is_empty == (len == 0)''))"

section \<open>Names, keys and rules\<close>

record NameValidationInput =
  nv_name :: string
  nv_role_name :: string
  nv_value :: string
  nv_grace :: "64 word option"

definition run_name_validation :: "NameValidationInput \<Rightarrow> unit harness" where
  "run_name_validation i =
     (let name = nv_name i; role_name = nv_role_name i; v = nv_value i;
          grace = map_option i64_of (nv_grace i) in
      and_then
        (if is_ok (validate_name name) then
           and_then (assert_that (1 \<le> length name \<and> length name \<le> 255) ''an accepted secret name must be 1..=255 bytes'') (\<lambda>_.
           and_then (assert_that (list_all (\<lambda>c. is_ascii_alphanumeric c \<or> c \<in> set ''-_/.'') name)
             ''an accepted secret name must stay inside [A-Za-z0-9-_/.]'') (\<lambda>_.
           assert_that (CHR 0x00 \<notin> set name \<and> CHR 0x01 \<notin> set name)
             ''an accepted secret name must not contain a version-key separator byte''))
         else Inr ()) (\<lambda>_.
      and_then
        (if is_ok (validate_role_name role_name) then
           assert_that (trim role_name \<noteq> [] \<and> length role_name \<le> 255)
             ''an accepted role name must be non-blank and at most 255 bytes''
         else Inr ()) (\<lambda>_.
      and_then
        (case normalize_grace grace of
           Inr secs \<Rightarrow> assert_that (0 \<le> secs \<and> secs \<le> MAX_GRACE_SECS)
             ''a normalized grace period must be between zero and the maximum''
         | Inl _ \<Rightarrow> assert_that (case grace of Some g \<Rightarrow> \<not> (0 \<le> g \<and> g \<le> MAX_GRACE_SECS) | None \<Rightarrow> False)
             ''normalize_grace must only reject a grace period outside that range'') (\<lambda>_.
      and_then (assert_that (normalize_grace None = Inr 0) ''an absent grace period must normalize to zero'') (\<lambda>_.
      and_then
        (if is_ok (validate_value v) then assert_that (length v \<le> 2 ^ 16) ''an accepted value must fit the cap''
         else Inr ()) (\<lambda>_.
      if is_ok (validate_field ''password'' v)
      then assert_that (v \<noteq> [] \<and> length v \<le> 2 ^ 16) ''an accepted field must be non-empty and fit the cap''
      else Inr ()))))))"

record KeyEncodingInput =
  ke_name_a :: string
  ke_name_b :: string
  ke_version_a :: "32 word"
  ke_version_b :: "32 word"

definition inside_scan_range :: "string \<Rightarrow> string \<Rightarrow> bool" where
  "inside_scan_range key name \<longleftrightarrow> version_lower name \<le> key \<and> key < version_upper name"

definition run_store_key_encoding :: "KeyEncodingInput \<Rightarrow> unit harness" where
  "run_store_key_encoding i =
     (let name_a = ke_name_a i; name_b = ke_name_b i;
          version_a = i32_of (ke_version_a i); version_b = i32_of (ke_version_b i);
          valid_a = is_valid_secret_name name_a \<and> is_valid_secret_version version_a;
          valid_b = is_valid_secret_name name_b \<and> is_valid_secret_version version_b in
      and_then
        (if name_a \<noteq> name_b then
           assert_that (version_from_key name_a (version_key name_b version_b) = None)
             ''another secret version row was accepted by this scan''
         else Inr ()) (\<lambda>_.
      and_then
        (if valid_a then
           (let key_a = version_key name_a version_a in
            and_then (assert_that (inside_scan_range key_a name_a)
              ''a version row of a secret must fall inside its own scan range'') (\<lambda>_.
            assert_that (version_from_key name_a key_a = Some version_a)
              ''a version row of a secret must parse back to its version''))
         else Inr ()) (\<lambda>_.
      if valid_a \<and> valid_b \<and> name_a = name_b then
        and_then (assert_that (version_a = version_b \<or> version_key name_a version_a \<noteq> version_key name_a version_b)
          ''two versions of one secret must not share a key'') (\<lambda>_.
        if version_a < version_b then
          assert_that (version_key name_a version_a < version_key name_a version_b)
            ''key byte order must match version numeric order''
        else Inr ())
      else Inr ())))"

record RbacInput =
  rb_is_admin :: bool
  rb_rules :: rules
  rb_action :: string
  rb_name :: string

definition run_rbac :: "RbacInput \<Rightarrow> unit harness" where
  "run_rbac i =
     (let allowed = authorize (rb_is_admin i) (rb_rules i) (rb_action i) (rb_name i);
          vis = visible (rb_is_admin i) (rb_rules i) (rb_name i) in
      and_then
        (if rb_is_admin i then assert_that (allowed \<and> vis) ''admin must be authorized and see everything''
         else Inr ()) (\<lambda>_.
      and_then (assert_that (\<not> allowed \<or> vis) ''authorize() must imply visible()'') (\<lambda>_.
      assert_that (path_matches ''*'' (rb_name i)) ''a lone * must match any name'')))"

record TypesAadInput =
  ta_name :: string
  ta_version :: "32 word"
  ta_kind :: string
  ta_format :: string

definition run_types_aad :: "TypesAadInput \<Rightarrow> unit harness" where
  "run_types_aad i =
     (let aad = aad_for (ta_name i) (i32_of (ta_version i)) in
      and_then (assert_that (take (length (as_bytes (ta_name i))) aad = as_bytes (ta_name i))
        ''aad must start with the secret name'') (\<lambda>_.
      and_then
        (case SecretKind_parse (ta_kind i) of
           Some kind \<Rightarrow> assert_that (SecretKind_parse (SecretKind_as_str kind) = Some kind) ''left == right''
         | None \<Rightarrow> Inr ()) (\<lambda>_.
      case SecretFormat_parse (ta_format i) of
        Some format \<Rightarrow> assert_that (SecretFormat_parse (SecretFormat_as_str format) = Some format) ''left == right''
      | None \<Rightarrow> Inr ())))"

section \<open>Envelopes\<close>

record CryptoInput =
  ci_master :: bytes
  ci_aad :: bytes
  ci_plaintext :: bytes
  ci_tamper_index :: u64
  ci_tamper_xor :: u8

text \<open>The random draws of sealing, data key with wrapping nonce and message nonce, are arguments.\<close>

definition wrong_aad :: "bytes \<Rightarrow> bytes" where
  "wrong_aad aad = map (\<lambda>byte. xor byte 0xFF) aad"

definition tamper :: "u64 \<Rightarrow> u8 \<Rightarrow> bytes \<Rightarrow> bytes" where
  "tamper tamper_index tamper_xor ct =
     (let idx = unat tamper_index mod length ct in ct[idx := xor (ct ! idx) tamper_xor])"

definition run_crypto_roundtrip :: "aead \<Rightarrow> bytes \<times> bytes \<Rightarrow> bytes \<Rightarrow> CryptoInput \<Rightarrow> unit harness" where
  "run_crypto_roundtrip A draw nonce i =
     (let wrapper = \<lparr>lk_master = ci_master i, lk_key_id = ''fuzz-key''\<rparr> in
      case seal_envelope A (generate_data_key A wrapper draw) nonce (ci_aad i) (ci_plaintext i) of
        Inl _ \<Rightarrow> Inr ()
      | Inr env \<Rightarrow>
          and_then (expect_ok ''authentic envelope must open''
            (open_envelope A (unwrap_data_key A wrapper) env (ci_aad i))) (\<lambda>opened.
          and_then (assert_that (opened = ci_plaintext i) ''left == right'') (\<lambda>_.
          and_then
            (if wrong_aad (ci_aad i) \<noteq> ci_aad i then
               assert_that (\<not> is_ok (open_envelope A (unwrap_data_key A wrapper) env (wrong_aad (ci_aad i))))
                 ''an AAD mismatch must never authenticate''
             else Inr ()) (\<lambda>_.
          if env_ciphertext env \<noteq> [] \<and> ci_tamper_xor i \<noteq> 0 then
            (let tampered = env\<lparr>env_ciphertext := tamper (ci_tamper_index i) (ci_tamper_xor i) (env_ciphertext env)\<rparr> in
             assert_that (\<not> is_ok (open_envelope A (unwrap_data_key A wrapper) tampered (ci_aad i)))
               ''a tampered ciphertext must never authenticate'')
          else Inr ()))))"

definition run_local_key_from_base64 ::
  "aead \<Rightarrow> (string \<Rightarrow> bytes option) \<Rightarrow> bytes \<times> bytes \<Rightarrow> bytes \<Rightarrow> bytes \<Rightarrow> unit harness" where
  "run_local_key_from_base64 A b64_decode draw nonce data =
     (case from_utf8 data of
        None \<Rightarrow> Inr ()
      | Some text \<Rightarrow>
          (case LocalKeyWrapper_from_base64 b64_decode text ''fuzz-key'' of
             Inl _ \<Rightarrow> Inr ()
           | Inr wrapper \<Rightarrow>
               and_then (expect_ok ''a valid 32-byte key must seal''
                 (seal_envelope A (generate_data_key A wrapper draw) nonce
                    (as_bytes ''fuzz-aad'') (as_bytes ''fuzz-plaintext''))) (\<lambda>env.
               and_then (expect_ok ''authentic envelope must open''
                 (open_envelope A (unwrap_data_key A wrapper) env (as_bytes ''fuzz-aad''))) (\<lambda>opened.
               assert_that (opened = as_bytes ''fuzz-plaintext'') ''left == right''))))"

section \<open>No input makes these targets panic\<close>

lemma harness_if [harness_simps]:
  "((if c then r else Inr ()) = Inr u) \<longleftrightarrow> (c \<longrightarrow> r = Inr u)" for r :: "unit harness"
  by simp

definition sha256_ok :: "(bytes \<Rightarrow> bytes) \<Rightarrow> bool" where
  "sha256_ok sha256 \<longleftrightarrow> (\<forall>m. length (sha256 m) = FINGERPRINT_LEN)"

lemma run_auth_fingerprint_passes:
  assumes "sha256_ok sha256"
  shows "run_auth_fingerprint sha256 data = Inr ()"
proof -
  have "length (fingerprint sha256 token) = 32" for token
    using assms by (simp add: sha256_ok_def fingerprint_def FINGERPRINT_LEN_def)
  then have "fingerprint sha256 token \<noteq> []"
    "fingerprint sha256 token \<noteq> take (length (fingerprint sha256 token) - 1) (fingerprint sha256 token)" for token
    by (metis list.size(3) zero_neq_numeral,
        metis diff_less length_take min.absorb2 diff_le_self zero_less_numeral zero_less_one less_irrefl_nat)
  then show ?thesis
    by (simp add: run_auth_fingerprint_def harness_simps Let_def auth_verify_def fingerprints_match_def split: option.split)
qed

lemma bearer_token_Some:
  assumes "bearer_token parts = Some token"
  obtains header rest where "rq_authorization parts = Some header" "token = trim rest" "token \<noteq> []"
    "header = ''Bearer '' @ rest \<or> header = ''bearer '' @ rest"
  using assms unfolding bearer_token_def
  by (auto simp: Let_def strip_prefix_Some split: option.splits if_splits)

lemma run_bearer_token_parse_passes: "run_bearer_token_parse H data = Inr ()"
proof (cases "parts_with_authorization H data")
  case (Some parts)
  show ?thesis
  proof (cases "bearer_token parts")
    case token: (Some token)
    obtain header rest where h: "rq_authorization parts = Some header" "token = trim rest" "token \<noteq> []"
      "header = ''Bearer '' @ rest \<or> header = ''bearer '' @ rest"
      using token by (rule bearer_token_Some)
    have "sublist rest header" using h(4) sublist_append_leftI by blast
    then have "contains header token" using h(2) sublist_trans [OF sublist_trim] by (simp add: contains_def)
    moreover have "starts_with ''Bearer '' header \<or> starts_with ''bearer '' header"
      using h(4) unfolding starts_with_iff by blast
    moreover have "trim token = token" using h(2) by simp
    ultimately show ?thesis
      using Some token h(1,3) by (simp add: run_bearer_token_parse_def harness_simps)
  qed (simp add: run_bearer_token_parse_def Some)
qed (simp add: run_bearer_token_parse_def)

lemma run_forwarded_for_parse_passes: "run_forwarded_for_parse H i = Inr ()"
proof -
  obtain parts ip hdr where b: "build_forwarded H i = (parts, ip, hdr)" by (cases "build_forwarded H i") auto
  then have parts: "peer_ip parts = ip" "rq_forwarded_for parts = hdr"
    by (auto simp: build_forwarded_def Let_def peer_ip_def)
  show ?thesis
    using parts unfolding run_forwarded_for_parse_def b
    by (auto simp: harness_simps client_ip_def Let_def split: option.splits)
qed

text \<open>What is read off one entry of the peer list appears in that entry.\<close>

definition peer_of :: "string \<Rightarrow> u64 \<times> string \<Rightarrow> bool" where
  "peer_of raw peer \<longleftrightarrow> snd peer \<noteq> [] \<and> trim (snd peer) = snd peer \<and>
     sublist (show_nat (unat (fst peer))) raw \<and> sublist (snd peer) raw"

lemma parse_u64_shown:
  assumes "parse_u64 s = Some n"
  shows "sublist (show_nat (unat n)) s"
proof -
  obtain m where m: "parse_uint (2 ^ 64 - 1) s = Some m" "n = of_nat m"
    using assms by (auto simp: parse_u64_def)
  then have "m < 2 ^ 64" by (auto simp: parse_uint_def Let_def split: if_splits)
  then have "unat n = m" using m(2) by (simp add: unat_of_nat)
  then show ?thesis using parse_uint_shown [OF m(1)] by simp
qed

lemma parse_peer_of:
  assumes "parse_peer entry = Inr peer"
  shows "peer_of entry peer"
proof -
  obtain nid addr n where e: "split_once (CHR ''='') entry = Some (nid, addr)" "parse_u64 (trim nid) = Some n"
    "trim addr \<noteq> []" "peer = (n, trim addr)"
    using assms by (auto simp: parse_peer_def split: option.splits if_splits)
  have "sublist (show_nat (unat n)) entry" "sublist (trim addr) entry"
    using parse_u64_shown [OF e(2)] sublist_split_once [OF e(1)] sublist_trim sublist_trans by blast+
  then show ?thesis using e(3,4) by (simp add: peer_of_def)
qed

lemma set_tinsert_subset: "set (tinsert k v t) \<subseteq> insert (k, v) (set t)"
  by (induction t) auto

lemma length_tinsert: "length (tinsert k v t) \<le> Suc (length t)"
  by (induction t) auto

lemma parse_peer_entries_from:
  assumes "parse_peer_entries entries m = Inr peers"
  shows "length peers \<le> length m + length entries \<and>
         (\<forall>peer \<in> set peers. peer \<in> set m \<or> (\<exists>entry \<in> set entries. peer_of entry peer))"
  using assms
proof (induction entries m rule: parse_peer_entries.induct)
  case (2 raw rest m)
  show ?case
  proof (cases "trim raw = []")
    case True
    then show ?thesis using 2 by (fastforce simp: Let_def)
  next
    case False
    obtain nid addr where e: "parse_peer (trim raw) = Inr (nid, addr)"
      "parse_peer_entries rest (tinsert nid addr m) = Inr peers"
      using 2(3) False by (auto simp: Let_def split: sum.splits)
    have raw: "peer_of raw (nid, addr)"
      using parse_peer_of [OF e(1)] sublist_trans [OF _ sublist_trim] by (auto simp: peer_of_def)
    note ih = 2(2) [OF refl False e(1) refl e(2)]
    show ?thesis
      using ih raw length_tinsert [of nid addr m] set_tinsert_subset [of nid addr m] by fastforce
  qed
qed simp

lemma run_config_parse_peers_passes: "run_config_parse_peers raw = Inr ()"
proof (cases "parse_peers raw")
  case (Inr peers)
  have "peer_of raw peer" if "peer \<in> set peers" for peer
  proof -
    obtain entry where "entry \<in> set (split_on (CHR '','') raw)" "peer_of entry peer"
      using parse_peer_entries_from [OF Inr [unfolded parse_peers_def]] \<open>peer \<in> set peers\<close> by fastforce
    then show ?thesis using sublist_trans [OF _ sublist_split_on] by (auto simp: peer_of_def)
  qed
  moreover have "length peers \<le> count_list raw (CHR '','') + 1"
    using parse_peer_entries_from [OF Inr [unfolded parse_peers_def]] by (simp add: length_split_on)
  ultimately show ?thesis
    using Inr by (auto simp: run_config_parse_peers_def harness_simps list_all_iff contains_def peer_of_def)
qed (simp add: run_config_parse_peers_def)

lemma split_hostport_sublist: "sublist (fst (split_hostport raw)) raw"
proof -
  have "sublist host raw" if "strip_prefix ''['' raw = Some rest" "split_once (CHR '']'') rest = Some (host, tail)" for rest host tail
    using that sublist_split_once [OF that(2)] sublist_append_leftI [of rest "''[''"] unfolding strip_prefix_Some
    by (blast intro: sublist_trans)
  moreover have "sublist host raw" if "rsplit_once (CHR '':'') raw = Some (host, port)" for host port
    using sublist_rsplit_once [OF that] by blast
  ultimately show ?thesis
    unfolding split_hostport_def by (auto split: option.split)
qed

lemma run_pg_hostport_passes: "run_pg_hostport raw = Inr ()"
proof -
  obtain host port where hp: "split_hostport raw = (host, port)" by (cases "split_hostport raw")
  have sub: "sublist host raw" using split_hostport_sublist [of raw] hp by simp
  have plain: "\<not> starts_with ''['' raw \<longleftrightarrow> strip_prefix ''['' raw = None" by (simp add: strip_prefix_def)
  have colon: "port = 5432 \<and> (strip_prefix ''['' raw = None \<longrightarrow> host = raw)" if "CHR '':'' \<notin> set raw"
  proof (cases "strip_prefix ''['' raw")
    case None
    then show ?thesis using hp that rsplit_once_None [of "CHR '':''" raw]
      by (simp add: split_hostport_def DEFAULT_PG_PORT_def)
  next
    case (Some rest)
    then have "CHR '':'' \<notin> set rest" using that unfolding strip_prefix_Some by auto
    then have "strip_prefix '':'' tail = None" if "split_once (CHR '']'') rest = Some (inner, tail)" for inner tail
      using that by (auto simp: split_once_Some strip_prefix_def starts_with_iff)
    then show ?thesis using hp Some
      by (auto simp: split_hostport_def DEFAULT_PG_PORT_def split: option.splits if_splits)
  qed
  show ?thesis
    unfolding run_pg_hostport_def hp using sub colon hp plain
    by (auto simp: harness_simps contains_def sublist_length_le Let_def split_hostport_def split: option.splits if_splits)
qed

lemma run_ip_allowlist_parse_passes: "run_ip_allowlist_parse N data = Inr ()"
  by (auto simp: run_ip_allowlist_parse_def harness_simps allowlist_is_empty_def allowlist_len_def
      split: option.split sum.split)

lemma run_name_validation_passes: "run_name_validation i = Inr ()"
proof -
  have name: "1 \<le> length n \<and> length n \<le> 255 \<and>
      list_all (\<lambda>c. is_ascii_alphanumeric c \<or> c \<in> set ''-_/.'') n \<and> CHR 0x00 \<notin> set n \<and> CHR 0x01 \<notin> set n"
    if "is_ok (validate_name n)" for n
  proof -
    have n: "is_valid_secret_name n" using that by (auto simp: validate_name_def split: if_splits)
    then have "list_all secret_name_char n" by (simp add: is_valid_secret_name_def)
    then have "CHR 0x00 \<notin> set n" "CHR 0x01 \<notin> set n" by (auto simp: list_all_iff)
    then show ?thesis
      using n by (auto simp: is_valid_secret_name_def MAX_SECRET_NAME_LEN_def list_all_iff secret_name_char_def Suc_le_eq)
  qed
  have role: "trim n \<noteq> [] \<and> length n \<le> 255" if "is_ok (validate_role_name n)" for n
    using that by (auto simp: validate_role_name_def split: if_splits)
  have "length v \<le> 2 ^ 16" if "is_ok (validate_value v)" for v
    using that by (auto simp: validate_value_def MAX_VALUE_LEN_def split: if_splits)
  moreover have "v \<noteq> [] \<and> length v \<le> 2 ^ 16" if "is_ok (validate_field l v)" for l v
    using that by (auto simp: validate_field_def MAX_VALUE_LEN_def split: if_splits)
  ultimately show ?thesis
    using name [of "nv_name i"] role [of "nv_role_name i"]
    unfolding run_name_validation_def Let_def
    by (simp add: harness_simps normalize_grace_def MAX_GRACE_SECS_def MAX_ROTATION_INTERVAL_SECS_def split: sum.split option.split)
qed

lemma version_from_key_other:
  assumes "a \<noteq> b"
  shows "version_from_key a (version_key b w) = None"
proof (rule ccontr)
  assume "version_from_key a (version_key b w) \<noteq> None"
  then obtain v where "version_from_key a (version_key b w) = Some v" by blast
  then have a: "CHR 0x00 \<notin> set a" "0 \<le> v" "v \<le> i32_max" "version_key b w = version_key a v"
    by (simp_all add: version_from_key_iff)
  have "split_once (CHR 0x00) (version_key a v) = Some (a, show_int_pad 10 v)"
    using a(1) by (simp add: split_once_Some version_key_def)
  moreover have "CHR 0x00 \<notin> set (show_int_pad 10 v)"
    using show_int_pad_version(2) [OF a(2,3)] by (auto simp: list_all_iff)
  moreover have "\<exists>y. split_once (CHR 0x00) (version_key b w) = Some (b, y) \<or>
      CHR 0x00 \<in> set y \<and> (\<exists>x. split_once (CHR 0x00) (version_key b w) = Some (x, y))"
  proof (cases "split_once (CHR 0x00) b")
    case None
    then show ?thesis by (auto simp: split_once_None split_once_Some version_key_def)
  next
    case (Some xy)
    then show ?thesis
      by (intro exI [of _ "snd xy @ CHR 0x00 # show_int_pad 10 w"])
         (cases xy, auto simp: split_once_Some version_key_def)
  qed
  ultimately show False using a(4) assms by auto
qed

lemma run_store_key_encoding_passes: "run_store_key_encoding i = Inr ()"
proof -
  have own: "inside_scan_range (version_key n (i32_of v)) n \<and> version_from_key n (version_key n (i32_of v)) = Some (i32_of v)"
    if "is_valid_secret_name n" "is_valid_secret_version (i32_of v)" for n v
    using that good_versionI [OF that i32_of_range(2)] version_key_in_range [of n "i32_of v"]
    by (simp add: version_from_key_iff good_version_def inside_scan_range_def in_version_range_def)
  have order: "version_key n (i32_of v) < version_key n (i32_of w) \<longleftrightarrow> i32_of v < i32_of w"
    if "is_valid_secret_version (i32_of v)" "is_valid_secret_version (i32_of w)" for n v w
    using that by (intro version_key_less_iff) (simp_all add: i32_of_range is_valid_secret_version_def MIN_SECRET_VERSION_def)
  show ?thesis
    using own [of "ke_name_a i" "ke_version_a i"] order [of "ke_version_a i" "ke_version_b i" "ke_name_a i"]
      order [of "ke_version_b i" "ke_version_a i" "ke_name_a i"]
    by (auto simp: run_store_key_encoding_def Let_def harness_simps version_from_key_other)
qed

lemma run_rbac_passes: "run_rbac i = Inr ()"
  using authorize_visible [of "rb_is_admin i" "rb_rules i" "rb_action i" "rb_name i"] path_matches_star [of "[]" "rb_name i"]
  by (auto simp: run_rbac_def Let_def harness_simps authorize_def visible_def)

lemma run_types_aad_passes: "run_types_aad i = Inr ()"
  by (auto simp: run_types_aad_def Let_def harness_simps aad_for_def SecretKind_parse_iff SecretFormat_parse_iff
      split: option.split)

section \<open>Sealing and forgeries\<close>

lemma seal_envelope_Inr:
  assumes "seal_envelope A (generate_data_key A w draw) nonce aad plaintext = Inr env"
  shows "aead_encrypt A (fst draw) nonce aad plaintext = Some (env_ciphertext env)" "env_nonce env = nonce"
    "wrap_dek A w (snd draw) (fst draw) = Inr (env_wrapped_dek env)"
  using assms by (auto simp: seal_envelope_def generate_data_key_def seal_def Let_def split: sum.splits)

lemma open_sealed_envelope:
  assumes "aead_ok A" "local_draw_ok draw"
    and "seal_envelope A (generate_data_key A w draw) nonce aad plaintext = Inr env"
  shows "is_ok (open_envelope A (unwrap_data_key A w) (env\<lparr>env_ciphertext := ct\<rparr>) aad') \<longleftrightarrow>
     (\<exists>m. aead_decrypt A (fst draw) nonce aad' ct = Some m)"
proof -
  have "unwrap_data_key A w (env_wrapped_dek env) (env_key_id env) = Inr (fst draw)"
    using assms(1,2) seal_envelope_Inr(3) [OF assms(3)] unwrap_wrap_dek unfolding local_draw_ok_def by blast
  then show ?thesis
    using seal_envelope_Inr(2) [OF assms(3)]
    by (simp add: open_envelope_def open_sealed_def is_ok_def ok_or_def split: option.split)
qed

lemma tamper_changes:
  assumes "ct \<noteq> []" "x \<noteq> 0"
  shows "tamper k x ct \<noteq> ct"
proof -
  let ?i = "unat k mod length ct"
  have "?i < length ct" using assms(1) by simp
  moreover have "xor b x \<noteq> b" for b
  proof
    assume "xor b x = b"
    then have "xor (xor b b) x = xor b b" by (simp only: xor.assoc)
    then show False using assms(2) by simp
  qed
  ultimately show ?thesis unfolding tamper_def Let_def by (metis nth_list_update_eq)
qed

text \<open>
  When the round trip target panics, its input is a forgery against the cipher: the key and nonce that
  encrypted the message decrypt other associated data or another ciphertext.
\<close>

theorem crypto_roundtrip_panics_on_forgery:
  assumes "aead_ok A" "local_draw_ok draw"
  shows "run_crypto_roundtrip A draw nonce i = Inr () \<or>
    (\<exists>ct aad' ct' m. aead_encrypt A (fst draw) nonce (ci_aad i) (ci_plaintext i) = Some ct \<and>
       (aad', ct') \<noteq> (ci_aad i, ct) \<and> aead_decrypt A (fst draw) nonce aad' ct' = Some m)"
proof -
  let ?w = "\<lparr>lk_master = ci_master i, lk_key_id = ''fuzz-key''\<rparr> :: LocalKeyWrapper"
  show ?thesis
  proof (cases "seal_envelope A (generate_data_key A ?w draw) nonce (ci_aad i) (ci_plaintext i)")
    case (Inr env)
    note ct = seal_envelope_Inr(1) [OF Inr]
    note opens = open_sealed_envelope [OF assms Inr]
    have authentic: "open_envelope A (unwrap_data_key A ?w) env (ci_aad i) = Inr (ci_plaintext i)"
      using assms Inr by (rule lkw.envelope_opens)
    have same: "env\<lparr>env_ciphertext := env_ciphertext env\<rparr> = env" by simp
    let ?tampered = "tamper (ci_tamper_index i) (ci_tamper_xor i) (env_ciphertext env)"
    have run: "run_crypto_roundtrip A draw nonce i = Inr () \<longleftrightarrow>
        (wrong_aad (ci_aad i) \<noteq> ci_aad i \<longrightarrow> \<not> is_ok (open_envelope A (unwrap_data_key A ?w) env (wrong_aad (ci_aad i)))) \<and>
        (env_ciphertext env \<noteq> [] \<and> ci_tamper_xor i \<noteq> 0 \<longrightarrow>
           \<not> is_ok (open_envelope A (unwrap_data_key A ?w) (env\<lparr>env_ciphertext := ?tampered\<rparr>) (ci_aad i)))"
      unfolding run_crypto_roundtrip_def Let_def Inr sum.case authentic harness_simps by auto
    show ?thesis
      using ct tamper_changes [of "env_ciphertext env" "ci_tamper_xor i" "ci_tamper_index i"]
      unfolding run opens opens [of "env_ciphertext env" "wrong_aad (ci_aad i)", unfolded same] by blast
  qed (simp add: run_crypto_roundtrip_def)
qed

theorem crypto_roundtrip_panics_on_forgery_witness:
  "let i = \<lparr>ci_master = replicate 32 7, ci_aad = [9], ci_plaintext = [42], ci_tamper_index = 0, ci_tamper_xor = 1\<rparr> in
   run_crypto_roundtrip prefix_aead (replicate 32 1, replicate 24 2) (replicate 24 3) i = Inr () \<or>
    (\<exists>ct aad' ct' m. aead_encrypt prefix_aead (replicate 32 1) (replicate 24 3) (ci_aad i) (ci_plaintext i) = Some ct \<and>
       (aad', ct') \<noteq> (ci_aad i, ct) \<and> aead_decrypt prefix_aead (replicate 32 1) (replicate 24 3) aad' ct' = Some m)"
  unfolding Let_def
  using crypto_roundtrip_panics_on_forgery [OF prefix_aead_ok, of "(replicate 32 1, replicate 24 2)" "replicate 24 3"
      "\<lparr>ci_master = replicate 32 7, ci_aad = [9], ci_plaintext = [42], ci_tamper_index = 0, ci_tamper_xor = 1\<rparr>"]
  unfolding local_draw_ok_def DEK_LEN_def NONCE_LEN_def fst_conv snd_conv length_replicate by blast

definition aead_total :: "aead \<Rightarrow> bool" where
  "aead_total A \<longleftrightarrow> (\<forall>key nonce aad msg. length key = DEK_LEN \<longrightarrow> length nonce = NONCE_LEN \<longrightarrow>
     length msg < 2 ^ 32 \<longrightarrow> aead_encrypt A key nonce aad msg \<noteq> None)"

lemma run_local_key_from_base64_passes:
  assumes "aead_ok A" "aead_total A" "local_draw_ok draw" "length nonce = NONCE_LEN"
  shows "run_local_key_from_base64 A b64_decode draw nonce data = Inr ()"
proof -
  let ?aad = "as_bytes ''fuzz-aad''" and ?msg = "as_bytes ''fuzz-plaintext''"
  have seals: "\<exists>env. seal_envelope A (generate_data_key A w draw) nonce ?aad ?msg = Inr env"
    if "length (lk_master w) = DEK_LEN" for w
  proof -
    have enc: "\<exists>c. aead_encrypt A key n aad msg = Some c"
      if "length key = DEK_LEN" "length n = NONCE_LEN" "length msg < 2 ^ 32" for key n aad msg
      using assms(2) that unfolding aead_total_def by blast
    have "length (fst draw) < 2 ^ 32" "length ?msg < 2 ^ 32"
      using assms(3) by (simp_all add: local_draw_ok_def DEK_LEN_def)
    then obtain c1 c2 where "aead_encrypt A (lk_master w) (snd draw) WRAP_AAD (fst draw) = Some c1"
      "aead_encrypt A (fst draw) nonce ?aad ?msg = Some c2"
      using enc assms(3,4) \<open>length (lk_master w) = DEK_LEN\<close> unfolding local_draw_ok_def by metis
    then show ?thesis
      by (simp add: seal_envelope_def generate_data_key_def wrap_dek_def seal_def Let_def)
  qed
  have "length (lk_master w) = DEK_LEN" if "LocalKeyWrapper_from_base64 b64_decode t k = Inr w" for t k w
    using that by (auto simp: LocalKeyWrapper_from_base64_def split: option.splits if_splits)
  then have "\<exists>env. seal_envelope A (generate_data_key A w draw) nonce ?aad ?msg = Inr env \<and>
      open_envelope A (unwrap_data_key A w) env ?aad = Inr ?msg"
    if "LocalKeyWrapper_from_base64 b64_decode t k = Inr w" for t k w
    using that seals lkw.envelope_opens [OF assms(1,3)] by blast
  note sealed = this
  show ?thesis
  proof (cases "from_utf8 data")
    case (Some t)
    show ?thesis
    proof (cases "LocalKeyWrapper_from_base64 b64_decode t ''fuzz-key''")
      case (Inr w)
      then show ?thesis
        unfolding run_local_key_from_base64_def Some option.case Inr sum.case harness_simps
        using sealed [OF Inr] by blast
    qed (simp add: run_local_key_from_base64_def Some)
  qed (simp add: run_local_key_from_base64_def)
qed

section \<open>The parsers meet their assertions\<close>

text \<open>
  C28: no input makes the targets of the parsers, name checks, key encoding and access rules panic.
  A bearer token is a trimmed, non-empty part of a header with the right scheme; without a
  trusted proxy the client address is the peer's, and with one it is the peer's or the first
  forwarded one; peers and hosts appear in the text they were read from and well-formed hosts
  and ports round-trip; accepted names and values keep their bounds; no version row is taken for
  another secret's; and who may act on a secret may see it.
\<close>

theorem parser_targets_never_panic:
  "run_bearer_token_parse H header = Inr () \<and>
   run_forwarded_for_parse H forwarded = Inr () \<and>
   run_config_parse_peers peers = Inr () \<and>
   run_pg_hostport hostport = Inr () \<and>
   run_ip_allowlist_parse N spec = Inr () \<and>
   run_name_validation names = Inr () \<and>
   run_store_key_encoding keys = Inr () \<and>
   run_rbac rules = Inr () \<and>
   run_types_aad aads = Inr ()"
  by (simp add: run_bearer_token_parse_passes run_forwarded_for_parse_passes run_config_parse_peers_passes
      run_pg_hostport_passes run_ip_allowlist_parse_passes run_name_validation_passes
      run_store_key_encoding_passes run_rbac_passes run_types_aad_passes)

end
