(* ===== verification/Fuzz_Commands.thy ===== *)
theory Fuzz_Commands
  imports Fuzz_Harness Store_Invariant
begin

text \<open>
  The fuzz target \<open>apply_command_sequence.rs\<close>: an arbitrary sequence of commands is applied to
  two stores, with checks after every command, on the outcomes and on the final tables. The
  commands are not restricted to those the services issue: versions, times, names and
  fingerprints are arbitrary.
\<close>

section \<open>The input\<close>

definition NODE_ID :: u64 where "NODE_ID = 7"

datatype Name = Pool u8 | Raw string

fun name_get :: "Name \<Rightarrow> string" where
  "name_get (Pool index) = ''s'' @ show_nat (unat (index mod 6))"
| "name_get (Raw raw) = map (\<lambda>c. if c = CHR 0x00 \<or> c = CHR 0x01 then CHR ''_'' else c) raw"

record SecretInput =
  si_automatic :: bool
  si_userpass :: bool
  si_description :: "string option"
  si_rotation_interval_secs :: "32 word option"
  si_grace_secs :: "32 word"
  si_current_version :: "32 word"
  si_next_rotation_at :: "32 word option"
  si_created_at :: "32 word"

record VersionInput =
  vi_version :: "32 word"
  vi_kms_key_id :: string
  vi_wrapped_dek :: bytes
  vi_nonce :: bytes
  vi_ciphertext :: bytes
  vi_aad :: bytes
  vi_created_at :: "32 word"
  vi_expires_at :: "32 word option"
  vi_wrapped_rotation_at :: "32 word option"

datatype Op =
    OpCreateSecret Name SecretInput VersionInput
  | OpPutVersion (opv_name: Name) (opv_expected_current: "32 word") (opv_version: VersionInput)
      (opv_supersede_expires_at: "32 word option") (opv_set_description: "string option")
      (opv_set_rotation_interval_secs: "32 word option") (opv_set_grace_secs: "32 word option")
      (opv_set_next_rotation: "32 word option option") (opv_updated_at: "32 word")
  | OpUpdateMeta (oum_name: Name) (oum_expected_current: "32 word") (oum_set_description: "string option")
      (oum_set_rotation_interval_secs: "32 word option") (oum_set_grace_secs: "32 word option")
      (oum_set_next_rotation: "32 word option option") (oum_updated_at: "32 word")
  | OpDeleteSecret Name
  | OpCreateRole Name "string option" bool "(string \<times> string) list" "32 word"
  | OpSetPermissions Name "(string \<times> string) list"
  | OpDeleteRole Name
  | OpAddToken Name "Name option" bytes "32 word"
  | OpRevokeToken Name "32 word"
  | OpTouchToken bytes "32 word"
  | OpExpireGraceVersions "32 word"
  | OpRewrapVersion Name "32 word" string bytes "32 word"
  | OpSetKmsRewrapState "32 word" "32 word" "32 word"
  | OpAppendAudit "32 word" "string option" "string option" string "Name option" string
  | OpRecordAuthFailure string "32 word" u8 "16 word" "16 word"

definition version_record :: "VersionInput \<Rightarrow> VersionRecord" where
  "version_record i =
     \<lparr>vr_version = i32_of (vi_version i), vr_kms_key_id = vi_kms_key_id i, vr_wrapped_dek = vi_wrapped_dek i,
      vr_nonce = vi_nonce i, vr_ciphertext = vi_ciphertext i, vr_aad = vi_aad i,
      vr_created_at = i32_of (vi_created_at i), vr_expires_at = map_option i32_of (vi_expires_at i),
      vr_wrapped_rotation_at = map_option i32_of (vi_wrapped_rotation_at i)\<rparr>"

definition next_rotation :: "32 word option option \<Rightarrow> NextRotation" where
  "next_rotation v = (case v of None \<Rightarrow> Keep | Some inner \<Rightarrow> Set (map_option i32_of inner))"

fun to_command :: "Op \<Rightarrow> 'b Command" where
  "to_command (OpCreateSecret name secret version) =
     CreateSecret
       \<lparr>sr_name = name_get name, sr_kind = (if si_automatic secret then Automatic else Manual),
        sr_format = (if si_userpass secret then Userpass else Opaque), sr_description = si_description secret,
        sr_rotation_interval_secs = map_option i32_of (si_rotation_interval_secs secret),
        sr_grace_secs = i32_of (si_grace_secs secret), sr_current_version = i32_of (si_current_version secret),
        sr_next_rotation_at = map_option i32_of (si_next_rotation_at secret),
        sr_created_at = i32_of (si_created_at secret), sr_updated_at = i32_of (si_created_at secret),
        sr_target = None\<rparr>
       (version_record version)"
| "to_command (OpPutVersion name expected version expiry desc intv grc nxt upd) =
     PutVersion (name_get name) (i32_of expected) (version_record version) (map_option i32_of expiry) desc
       (map_option i32_of intv) (map_option i32_of grc) (next_rotation nxt) (i32_of upd)"
| "to_command (OpUpdateMeta name expected desc intv grc nxt upd) =
     UpdateMeta (name_get name) (i32_of expected) desc (map_option i32_of intv) (map_option i32_of grc)
       (next_rotation nxt) (i32_of upd)"
| "to_command (OpDeleteSecret name) = DeleteSecret (name_get name)"
| "to_command (OpCreateRole name description is_admin permissions created_at) =
     CreateRole \<lparr>rr_name = name_get name, rr_description = description, rr_is_admin = is_admin,
                 rr_permissions = permissions, rr_created_at = i32_of created_at\<rparr>"
| "to_command (OpSetPermissions name permissions) = SetPermissions (name_get name) permissions"
| "to_command (OpDeleteRole name) = DeleteRole (name_get name)"
| "to_command (OpAddToken name role fp created_at) =
     AddToken \<lparr>tr_name = name_get name, tr_role = map_option name_get role, tr_fingerprint = fp,
               tr_created_at = i32_of created_at, tr_last_used_at = None, tr_revoked_at = None\<rparr>"
| "to_command (OpRevokeToken name revoked_at) = RevokeToken (name_get name) (i32_of revoked_at)"
| "to_command (OpTouchToken fp at) = TouchToken fp (i32_of at)"
| "to_command (OpExpireGraceVersions now) = ExpireGraceVersions (i32_of now)"
| "to_command (OpRewrapVersion name version kms_key_id wrapped_dek wrapped_rotation_at) =
     RewrapVersion (name_get name) (i32_of version) kms_key_id wrapped_dek (i32_of wrapped_rotation_at)"
| "to_command (OpSetKmsRewrapState completed swept updated) =
     SetKmsRewrapState \<lparr>ks_last_completed_rotation_at = i32_of completed, ks_last_swept_at = i32_of swept,
                        ks_updated_at = i32_of updated\<rparr>"
| "to_command (OpAppendAudit at actor client_ip action secret_name outcome) =
     AppendAudit \<lparr>ae_at = i32_of at, ae_actor = actor, ae_client_ip = client_ip, ae_action = action,
                  ae_secret_name = map_option name_get secret_name, ae_outcome = outcome, ae_node_id = 0\<rparr>"
| "to_command (OpRecordAuthFailure ip now mx window_secs lockout_secs) =
     RecordAuthFailure ip (i32_of now) (ucast mx) (uint window_secs) (uint lockout_secs)"

section \<open>The checks\<close>

text \<open>A failed command aborts its transaction.\<close>

definition apply_one :: "'b codec \<Rightarrow> 'b db \<Rightarrow> 'b Command \<Rightarrow> unit StoreResult \<times> 'b db" where
  "apply_one cd d command =
     (case apply_command cd NODE_ID command d of (Inr _, d') \<Rightarrow> (Inr (), d') | (Inl e, _) \<Rightarrow> (Inl e, d))"

definition result_code :: "unit StoreResult \<Rightarrow> nat" where
  "result_code result =
     (case result of
        Inr _ \<Rightarrow> 0 | Inl NotFound \<Rightarrow> 1 | Inl (Conflict _) \<Rightarrow> 2 | Inl VersionConflict \<Rightarrow> 3 | Inl (Internal _) \<Rightarrow> 4)"

definition dump_rows :: "('k, 'v) table \<Rightarrow> ('k \<times> 'v) list" where
  "dump_rows table = map (\<lambda>(key, value). (key, value)) table"

record 'b Snapshot =
  ss_secrets :: "(string \<times> 'b) list"
  ss_versions :: "(string \<times> 'b) list"
  ss_roles :: "(string \<times> 'b) list"
  ss_tokens_by_name :: "(string \<times> bytes) list"
  ss_lockouts :: "(string \<times> 'b) list"
  ss_kms_rewrap :: "(string \<times> 'b) list"
  ss_tokens :: "(bytes \<times> 'b) list"
  ss_audit :: "(u64 \<times> 'b) list"

definition snapshot_of :: "'b db \<Rightarrow> 'b Snapshot" where
  "snapshot_of d =
     \<lparr>ss_secrets = dump_rows (SECRETS d), ss_versions = dump_rows (VERSIONS d), ss_roles = dump_rows (ROLES d),
      ss_tokens_by_name = dump_rows (TOKENS_BY_NAME d), ss_lockouts = dump_rows (LOCKOUTS d),
      ss_kms_rewrap = dump_rows (KMS_REWRAP d), ss_tokens = dump_rows (TOKENS d), ss_audit = dump_rows (AUDIT d)\<rparr>"

definition version_keys :: "'b db \<Rightarrow> string \<Rightarrow> string list" where
  "version_keys d name =
     map fst (trange (\<lambda>key. version_lower name \<le> key \<and> key < version_upper name) (VERSIONS d))"

definition read_version_row :: "'b db \<Rightarrow> string \<Rightarrow> 'b option" where
  "read_version_row d key = tget (VERSIONS d) key"

datatype 'b Before =
    BeforeSecret string "'b option"
  | BeforeVersions "(string \<times> 'b) list"
  | BeforeVersion string "'b option"
  | BeforeNothing

definition snapshot_before :: "'b db \<Rightarrow> 'b Command \<Rightarrow> 'b Before" where
  "snapshot_before d command =
     (case command of
        CreateSecret secret _ \<Rightarrow> BeforeSecret (sr_name secret) (tget (SECRETS d) (sr_name secret))
      | DeleteSecret _ \<Rightarrow> BeforeVersions (dump_rows (VERSIONS d))
      | RewrapVersion name version _ _ _ \<Rightarrow>
          (let key = version_key name version in BeforeVersion key (read_version_row d key))
      | _ \<Rightarrow> BeforeNothing)"

text \<open>A row that a deletion removed must be a version row of the deleted secret.\<close>

definition check_deleted_row :: "string \<Rightarrow> string list \<Rightarrow> string \<Rightarrow> unit harness" where
  "check_deleted_row name after key =
     (if key \<in> set after then Inr ()
      else
        and_then (expect_some ''DeleteSecret removed a row outside its own key prefix''
          (strip_prefix (version_lower name) key)) (\<lambda>field.
        and_then (expect_some ''DeleteSecret removed a row with a foreign version field''
          (parse_i32 field)) (\<lambda>version.
        assert_that (version_key name version = key)
          ''DeleteSecret removed a row that is not one of its own versions'')))"

definition check_per_command ::
  "'b codec \<Rightarrow> 'b db \<Rightarrow> 'b Command \<Rightarrow> 'b Before \<Rightarrow> unit StoreResult \<Rightarrow> unit harness" where
  "check_per_command cd d command before result =
     (case (command, before) of
        (CreateSecret _ _, BeforeSecret name row) \<Rightarrow>
          (if row \<noteq> None then
             and_then (assert_that (case result of Inl (Conflict _) \<Rightarrow> True | _ \<Rightarrow> False)
               ''a second CreateSecret for the same name must be a conflict'') (\<lambda>_.
             assert_that (tget (SECRETS d) name = row)
               ''a rejected CreateSecret must not overwrite the stored secret'')
           else Inr ())
      | (DeleteSecret name, BeforeVersions rows) \<Rightarrow>
          (if \<not> is_ok result then Inr ()
           else
             and_then (assert_that (version_keys d name = [])
               ''a successful DeleteSecret must clear its own version range'') (\<lambda>_.
             let after = map fst (dump_rows (VERSIONS d)) in
             for_each (\<lambda>(key, _). check_deleted_row name after key) rows))
      | (RewrapVersion _ _ _ _ _, BeforeVersion key (Some bs)) \<Rightarrow>
          and_then (expect_some ''decode stored version'' (dec_version cd bs)) (\<lambda>old.
          and_then (expect_some ''RewrapVersion must not remove the row'' (read_version_row d key)) (\<lambda>now.
          and_then (expect_some ''decode rewrapped version'' (dec_version cd now)) (\<lambda>new.
          and_then (assert_that (vr_ciphertext old = vr_ciphertext new) ''rewrap must not touch the ciphertext'') (\<lambda>_.
          and_then (assert_that (vr_nonce old = vr_nonce new) ''rewrap must not touch the nonce'') (\<lambda>_.
          and_then (assert_that (vr_aad old = vr_aad new) ''rewrap must not touch the aad'') (\<lambda>_.
          assert_that (vr_version old = vr_version new) ''rewrap must not renumber a version''))))))
      | _ \<Rightarrow> Inr ())"

definition check_end_state :: "'b codec \<Rightarrow> 'b db \<Rightarrow> unit harness" where
  "check_end_state cd d =
     (let state = snapshot_of d in
      and_then (for_each (\<lambda>(key, bs).
        and_then (expect_some ''stored secret must decode'' (dec_secret cd bs)) (\<lambda>record.
        assert_that (sr_name record = key) ''a secret row must be keyed by its name'')) (ss_secrets state)) (\<lambda>_.
      and_then (for_each (\<lambda>(key, bs).
        and_then (expect_some ''stored role must decode'' (dec_role cd bs)) (\<lambda>record.
        assert_that (rr_name record = key) ''a role row must be keyed by its name'')) (ss_roles state)) (\<lambda>_.
      and_then (for_each (\<lambda>(key, bs).
        and_then (expect_some ''stored token must decode'' (dec_token cd bs)) (\<lambda>record.
        assert_that (tr_fingerprint record = key) ''a token row must be keyed by its own fingerprint''))
        (ss_tokens state)) (\<lambda>_.
      and_then (for_each (\<lambda>(_, fp).
        assert_that (list_ex (\<lambda>(key, _). key = fp) (ss_tokens state))
          ''every name in the token index must resolve to a token row'') (ss_tokens_by_name state)) (\<lambda>_.
      and_then (for_each (\<lambda>(_, bs).
        and_then (expect_some ''stored lockout must decode'' (dec_lockout cd bs)) (\<lambda>record.
        assert_that (lr_failures record \<ge> 1) ''a lockout row is only written on a failure''))
        (ss_lockouts state)) (\<lambda>_.
      and_then (for_each (\<lambda>(position, key, _).
        assert_that (key = word_of_nat position) ''the audit log must stay a gap-free sequence from zero'')
        (enumerate 0 (ss_audit state))) (\<lambda>_.
      for_each (\<lambda>(key, _).
        and_then (expect_some ''a version key must carry the name/version separator''
          (split_once (CHR 0x00) key)) (\<lambda>(name, field).
        and_then (expect_some ''a version key must end in a parseable version'' (parse_i32 field)) (\<lambda>version.
        assert_that (version_key name version = key) ''a version key must re-encode to itself'')))
        (ss_versions state))))))))"

section \<open>The run\<close>

fun run_primary :: "'b codec \<Rightarrow> 'b Command list \<Rightarrow> 'b db \<Rightarrow> ('b db \<times> nat list) harness" where
  "run_primary cd [] primary = Inr (primary, [])"
| "run_primary cd (command # commands) primary =
     (let before = snapshot_before primary command in
      case apply_one cd primary command of (result, primary') \<Rightarrow>
        and_then (check_per_command cd primary' command before result) (\<lambda>_.
        and_then (run_primary cd commands primary') (\<lambda>(final, codes).
        Inr (final, result_code result # codes))))"

fun run_replica :: "'b codec \<Rightarrow> 'b Command list \<Rightarrow> 'b db \<Rightarrow> 'b db \<times> nat list" where
  "run_replica cd [] replica = (replica, [])"
| "run_replica cd (command # commands) replica =
     (case apply_one cd replica command of (result, replica') \<Rightarrow>
        (case run_replica cd commands replica' of (final, codes) \<Rightarrow> (final, result_code result # codes)))"

definition run_apply_sequence :: "'b codec \<Rightarrow> Op list \<Rightarrow> unit harness" where
  "run_apply_sequence cd ops =
     (let commands = map to_command ops in
      and_then (run_primary cd commands empty_db) (\<lambda>(primary, primary_codes).
      case run_replica cd commands empty_db of (replica, replica_codes) \<Rightarrow>
        and_then (assert_that (primary_codes = replica_codes)
          ''the same command sequence must produce the same outcomes on every replica'') (\<lambda>_.
        and_then (assert_that (snapshot_of primary = snapshot_of replica)
          ''the same command sequence must produce byte-identical state on every replica'') (\<lambda>_.
        check_end_state cd primary))))"

end
