(* ===== verification/Fuzz_Commands_Laws.thy ===== *)
theory Fuzz_Commands_Laws
  imports Fuzz_Commands
begin

text \<open>
  The command sequence target never panics. The proof carries an invariant of the store along the
  sequence that is weaker than \<open>vault_inv\<close>, because the commands are arbitrary: rows decode
  and are stored under their own keys, the token index is sound, lockout counters count, and the
  audit keys have no gap.
\<close>

section \<open>The invariant\<close>

definition secrets_keyed :: "'b codec \<Rightarrow> (string \<rightharpoonup> 'b) \<Rightarrow> bool" where
  "secrets_keyed cd S \<longleftrightarrow>
     (\<forall>n b. S n = Some b \<longrightarrow> (\<exists>s. dec_secret cd b = Some s \<and> sr_name s = n \<and> is_valid_secret_name n))"

definition versions_keyed :: "'b codec \<Rightarrow> (string \<rightharpoonup> 'b) \<Rightarrow> bool" where
  "versions_keyed cd V \<longleftrightarrow>
     (\<forall>k b. V k = Some b \<longrightarrow>
        (\<exists>n v. k = version_key n v \<and> is_valid_secret_name n \<and> good_version n v) \<and> dec_version cd b \<noteq> None)"

definition roles_keyed :: "'b codec \<Rightarrow> (string \<rightharpoonup> 'b) \<Rightarrow> bool" where
  "roles_keyed cd R \<longleftrightarrow> (\<forall>n b. R n = Some b \<longrightarrow> (\<exists>r. dec_role cd b = Some r \<and> rr_name r = n))"

definition lockouts_counted :: "'b codec \<Rightarrow> nat \<Rightarrow> (string \<rightharpoonup> 'b) \<Rightarrow> bool" where
  "lockouts_counted cd k L \<longleftrightarrow>
     (\<forall>ip b. L ip = Some b \<longrightarrow>
        (\<exists>r. dec_lockout cd b = Some r \<and> 1 \<le> unat (lr_failures r) \<and> unat (lr_failures r) \<le> k))"

definition audit_dense :: "nat \<Rightarrow> (u64, 'b) table \<Rightarrow> bool" where
  "audit_dense k t \<longleftrightarrow> length t \<le> k \<and> map fst t = map word_of_nat [0 ..< length t]"

definition seq_inv :: "'b codec \<Rightarrow> nat \<Rightarrow> 'b db \<Rightarrow> bool" where
  "seq_inv cd k d \<longleftrightarrow> db_wf d \<and> secrets_keyed cd (tget (SECRETS d)) \<and> versions_keyed cd (tget (VERSIONS d)) \<and>
     roles_keyed cd (tget (ROLES d)) \<and> tokens_inv cd (tget (TOKENS d)) (tget (TOKENS_BY_NAME d)) \<and>
     lockouts_counted cd k (tget (LOCKOUTS d)) \<and> audit_dense k (AUDIT d)"

lemmas keyed_defs = secrets_keyed_def versions_keyed_def roles_keyed_def lockouts_counted_def

definition seq_command :: "'b Command \<Rightarrow> bool" where
  "seq_command c =
     (case c of
        CreateSecret _ v \<Rightarrow> vr_version v \<le> i32_max
      | PutVersion _ _ v _ _ _ _ _ _ \<Rightarrow> vr_version v \<le> i32_max
      | RestoreDatabase _ \<Rightarrow> False
      | _ \<Rightarrow> True)"

lemma to_command_seq: "seq_command (to_command op)"
  by (cases op) (simp_all add: seq_command_def version_record_def i32_of_range)

lemma seq_inv_empty: "seq_inv cd 0 empty_db"
  by (simp add: seq_inv_def) (simp add: empty_db_def keyed_defs tokens_inv_def audit_dense_def)

lemma seq_inv_mono: "seq_inv cd k d \<Longrightarrow> seq_inv cd (Suc k) d"
  by (fastforce simp: seq_inv_def lockouts_counted_def audit_dense_def)

lemma seq_invD:
  assumes "seq_inv cd k d"
  shows "db_wf d" "secrets_keyed cd (tget (SECRETS d))" "versions_keyed cd (tget (VERSIONS d))"
    "roles_keyed cd (tget (ROLES d))" "tokens_inv cd (tget (TOKENS d)) (tget (TOKENS_BY_NAME d))"
    "lockouts_counted cd k (tget (LOCKOUTS d))" "audit_dense k (AUDIT d)"
  using assms by (simp_all add: seq_inv_def)

section \<open>Commands keep it\<close>

lemma apply_meta_name [simp]: "sr_name (apply_meta desc intv grc nxt upd s) = sr_name s"
  by (simp add: apply_meta_def Let_def split: option.split NextRotation.split)

lemma versions_keyed_insert:
  assumes "codec_ok cd" "versions_keyed cd V" "is_valid_secret_name n" "good_version n v"
  shows "versions_keyed cd (V(version_key n v \<mapsto> enc_version cd r))"
  using assms codec_okD(2) [OF assms(1)] unfolding versions_keyed_def by auto

lemma versions_keyed_rewrite:
  assumes "codec_ok cd" "versions_keyed cd V" "V k \<noteq> None"
  shows "versions_keyed cd (V(k \<mapsto> enc_version cd r))"
  using assms codec_okD(2) [OF assms(1)] unfolding versions_keyed_def by auto

lemma versions_keyed_subset:
  "versions_keyed cd V \<Longrightarrow> (\<And>k b. V' k = Some b \<Longrightarrow> V k = Some b) \<Longrightarrow> versions_keyed cd V'"
  unfolding versions_keyed_def by blast

lemma secrets_keyed_insert:
  assumes "codec_ok cd" "secrets_keyed cd S" "is_valid_secret_name (sr_name s)"
  shows "secrets_keyed cd (S(sr_name s \<mapsto> enc_secret cd s))"
  using assms codec_okD(1) [OF assms(1)] unfolding secrets_keyed_def by auto

lemma create_secret_seq:
  assumes cd: "codec_ok cd" and inv: "seq_inv cd k d" and c: "vr_version v \<le> i32_max"
    and ok: "apply_create_secret cd s v d = (Inr u, d')"
  shows "seq_inv cd k d'"
proof -
  note I = seq_invD [OF inv]
  have chk: "is_valid_secret_name (sr_name s)" "is_valid_secret_version (vr_version v)"
    and d': "d' = d\<lparr>SECRETS := tinsert (sr_name s) (enc_secret cd s) (SECRETS d),
      VERSIONS := tinsert (version_key (sr_name s) (vr_version v)) (enc_version cd v) (VERSIONS d)\<rparr>"
    using ok check_secret_row_ok [of "sr_name s" "vr_version v"]
    by (auto simp: apply_create_secret_def Let_def split: sum.splits if_splits)
  have "good_version (sr_name s) (vr_version v)"
    using chk c by (intro good_versionI) simp_all
  then show ?thesis
    using inv I secrets_keyed_insert [OF cd I(2) chk(1)] versions_keyed_insert [OF cd I(3) chk(1)]
    by (simp add: seq_inv_def d' table_simps db_wfD)
qed

lemma supersede_seq:
  assumes cd: "codec_ok cd" and wf: "db_wf d" and V: "versions_keyed cd (tget (VERSIONS d))"
    and ok: "supersede cd name ec ex d = (Inr u, d')"
  shows "d' = d\<lparr>VERSIONS := VERSIONS d'\<rparr> \<and> twf (VERSIONS d') \<and> versions_keyed cd (tget (VERSIONS d'))"
  using ok V wf versions_keyed_rewrite [OF cd V]
  by (auto simp: supersede_def Let_def table_simps db_wfD split: option.splits if_splits)

lemma put_version_seq:
  assumes cd: "codec_ok cd" and inv: "seq_inv cd k d"
    and c: "vr_version v \<le> i32_max"
    and ok: "apply_put_version cd name ec v ex desc intv grc nxt upd d = (Inr (), d')"
  shows "seq_inv cd k d'"
proof -
  note I = seq_invD [OF inv]
  note chk = put_version_valid [OF ok]
  let ?d1 = "d\<lparr>VERSIONS := tinsert (version_key name (vr_version v)) (enc_version cd v) (VERSIONS d)\<rparr>"
  obtain b s d2 where b: "tget (SECRETS d) name = Some b" "dec_secret cd b = Some s"
    and d2: "supersede cd name ec ex ?d1 = (Inr (), d2)"
    and d': "d' = d2\<lparr>SECRETS := tinsert name (enc_secret cd (apply_meta desc intv grc nxt upd
                   (s\<lparr>sr_current_version := vr_version v\<rparr>))) (SECRETS d2)\<rparr>"
    using ok by (auto simp: apply_put_version_def Let_def split: sum.splits option.splits if_splits prod.splits)
  have "good_version name (vr_version v)"
    using chk c by (intro good_versionI) simp_all
  then have V: "versions_keyed cd (tget (VERSIONS ?d1))"
    using versions_keyed_insert [OF cd I(3)] chk db_wfD [OF I(1)] by (simp add: table_simps)
  have "db_wf ?d1" using I(1) by (simp add: table_simps db_wfD)
  note sup = supersede_seq [OF cd this V d2]
  have s: "sr_name s = name" using I(2) b by (fastforce simp: secrets_keyed_def)+
  have tabs: "SECRETS d2 = SECRETS d" "ROLES d2 = ROLES d" "TOKENS d2 = TOKENS d" "TOKENS_BY_NAME d2 = TOKENS_BY_NAME d"
    "LOCKOUTS d2 = LOCKOUTS d" "AUDIT d2 = AUDIT d" "KMS_REWRAP d2 = KMS_REWRAP d"
    using conjunct1 [OF sup] by (cases d, cases d2; simp)+
  have "secrets_keyed cd ((tget (SECRETS d))(name \<mapsto> enc_secret cd (apply_meta desc intv grc nxt upd
      (s\<lparr>sr_current_version := vr_version v\<rparr>))))"
    using secrets_keyed_insert [OF cd I(2), of "apply_meta desc intv grc nxt upd (s\<lparr>sr_current_version := vr_version v\<rparr>)"]
      s chk by simp
  then show ?thesis
    using inv sup I(1) by (simp add: seq_inv_def d' tabs table_simps db_wf_def)
qed

lemma update_meta_seq:
  assumes cd: "codec_ok cd" and inv: "seq_inv cd k d"
    and ok: "apply_update_meta cd name ec desc intv grc nxt upd d = (Inr u, d')"
  shows "seq_inv cd k d'"
proof -
  note I = seq_invD [OF inv]
  obtain b s where b: "tget (SECRETS d) name = Some b" "dec_secret cd b = Some s"
    and d': "d' = d\<lparr>SECRETS := tinsert name (enc_secret cd (apply_meta desc intv grc nxt upd s)) (SECRETS d)\<rparr>"
    using ok by (auto simp: apply_update_meta_def Let_def split: option.splits if_splits)
  have "sr_name s = name" "is_valid_secret_name name" using I(2) b by (fastforce simp: secrets_keyed_def)+
  then show ?thesis
    using inv secrets_keyed_insert [OF cd I(2), of "apply_meta desc intv grc nxt upd s"] db_wfD [OF I(1)]
    by (simp add: seq_inv_def d' table_simps)
qed

lemma delete_secret_seq:
  assumes inv: "seq_inv cd k d" and ok: "apply_delete_secret name d = (Inr u, d')"
  shows "seq_inv cd k d'"
proof -
  note I = seq_invD [OF inv]
  have "tget (SECRETS d) name \<noteq> None" using ok by (auto simp: apply_delete_secret_def Let_def split: if_splits)
  from delete_secret_eq [OF this] ok have d': "d' = d\<lparr>SECRETS := tremove name (SECRETS d),
      VERSIONS := tremove_all (map fst (vs.own_rows name (VERSIONS d))) (VERSIONS d)\<rparr>" by simp
  have "versions_keyed cd (tget (VERSIONS d'))"
    using I(3) by (rule versions_keyed_subset)
      (simp add: d' vs.tget_remove_own [OF db_wfD(2) [OF I(1)]] split: if_splits)
  then show ?thesis
    using inv I(2) db_wfD [OF I(1)] by (auto simp: seq_inv_def d' table_simps secrets_keyed_def split: if_splits)
qed

lemma role_seq:
  assumes cd: "codec_ok cd" and inv: "seq_inv cd k d"
  shows "apply_create_role cd role d = (Inr u, d') \<Longrightarrow> seq_inv cd k d'"
    "apply_set_permissions cd name perms d = (Inr u, d') \<Longrightarrow> seq_inv cd k d'"
    "apply_delete_role cd name d = (Inr u, d') \<Longrightarrow> seq_inv cd k d'"
proof -
  note I = seq_invD [OF inv]
  have upd: "seq_inv cd k (d\<lparr>ROLES := R\<rparr>)" if "twf R" "roles_keyed cd (tget R)" for R
    using inv that by (simp add: seq_inv_def db_wf_def)
  have ins: "roles_keyed cd ((tget (ROLES d))(rr_name r \<mapsto> enc_role cd r))" for r
    using I(4) codec_okD(3) [OF cd] by (simp add: roles_keyed_def)
  show "apply_create_role cd role d = (Inr u, d') \<Longrightarrow> seq_inv cd k d'"
    using db_wfD(3) [OF I(1)] ins [of role]
    by (auto simp: apply_create_role_def table_simps split: if_splits intro!: upd)
  show "apply_set_permissions cd name perms d = (Inr u, d') \<Longrightarrow> seq_inv cd k d'"
  proof -
    assume ok: "apply_set_permissions cd name perms d = (Inr u, d')"
    then obtain b r where b: "tget (ROLES d) name = Some b" "dec_role cd b = Some r"
      and d': "d' = d\<lparr>ROLES := tinsert name (enc_role cd (r\<lparr>rr_permissions := perms\<rparr>)) (ROLES d)\<rparr>"
      by (auto simp: apply_set_permissions_def split: option.splits)
    have "rr_name r = name" using I(4) b by (fastforce simp: roles_keyed_def)
    then show ?thesis
      unfolding d' using db_wfD(3) [OF I(1)] ins [of "r\<lparr>rr_permissions := perms\<rparr>"]
      by (intro upd) (simp_all add: table_simps)
  qed
  show "apply_delete_role cd name d = (Inr u, d') \<Longrightarrow> seq_inv cd k d'"
    using db_wfD(3) [OF I(1)] I(4)
    by (auto simp: apply_delete_role_def Let_def table_simps roles_keyed_def split: sum.splits if_splits intro!: upd)
qed

lemma token_seq:
  assumes cd: "codec_ok cd" and inv: "seq_inv cd k d"
  shows "apply_add_token cd t d = (Inr u, d') \<Longrightarrow> seq_inv cd k d'"
    "apply_revoke_token cd name at d = (Inr u, d') \<Longrightarrow> seq_inv cd k d'"
    "apply_touch_token cd fp at d = (Inr u, d') \<Longrightarrow> seq_inv cd k d'"
proof -
  note I = seq_invD [OF inv]
  have upd: "seq_inv cd k (d\<lparr>TOKENS := tinsert f (enc_token cd t') (TOKENS d)\<rparr>)"
    if "tget (TOKENS d) f = Some b" "dec_token cd b = Some t" "tr_name t' = tr_name t"
      "tr_fingerprint t' = tr_fingerprint t" for f b t t'
    using inv tokens_inv_rewrite [OF I(5) cd that] db_wfD(4) [OF I(1)]
    by (simp add: seq_inv_def db_wf_def table_simps)
  show "apply_add_token cd t d = (Inr u, d') \<Longrightarrow> seq_inv cd k d'"
    using inv tokens_inv_add [OF I(5) cd, of t] db_wfD(4,5) [OF I(1)]
    by (auto simp: apply_add_token_def Let_def seq_inv_def db_wf_def table_simps split: if_splits)
  show "apply_revoke_token cd name at d = (Inr u, d') \<Longrightarrow> seq_inv cd k d'"
    "apply_touch_token cd fp at d = (Inr u, d') \<Longrightarrow> seq_inv cd k d'"
    using inv by (auto simp: apply_revoke_token_def apply_touch_token_def split: option.splits if_splits intro: upd)
qed

lemma version_seq:
  assumes cd: "codec_ok cd" and inv: "seq_inv cd k d"
  shows "apply_expire_grace_versions cd now d = (Inr u, d') \<Longrightarrow> seq_inv cd k d'"
    "apply_rewrap_version cd name v kid w at d = (Inr u, d') \<Longrightarrow> seq_inv cd k d'"
proof -
  note I = seq_invD [OF inv]
  have upd: "seq_inv cd k (d\<lparr>VERSIONS := V\<rparr>)" if "twf V" "versions_keyed cd (tget V)" for V
    using inv that by (simp add: seq_inv_def db_wf_def)
  show "apply_expire_grace_versions cd now d = (Inr u, d') \<Longrightarrow> seq_inv cd k d'"
    using db_wfD(2) [OF I(1)]
    by (auto simp: apply_expire_grace_versions_def table_simps split: sum.splits if_splits
        intro!: upd intro: versions_keyed_subset [OF I(3)])
  show "apply_rewrap_version cd name v kid w at d = (Inr u, d') \<Longrightarrow> seq_inv cd k d'"
    using inv db_wfD(2) [OF I(1)]
    by (auto simp: apply_rewrap_version_def Let_def table_simps split: option.splits if_splits
        intro!: upd versions_keyed_rewrite [OF cd I(3)])
qed

lemma kms_seq: "seq_inv cd k d \<Longrightarrow> apply_set_kms_rewrap_state cd st d = (Inr u, d') \<Longrightarrow> seq_inv cd k d'"
  by (auto simp: apply_set_kms_rewrap_state_def seq_inv_def db_wf_def table_simps)

section \<open>Counters\<close>

lemma lockout_seq:
  assumes cd: "codec_ok cd" and inv: "seq_inv cd k d" and k: "Suc k < 2 ^ 32"
    and ok: "apply_record_auth_failure cd key now mx window lockout d = (Inr u, d')"
  shows "seq_inv cd (Suc k) d'"
proof -
  note I = seq_invD [OF inv] and J = seq_invD [OF seq_inv_mono [OF inv]]
  obtain r where r: "unat (lr_failures r) \<le> k"
    and d': "d' = d\<lparr>LOCKOUTS := tinsert key (enc_lockout cd (bump_lockout now mx window lockout r)) (LOCKOUTS d)\<rparr>"
  proof (cases "tget (LOCKOUTS d) key")
    case None
    with ok show ?thesis
      by (intro that [of "\<lparr>lr_failures = 0, lr_window_start = now, lr_locked_until = None\<rparr>"])
         (simp_all add: apply_record_auth_failure_def)
  next
    case (Some b)
    with I(6) obtain r where "dec_lockout cd b = Some r" "unat (lr_failures r) \<le> k"
      unfolding lockouts_counted_def by blast
    with Some ok show ?thesis by (intro that [of r]) (simp_all add: apply_record_auth_failure_def)
  qed
  have one: "unat (f + 1) = Suc (unat f)" if "unat f \<le> k" for f :: u32
    using that k by (simp add: unat_word_ariths)
  have "unat (lr_failures (bump_lockout now mx window lockout r)) \<in> {1, Suc (unat (lr_failures r))}"
    using one [OF r] by (simp add: bump_lockout_def Let_def)
  then have "lockouts_counted cd (Suc k) ((tget (LOCKOUTS d))(key \<mapsto> enc_lockout cd (bump_lockout now mx window lockout r)))"
    using J(6) r codec_okD(5) [OF cd] by (auto simp: lockouts_counted_def)
  then show ?thesis
    using J db_wfD(6) [OF I(1)] by (simp add: seq_inv_def d' table_simps db_wf_def)
qed

lemma word_of_nat_less_u64: "i < j \<Longrightarrow> j < 2 ^ 64 \<Longrightarrow> (word_of_nat i :: u64) < word_of_nat j"
  by (simp add: word_less_nat_alt unat_of_nat)

lemma tinsert_last:
  "(\<And>r. r \<in> set t \<Longrightarrow> fst r < k) \<Longrightarrow> tinsert k v t = t @ [(k, v)]"
  by (induction t) (auto dest: order.strict_implies_not_eq less_asym)

lemma audit_seq:
  assumes cd: "codec_ok cd" and inv: "seq_inv cd k d" and k: "Suc k < 2 ^ 32"
    and ok: "apply_append_audit cd node entry d = (Inr u, d')"
  shows "seq_inv cd (Suc k) d'"
proof -
  note I = seq_invD [OF inv] and J = seq_invD [OF seq_inv_mono [OF inv]]
  let ?t = "AUDIT d" let ?n = "length ?t"
  have n: "?n \<le> k" "map fst ?t = map word_of_nat [0 ..< ?n]" using I(7) by (auto simp: audit_dense_def)
  have lt: "fst row < word_of_nat ?n" if "row \<in> set ?t" for row
  proof -
    have "fst row \<in> set (map fst ?t)" using that by simp
    then obtain i where "fst row = word_of_nat i" "i < ?n" unfolding n(2) by auto
    then show ?thesis using n(1) k by (simp add: word_of_nat_less_u64)
  qed
  have small: "i < ?n \<Longrightarrow> (word_of_nat i :: u64) \<le> MAX_AUDIT_KEY" for i
    using n(1) k by (simp add: word_le_nat_alt unat_of_nat MAX_AUDIT_KEY_def)
  have "trange (\<lambda>k. k \<le> MAX_AUDIT_KEY) ?t = ?t"
    unfolding trange_def filter_id_conv
  proof
    fix row assume "row \<in> set ?t"
    then have "fst row \<in> set (map fst ?t)" by simp
    then show "fst row \<le> MAX_AUDIT_KEY" unfolding n(2) using small by auto
  qed
  then have last: "last_audit_key ?t = (if ?t = [] then None else Some (word_of_nat (?n - 1)))"
    by (auto simp: last_audit_key_def tkeys_def n(2) last_map Let_def)
  have "checked_add_u64 (word_of_nat (?n - 1)) 1 = Some (word_of_nat ?n)" if "?t \<noteq> []"
  proof -
    have "unat (word_of_nat (?n - 1) :: u64) = ?n - 1" using n(1) k by (simp add: unat_of_nat)
    moreover have "(word_of_nat (?n - 1) :: u64) + 1 = word_of_nat ?n"
      using that by (metis Suc_pred' length_greater_0_conv of_nat_Suc add.commute)
    ultimately show ?thesis using n(1) k that by (simp add: checked_add_u64_def)
  qed
  then have d': "d' = d\<lparr>AUDIT := tinsert (word_of_nat ?n) (enc_audit cd (entry\<lparr>ae_node_id := node\<rparr>)) ?t\<rparr>"
    using ok last by (auto simp: apply_append_audit_def Let_def split: if_splits)
  have "audit_dense (Suc k) (AUDIT d')"
    using n lt by (simp add: d' tinsert_last audit_dense_def)
  then show ?thesis
    using J db_wfD(7) [OF I(1)] by (simp add: seq_inv_def d' table_simps db_wf_def)
qed

lemma apply_one_seq:
  assumes cd: "codec_ok cd" and inv: "seq_inv cd k d" and c: "seq_command c" and k: "Suc k < 2 ^ 32"
  shows "seq_inv cd (Suc k) (snd (apply_one cd d c))"
proof (cases "apply_command cd NODE_ID c d")
  case (Pair res d')
  note mono = seq_inv_mono [of cd k]
  show ?thesis
  proof (cases res)
    case (Inr u)
    with Pair have ok: "apply_command cd NODE_ID c d = (Inr u, d')" by simp
    have "seq_inv cd (Suc k) d'"
      using ok c by (cases c)
        (auto simp: seq_command_def intro: mono
          create_secret_seq [OF cd inv] put_version_seq [OF cd inv] update_meta_seq [OF cd inv] delete_secret_seq [OF inv]
          role_seq [OF cd inv] token_seq [OF cd inv] version_seq [OF cd inv] kms_seq [OF inv]
          lockout_seq [OF cd inv k] audit_seq [OF cd inv k])
    with Pair Inr show ?thesis by (simp add: apply_one_def)
  qed (use Pair inv mono in \<open>simp add: apply_one_def\<close>)
qed

section \<open>The checks succeed\<close>

lemma dump_rows_id [simp]: "dump_rows t = t"
  by (simp add: dump_rows_def)

lemma parse_version_field:
  assumes "good_version n v"
  shows "parse_i32 (show_int_pad 10 v) = Some v"
proof -
  have v: "0 \<le> v" "v \<le> i32_max" using assms by (simp_all add: good_version_def)
  have "show_int_pad 10 v \<noteq> []" using show_int_pad_version(1) [OF v] by auto
  then show ?thesis using show_int_pad_version [OF v] v by (simp add: parse_i32_digits)
qed

lemma between_prefix:
  "name @ [CHR 0x00] \<le> key \<Longrightarrow> key < name @ [CHR 0x01] \<Longrightarrow> \<exists>rest. key = name @ CHR 0x00 # rest"
proof (induction name arbitrary: key)
  case Nil
  then obtain c r where key: "key = c # r" by (cases key) auto
  have "c < CHR 0x01" using Nil(2) key by auto
  then have "of_char c < (1 :: nat)" by (simp add: less_char_def)
  then have "(of_char c :: nat) = of_char (CHR 0x00)" by simp
  then have "c = CHR 0x00" by (simp only: of_char_eq_iff)
  with key show ?case by simp
next
  case (Cons x name)
  then obtain y r where key: "key = y # r" by (cases key) auto
  then have "x = y" "name @ [CHR 0x00] \<le> r" "r < name @ [CHR 0x01]" using Cons.prems by auto
  with Cons.IH [of r] key show ?case by auto
qed

lemma in_range_own:
  assumes "in_version_range name (version_key m v)" "CHR 0x00 \<notin> set name" "CHR 0x00 \<notin> set m"
  shows "m = name"
proof -
  obtain rest where "version_key m v = name @ CHR 0x00 # rest"
    using between_prefix assms(1) unfolding in_version_range_def version_lower_def version_upper_def by blast
  moreover have "version_key m v = m @ CHR 0x00 # show_int_pad 10 v" by (simp add: version_key_def)
  ultimately show ?thesis
    using split_once_Some [of "CHR 0x00" "version_key m v"] assms(2,3) by (metis option.inject prod.inject)
qed

lemma check_delete_passes:
  assumes inv: "seq_inv cd k d" and ok: "apply_delete_secret name d = (Inr u, d')"
  shows "version_keys d' name = []" "row \<in> set (VERSIONS d) \<Longrightarrow> check_deleted_row name (map fst (VERSIONS d')) (fst row) = Inr ()"
proof -
  note I = seq_invD [OF inv] and I' = seq_invD [OF delete_secret_seq [OF inv ok]]
  have sec: "tget (SECRETS d) name \<noteq> None" using ok by (auto simp: apply_delete_secret_def Let_def split: if_splits)
  from delete_secret_eq [OF this] ok
  have V': "tget (VERSIONS d') key = (if version_from_key name key = None then tget (VERSIONS d) key else None)" for key
    by (auto simp: vs.tget_remove_own [OF db_wfD(2) [OF I(1)]])
  have "is_valid_secret_name name" using sec I(2) by (fastforce simp: secrets_keyed_def)
  then have nul: "CHR 0x00 \<notin> set name" by (rule valid_name_no_nul)
  have keys: "key \<in> set (map fst (VERSIONS d')) \<longleftrightarrow> tget (VERSIONS d') key \<noteq> None" for key
    using tkeys_get [OF db_wfD(2) [OF I'(1)]] by (simp add: tkeys_def)
  have "\<not> in_version_range name (fst row)" if row: "row \<in> set (VERSIONS d')" for row
  proof
    assume range: "in_version_range name (fst row)"
    have "fst row \<in> set (map fst (VERSIONS d'))" using row by simp
    then obtain b where b: "tget (VERSIONS d') (fst row) = Some b" using keys by auto
    then obtain m v where m: "fst row = version_key m v" "is_valid_secret_name m" "good_version m v"
      using I'(3) unfolding versions_keyed_def by blast
    then have "m = name" using in_range_own range nul valid_name_no_nul by metis
    then show False using vs.parse_key [OF m(3)] m(1) b V' [of "fst row"] by simp
  qed
  then show "version_keys d' name = []"
    by (auto simp: version_keys_def trange_def filter_empty_conv in_version_range_def)
  assume "row \<in> set (VERSIONS d)"
  then have row: "tget (VERSIONS d) (fst row) \<noteq> None"
    using tkeys_get [OF db_wfD(2) [OF I(1)], of "fst row"] by (simp add: tkeys_def)
  show "check_deleted_row name (map fst (VERSIONS d')) (fst row) = Inr ()"
  proof (cases "fst row \<in> set (map fst (VERSIONS d'))")
    case True
    then show ?thesis by (simp add: check_deleted_row_def)
  next
    case False
    then obtain v where "version_from_key name (fst row) = Some v"
      using keys [of "fst row"] V' [of "fst row"] row by (auto split: if_splits)
    then have v: "fst row = version_key name v" "good_version name v" using vs.parse_sound by blast+
    have "strip_prefix (version_lower name) (fst row) = Some (show_int_pad 10 v)"
      unfolding strip_prefix_Some v(1) by (simp add: version_lower_def version_key_def)
    then show ?thesis
      using False v parse_version_field [OF v(2)] by (simp add: check_deleted_row_def harness_simps)
  qed
qed

lemma check_rewrap_passes:
  assumes cd: "codec_ok cd" and inv: "seq_inv cd k d"
    and row: "tget (VERSIONS d) (version_key name v) = Some b"
  shows "\<exists>old new now. dec_version cd b = Some old \<and>
    read_version_row (snd (apply_one cd d (RewrapVersion name v kid w at))) (version_key name v) = Some now \<and>
    dec_version cd now = Some new \<and> vr_ciphertext old = vr_ciphertext new \<and> vr_nonce old = vr_nonce new \<and>
    vr_aad old = vr_aad new \<and> vr_version old = vr_version new"
proof -
  note I = seq_invD [OF inv]
  obtain r where r: "dec_version cd b = Some r" using I(3) row unfolding versions_keyed_def by blast
  have "apply_one cd d (RewrapVersion name v kid w at) = apply_rewrap_version cd name v kid w at d"
    unfolding apply_one_def apply_command.simps rewrap_row [OF cd I(1) row r] by simp
  then show ?thesis
    using row r db_wfD(2) [OF I(1)] codec_okD(2) [OF cd]
    by (auto simp: rewrap_row [OF cd I(1) row r] read_version_row_def table_simps)
qed

lemma check_per_command_passes:
  assumes cd: "codec_ok cd" and inv: "seq_inv cd k d"
  shows "check_per_command cd (snd (apply_one cd d c)) c (snapshot_before d c) (fst (apply_one cd d c)) = Inr ()"
proof (cases c)
  case (CreateSecret s v)
  then show ?thesis
    by (auto simp: check_per_command_def snapshot_before_def harness_simps apply_one_def apply_create_secret_def
        check_secret_row_def check_secret_name_def)
next
  case (DeleteSecret name)
  show ?thesis
  proof (cases "apply_delete_secret name d")
    case (Pair res d')
    then show ?thesis
      using check_delete_passes [OF inv, of name "()" d'] DeleteSecret
      by (cases res) (auto simp: check_per_command_def snapshot_before_def harness_simps apply_one_def list_all_iff)
  qed
next
  case (RewrapVersion name v kid w at)
  show ?thesis
  proof (cases "tget (VERSIONS d) (version_key name v)")
    case (Some b)
    from check_rewrap_passes [OF cd inv this, of kid w at] show ?thesis
      unfolding RewrapVersion by (auto simp: check_per_command_def snapshot_before_def read_version_row_def Some harness_simps)
  qed (simp add: check_per_command_def snapshot_before_def read_version_row_def RewrapVersion)
qed (simp_all add: check_per_command_def snapshot_before_def)

lemma list_all_rows: "twf t \<Longrightarrow> list_all P t \<longleftrightarrow> (\<forall>k b. tget t k = Some b \<longrightarrow> P (k, b))"
  by (auto simp: list_all_iff tin_rows)

lemma check_end_state_passes:
  assumes inv: "seq_inv cd k d"
  shows "check_end_state cd d = Inr ()"
proof -
  note I = seq_invD [OF inv]
  note rows = list_all_rows [OF db_wfD(1) [OF I(1)]] list_all_rows [OF db_wfD(2) [OF I(1)]]
    list_all_rows [OF db_wfD(3) [OF I(1)]] list_all_rows [OF db_wfD(4) [OF I(1)]]
    list_all_rows [OF db_wfD(5) [OF I(1)]] list_all_rows [OF db_wfD(6) [OF I(1)]]
  have index: "list_ex (\<lambda>(key, _). key = fp) (TOKENS d)" if name: "tget (TOKENS_BY_NAME d) n = Some fp" for n fp
  proof -
    obtain b where "tget (TOKENS d) fp = Some b" using I(5) name unfolding tokens_inv_def by blast
    then have "(fp, b) \<in> set (TOKENS d)" by (simp add: tin_rows [OF db_wfD(4) [OF I(1)]])
    then show ?thesis by (auto simp: list_ex_iff)
  qed
  have audit: "list_all (\<lambda>(position, key, _). key = word_of_nat position) (enumerate 0 (AUDIT d))"
  proof -
    have "fst (AUDIT d ! i) = word_of_nat i" if "i < length (AUDIT d)" for i
      using I(7) that nth_map [of i "AUDIT d" fst] by (simp add: audit_dense_def)
    then show ?thesis by (fastforce simp: list_all_iff in_set_enumerate_eq)
  qed
  have key: "split_once (CHR 0x00) (version_key n v) = Some (n, show_int_pad 10 v)"
    if "is_valid_secret_name n" for n v
    using valid_name_no_nul [OF that] by (simp add: split_once_Some version_key_def)
  have versions: "\<exists>n f v. split_once (CHR 0x00) key = Some (n, f) \<and> parse_i32 f = Some v \<and> version_key n v = key"
    if "tget (VERSIONS d) key = Some b" for key b
    using I(3) that key parse_version_field unfolding versions_keyed_def by blast
  have failures: "lr_failures r \<ge> 1" if "1 \<le> unat (lr_failures r)" for r
    using that by (simp add: word_le_nat_alt)
  show ?thesis
    unfolding check_end_state_def Let_def snapshot_of_def dump_rows_id Snapshot.select_convs harness_simps
      case_prod_beta rows fst_conv snd_conv
  proof (intro conjI allI impI exI [of _ "()"] refl)
    show "\<exists>a. dec_secret cd b = Some a \<and> sr_name a = n" if "tget (SECRETS d) n = Some b" for n b
      using I(2) that unfolding secrets_keyed_def by blast
    show "\<exists>a. dec_role cd b = Some a \<and> rr_name a = n" if "tget (ROLES d) n = Some b" for n b
      using I(4) that unfolding roles_keyed_def by blast
    show "\<exists>a. dec_token cd b = Some a \<and> tr_fingerprint a = f" if "tget (TOKENS d) f = Some b" for f b
      using I(5) that unfolding tokens_inv_def by blast
    show "\<exists>a. dec_lockout cd b = Some a \<and> 1 \<le> lr_failures a" if "tget (LOCKOUTS d) ip = Some b" for ip b
      using I(6) that failures unfolding lockouts_counted_def by blast
    show "\<exists>a. split_once CHR 0x00 key = Some a \<and> (\<exists>v. parse_i32 (snd a) = Some v \<and> version_key (fst a) v = key)"
      if "tget (VERSIONS d) key = Some b" for key b
      using versions [OF that] by force
  qed (rule index [unfolded case_prod_beta] audit [unfolded case_prod_beta], assumption?)+
qed

section \<open>The sequence\<close>

lemma run_primary_passes:
  assumes cd: "codec_ok cd"
  shows "seq_inv cd k d \<Longrightarrow> list_all seq_command cs \<Longrightarrow> k + length cs < 2 ^ 32 \<Longrightarrow>
    \<exists>final codes. run_primary cd cs d = Inr (final, codes) \<and> run_replica cd cs d = (final, codes) \<and>
      seq_inv cd (k + length cs) final"
proof (induction cs arbitrary: k d)
  case (Cons c cs)
  obtain res d' where step: "apply_one cd d c = (res, d')" by (cases "apply_one cd d c")
  have "Suc k < 2 ^ 32" using Cons.prems(3) by simp
  then have "seq_inv cd (Suc k) d'"
    using apply_one_seq [OF cd Cons.prems(1), of c] Cons.prems(2) step by simp
  then obtain final codes where "run_primary cd cs d' = Inr (final, codes)" "run_replica cd cs d' = (final, codes)"
    "seq_inv cd (Suc k + length cs) final"
    using Cons.IH [of "Suc k" d'] Cons.prems(2,3) by auto
  then show ?case
    using check_per_command_passes [OF cd Cons.prems(1), of c] step by (simp add: Let_def and_then_def)
qed simp

text \<open>
  C21: no sequence of fewer than 2 to the 32 commands makes the command target panic. After every command, creating a
  secret again was refused without a change, deleting one has removed exactly its own version
  rows, and re-wrapping a data key has left ciphertext, nonce, associated data and number; two
  stores that apply the sequence agree on every outcome and on every byte; and in the end every
  row decodes and is stored under its own key, every indexed token exists, every lockout row
  counts a failure and the audit keys have no gap. The bound keeps the 32-bit failure counter
  from wrapping to zero.
\<close>

theorem command_target_never_panics:
  assumes "codec_ok cd" "length ops < 2 ^ 32"
  shows "run_apply_sequence cd ops = Inr ()"
proof -
  have "list_all seq_command (map to_command ops)" by (simp add: list_all_iff to_command_seq)
  then obtain final codes where "run_primary cd (map to_command ops) empty_db = Inr (final, codes)"
    "run_replica cd (map to_command ops) empty_db = (final, codes)" "seq_inv cd (length ops) final"
    using run_primary_passes [OF assms(1) seq_inv_empty, of "map to_command ops"] assms(2) by auto
  then show ?thesis
    using check_end_state_passes by (simp add: run_apply_sequence_def and_then_def assert_that_def)
qed

theorem command_target_never_panics_witness:
  "run_apply_sequence row_codec
     [OpDeleteSecret (Pool 3), OpRecordAuthFailure ''10.0.0.1'' 5 3 60 900, OpAppendAudit 1 None None ''login'' None ''ok''] = Inr ()"
  by (rule command_target_never_panics) simp_all

end
