(* ===== verification/Fuzz_Backup.thy ===== *)
theory Fuzz_Backup
  imports Fuzz_Harness Store_Backup
begin

text \<open>
  The fuzz target \<open>backup_restore_roundtrip.rs\<close>: arbitrary rows are restored into an empty store,
  dumped, and restored again. It states the contract of \<open>store/backup.rs\<close> for backups
  with duplicate keys, rows in any order and unacceptable rows; here it holds for every input.
\<close>

section \<open>The target\<close>

record 'b BackupInput =
  bi_version :: u32
  bi_secrets :: "(string \<times> 'b) list"
  bi_versions :: "(string \<times> 'b) list"
  bi_roles :: "(string \<times> 'b) list"
  bi_tokens :: "(bytes \<times> 'b) list"
  bi_tokens_by_name :: "(string \<times> bytes) list"
  bi_audit :: "(u64 \<times> 'b) list"
  bi_kms_rewrap :: "(string \<times> 'b) list"

definition to_backup :: "'b BackupInput \<Rightarrow> 'b BackupData" where
  "to_backup i =
     \<lparr>bd_version = bi_version i, bd_secrets = bi_secrets i, bd_versions = bi_versions i,
      bd_roles = bi_roles i, bd_tokens = bi_tokens i, bd_tokens_by_name = bi_tokens_by_name i,
      bd_audit = bi_audit i, bd_kms_rewrap = bi_kms_rewrap i\<rparr>"

text \<open>Collecting rows into a \<open>BTreeMap\<close> and reading it back.\<close>

definition collapse :: "('k::linorder \<times> 'v) list \<Rightarrow> ('k \<times> 'v) list" where
  "collapse rows = tinsert_all rows []"

definition expected_backup :: "'b BackupInput \<Rightarrow> 'b BackupData" where
  "expected_backup i =
     \<lparr>bd_version = BACKUP_VERSION, bd_secrets = collapse (bi_secrets i), bd_versions = collapse (bi_versions i),
      bd_roles = collapse (bi_roles i), bd_tokens = collapse (bi_tokens i),
      bd_tokens_by_name = collapse (bi_tokens_by_name i), bd_audit = collapse (bi_audit i),
      bd_kms_rewrap = collapse (bi_kms_rewrap i)\<rparr>"

definition same_backup :: "'b BackupData \<Rightarrow> 'b BackupData \<Rightarrow> bool" where
  "same_backup a b \<longleftrightarrow> bd_version a = bd_version b \<and> bd_secrets a = bd_secrets b \<and>
     bd_versions a = bd_versions b \<and> bd_roles a = bd_roles b \<and> bd_tokens a = bd_tokens b \<and>
     bd_tokens_by_name a = bd_tokens_by_name b \<and> bd_audit a = bd_audit b \<and> bd_kms_rewrap a = bd_kms_rewrap b"

definition backup_rows_acceptable :: "'b BackupData \<Rightarrow> bool" where
  "backup_rows_acceptable data \<longleftrightarrow>
     list_all (\<lambda>(name, _). is_valid_secret_name name) (bd_secrets data) \<and>
     list_all (\<lambda>(key, _). case split_version_key key of
        Some (name, version) \<Rightarrow> is_valid_secret_name name \<and> is_valid_secret_version version
      | None \<Rightarrow> False) (bd_versions data) \<and>
     list_all (\<lambda>(key, _). key \<le> MAX_AUDIT_KEY) (bd_audit data)"

definition run_backup_restore :: "'b BackupInput \<Rightarrow> unit harness" where
  "run_backup_restore i =
     (let db0 = empty_db; data = to_backup i in
      if bi_version i \<noteq> BACKUP_VERSION \<or> \<not> backup_rows_acceptable data then
        (let before = dump_database db0 in
         case restore_database data db0 of (result, db1) \<Rightarrow>
           and_then (assert_that (\<not> is_ok result)
             ''a foreign backup version or an unacceptable row must be rejected'') (\<lambda>_.
           let after = dump_database db1 in
           assert_that (same_backup before after) ''a rejected restore must leave the store untouched''))
      else
        (case restore_database data db0 of (result, db1) \<Rightarrow>
           and_then (expect_ok ''restore of a well-versioned backup'' result) (\<lambda>_.
           let dumped = dump_database db1 in
           and_then (assert_that (same_backup dumped (expected_backup i))
             ''dump after restore must reproduce the restored rows exactly'') (\<lambda>_.
           case restore_database data db1 of (result, db2) \<Rightarrow>
             and_then (expect_ok ''second restore'' result) (\<lambda>_.
             let again = dump_database db2 in
             and_then (assert_that (same_backup dumped again) ''restore must be idempotent'') (\<lambda>_.
             case restore_database dumped db2 of (result, db3) \<Rightarrow>
               and_then (expect_ok ''restore of a dump'' result) (\<lambda>_.
               let round = dump_database db3 in
               assert_that (same_backup dumped round) ''dump -> restore -> dump must be stable'')))))))"

section \<open>What a restore leaves\<close>

lemma twf_collapse [simp]: "twf (collapse rows)"
  by (simp add: collapse_def table_simps)

lemma clear_table: "twf t \<Longrightarrow> tremove_all (tkeys t) t = []"
  by (rule ttable_eqI) (auto simp: table_simps tkeys_get fun_eq_iff)

lemma restore_collapse:
  "twf t \<Longrightarrow> restore_str rows t = collapse rows"
  "twf u \<Longrightarrow> restore_bytes brows u = collapse brows"
  "twf w \<Longrightarrow> restore_u64 arows w = collapse arows"
  by (simp_all add: restore_defs clear_table collapse_def)

lemma collapse_collapse [simp]: "collapse (collapse rows) = collapse rows"
  unfolding collapse_def by (rule ttable_eqI)
    (simp_all add: table_simps tbl.map_of_rev_rows [of "tinsert_all rows []", simplified tbl.wf_ins_all [folded tinsert_all_eq]])

lemma collapse_keys: "fst ` set (collapse rows) = fst ` set rows"
proof (rule set_eqI)
  fix k
  have "k \<in> fst ` set (collapse rows) \<longleftrightarrow> tget (collapse rows) k \<noteq> None"
    using tkeys_get [OF twf_collapse, of k rows] by (simp add: tkeys_def)
  also have "\<dots> \<longleftrightarrow> k \<in> fst ` set rows"
    by (simp add: collapse_def table_simps map_of_eq_None_iff)
  finally show "k \<in> fst ` set (collapse rows) \<longleftrightarrow> k \<in> fst ` set rows" .
qed

lemma list_all_fst: "list_all (\<lambda>(k, _). P k) rows \<longleftrightarrow> (\<forall>k \<in> fst ` set rows. P k)"
  by (auto simp: list_all_iff)

lemma acceptable_checked: "backup_rows_acceptable data \<longleftrightarrow> check_secret_rows data = Inr ()"
  unfolding check_secret_rows_ok secret_keys_ok_def version_keys_ok_def audit_keys_ok_def
    backup_rows_acceptable_def list_all_fst by (auto simp: list_all_iff)

definition restored :: "'b BackupData \<Rightarrow> 'b db \<Rightarrow> 'b db" where
  "restored data d =
     d\<lparr>SECRETS := collapse (bd_secrets data), VERSIONS := collapse (bd_versions data),
       ROLES := collapse (bd_roles data), TOKENS_BY_NAME := collapse (bd_tokens_by_name data),
       TOKENS := collapse (bd_tokens data), AUDIT := collapse (bd_audit data),
       KMS_REWRAP := collapse (bd_kms_rewrap data)\<rparr>"

lemma restore_database_restored:
  assumes "db_wf d" "bd_version data = BACKUP_VERSION" "backup_rows_acceptable data"
  shows "restore_database data d = (Inr (), restored data d)"
  using assms by (simp add: restore_database_def restore_tables_def acceptable_checked restored_def
      restore_collapse db_wfD)

lemma restore_database_rejected:
  assumes "bd_version data \<noteq> BACKUP_VERSION \<or> \<not> backup_rows_acceptable data"
  shows "\<exists>e. restore_database data d = (Inl e, d)"
  using assms by (auto simp: restore_database_def restore_tables_def acceptable_checked split: sum.splits)

lemma db_wf_restored: "db_wf d \<Longrightarrow> db_wf (restored data d)"
  by (simp add: restored_def db_wf_def)

lemma dump_restored:
  "dump_database (restored data d) =
     \<lparr>bd_version = BACKUP_VERSION, bd_secrets = collapse (bd_secrets data), bd_versions = collapse (bd_versions data),
      bd_roles = collapse (bd_roles data), bd_tokens = collapse (bd_tokens data),
      bd_tokens_by_name = collapse (bd_tokens_by_name data), bd_audit = collapse (bd_audit data),
      bd_kms_rewrap = collapse (bd_kms_rewrap data)\<rparr>"
  by (simp add: dump_database_def restored_def)

lemma acceptable_dump:
  "backup_rows_acceptable data \<Longrightarrow> backup_rows_acceptable (dump_database (restored data d))"
  by (simp add: backup_rows_acceptable_def dump_restored list_all_fst collapse_keys)

text \<open>
  C34: no backup makes the round trip target panic. A backup of another version, or with a secret
  name, version key or audit key that no write path would produce, is refused and leaves the
  store as it was; any other backup, with its rows in any order and keys repeated, is restored to
  exactly the last row of each key; restoring it again changes nothing, and the dump of the
  restored store can itself be restored without a change.
\<close>

theorem backup_target_never_panics: "run_backup_restore i = Inr ()"
proof (cases "bi_version i \<noteq> BACKUP_VERSION \<or> \<not> backup_rows_acceptable (to_backup i)")
  case True
  then obtain e where "restore_database (to_backup i) empty_db = (Inl e, empty_db)"
    using restore_database_rejected [of "to_backup i" empty_db] by (auto simp: to_backup_def)
  with True show ?thesis by (simp add: run_backup_restore_def Let_def harness_simps same_backup_def)
next
  case False
  let ?data = "to_backup i" let ?dumped = "dump_database (restored ?data empty_db)"
  have v: "bd_version ?data = BACKUP_VERSION" using False by (simp add: to_backup_def)
  have r: "restore_database ?data d = (Inr (), restored ?data d)"
    "restore_database ?dumped d = (Inr (), restored ?dumped d)" if "db_wf d" for d :: "'a db"
    using that False v acceptable_dump [of ?data empty_db] by (auto intro!: restore_database_restored simp: dump_database_def)
  have wf: "db_wf (restored ?data empty_db)" "db_wf (restored ?data (restored ?data empty_db))"
    by (simp_all add: db_wf_restored)
  show ?thesis
    using False unfolding run_backup_restore_def Let_def
    by (simp add: r(1) [OF db_wf_empty] r(1) [OF wf(1)] r(2) [OF wf(2)] harness_simps same_backup_def)
       (simp add: dump_restored expected_backup_def to_backup_def)
qed

end
