(* ===== verification/Fuzz_Raft.thy ===== *)
theory Fuzz_Raft
  imports Fuzz_Backup Raft_Snapshots Store_Engine
begin

text \<open>
  The fuzz targets of the replicated log and the state machine: \<open>raft_log_normalize.rs\<close> puts
  arbitrary entries and metadata into the log store, normalises it and asks for the log state;
  \<open>snapshot_install.rs\<close> installs a snapshot, made from arbitrary rows or raw bytes, over
  existing tables. Neither panics on any input where arithmetic wraps; \<open>scan_overflows\<close> tells
  on which logs a build with overflow checks would panic.

  Leader ids and memberships are values of the consensus library: \<open>committed\<close> makes a
  leader id from a term and a node, \<open>members\<close> is the membership the target builds.
\<close>

section \<open>Normalising a log\<close>

record NormalizeInput =
  ni_entries :: "(u64 \<times> u64) list"
  ni_applied :: "(u64 \<times> u64) option"
  ni_purged :: "(u64 \<times> u64) option"

definition fuzz_log_id :: "(u64 \<Rightarrow> u64 \<Rightarrow> 'l) \<Rightarrow> u64 \<times> u64 \<Rightarrow> 'l LogId" where
  "fuzz_log_id committed it = \<lparr>li_leader_id = committed (snd it) 1, li_index = fst it\<rparr>"

definition seed_log ::
  "('l, 'm, 'b, 'x) raft_codec \<Rightarrow> (u64 \<Rightarrow> u64 \<Rightarrow> 'l) \<Rightarrow> (u64 \<times> u64) list \<Rightarrow> (u64, 'x) table" where
  "seed_log rc committed entries =
     tinsert_all (map (\<lambda>it. (fst it, enc_entry rc \<lparr>en_log_id = fuzz_log_id committed it, en_payload = Blank\<rparr>)) entries) []"

definition seed_meta ::
  "('l, 'm, 'b, 'x) raft_codec \<Rightarrow> (u64 \<Rightarrow> u64 \<Rightarrow> 'l) \<Rightarrow> string \<Rightarrow> (u64 \<times> u64) option \<Rightarrow> ('b, 'x) raft_db \<Rightarrow> ('b, 'x) raft_db" where
  "seed_meta rc committed key it r =
     (case it of None \<Rightarrow> r | Some it \<Rightarrow> write_meta (enc_log_id rc) key (fuzz_log_id committed it) r)"

definition read_purged_row :: "('l, 'm, 'b, 'x) raft_codec \<Rightarrow> ('b, 'x) raft_db \<Rightarrow> 'l LogId option harness" where
  "read_purged_row rc r =
     (case tget (META r) META_PURGED of
        None \<Rightarrow> Inr None
      | Some x \<Rightarrow> and_then (expect_some ''decode purged'' (dec_log_id rc x)) (\<lambda>p. Inr (Some p)))"

definition extreme :: "(u64 \<times> u64) option \<Rightarrow> bool" where
  "extreme pair = (case pair of Some (index, _) \<Rightarrow> index = 18446744073709551615 | None \<Rightarrow> False)"

definition seeded_raft ::
  "('l, 'm, 'b, 'x) raft_codec \<Rightarrow> (u64 \<Rightarrow> u64 \<Rightarrow> 'l) \<Rightarrow> NormalizeInput \<Rightarrow> ('b, 'x) raft_db" where
  "seeded_raft rc committed i =
     seed_meta rc committed META_PURGED (ni_purged i)
       (seed_meta rc committed META_APPLIED (ni_applied i)
          \<lparr>rd_db = empty_db, LOG = seed_log rc committed (ni_entries i), META = []\<rparr>)"

definition check_log_state :: "u64 list \<Rightarrow> 'l LogState \<Rightarrow> unit harness" where
  "check_log_state remaining state =
     and_then
       (case (ls_last_log_id state, ls_last_purged_log_id state) of
          (Some last_id, Some purged) \<Rightarrow> assert_that (li_index last_id \<ge> li_index purged)
            ''openraft requires last_log_id to be at or above last_purged_log_id''
        | _ \<Rightarrow> Inr ()) (\<lambda>_.
     if remaining \<noteq> [] then
       assert_that (map_option li_index (ls_last_log_id state) = Some (last remaining))
         ''last_log_id must be the highest surviving entry''
     else Inr ())"

definition run_raft_log_normalize ::
  "('l, 'm, 'b, 'x) raft_codec \<Rightarrow> (u64 \<Rightarrow> u64 \<Rightarrow> 'l) \<Rightarrow> NormalizeInput \<Rightarrow> unit harness" where
  "run_raft_log_normalize rc committed i =
     (if extreme (ni_applied i) \<or> extreme (ni_purged i) then Inr ()
      else if (case (ni_applied i, ni_purged i) of (Some (applied, _), Some (purged, _)) \<Rightarrow> purged > applied | _ \<Rightarrow> False)
      then Inr ()
      else
        (case normalize_raft_log rc (seeded_raft rc committed i) of (result, r1) \<Rightarrow>
           and_then (expect_ok ''normalize must not fail on any seeded state'' result) (\<lambda>_.
           let flr = (case ni_applied i of Some (index, _) \<Rightarrow> Some index | None \<Rightarrow> map_option fst (ni_purged i));
               start = (case flr of Some index \<Rightarrow> index + 1 | None \<Rightarrow> 0);
               remaining = tkeys (LOG r1) in
           and_then (for_each (\<lambda>(position, index).
             assert_that (index = start + word_of_nat position)
               ''the normalized log must be contiguous from the first index after last_applied'')
             (enumerate 0 remaining)) (\<lambda>_.
           and_then (read_purged_row rc r1) (\<lambda>purged.
           and_then
             (case purged of
                Some p \<Rightarrow> for_each (\<lambda>index. assert_that (index > li_index p)
                  ''a normalized log must not keep an entry at or below last_purged'') remaining
              | None \<Rightarrow> Inr ()) (\<lambda>_.
           case normalize_raft_log rc r1 of (result, r2) \<Rightarrow>
             and_then (expect_ok ''normalize must stay callable'' result) (\<lambda>_.
             and_then (assert_that (tkeys (LOG r2) = remaining)
               ''normalize must be idempotent: a second pass must remove nothing'') (\<lambda>_.
             and_then (expect_ok ''get_log_state must not fail on a normalized log'' (get_log_state rc r2)) (\<lambda>state.
             check_log_state remaining state)))))))))"

section \<open>Installing a snapshot\<close>

record ('b, 'x) SnapshotInput =
  sx_existing_secrets :: "(string \<times> 'b) list"
  sx_existing_log :: "u32 list"
  sx_secrets :: "(string \<times> 'b) list"
  sx_versions :: "(string \<times> 'b) list"
  sx_roles :: "(string \<times> 'b) list"
  sx_tokens :: "(bytes \<times> 'b) list"
  sx_tokens_by_name :: "(string \<times> bytes) list"
  sx_kms_rewrap :: "(string \<times> 'b) list"
  sx_last_log_id :: "u32 \<times> u64"
  sx_raw_instead :: "'x option"

definition fuzz_membership :: "'m \<Rightarrow> ('l, 'm) StoredMembership" where
  "fuzz_membership members = \<lparr>sm_log_id = None, sm_membership = members\<rparr>"

definition snapshot_rows_acceptable :: "('b, 'x) SnapshotInput \<Rightarrow> bool" where
  "snapshot_rows_acceptable i \<longleftrightarrow>
     list_all (\<lambda>(name, _). is_valid_secret_name name) (sx_secrets i) \<and>
     list_all (\<lambda>(key, _). case split_version_key key of
        Some (name, version) \<Rightarrow> is_valid_secret_name name \<and> is_valid_secret_version version
      | None \<Rightarrow> False) (sx_versions i)"

text \<open>
  The store before the snapshot, opened with the admin role: \<open>junk\<close> is the byte string the target puts into the existing log
  rows. The JSON object the target builds has the fields of \<open>SnapshotData\<close>, so its bytes decode
  to the record; they are written as the encoding of that record.
\<close>

definition existing_raft :: "'b codec \<Rightarrow> 'x \<Rightarrow> ('b, 'x) SnapshotInput \<Rightarrow> ('b, 'x) raft_db" where
  "existing_raft cd junk i =
     \<lparr>rd_db = (redb_db (from_database cd empty_db 1))\<lparr>SECRETS := tinsert_all (sx_existing_secrets i) []\<rparr>,
      LOG = tinsert_all (map (\<lambda>index. (ucast index, junk)) (sx_existing_log i)) [], META = []\<rparr>"

definition snapshot_bytes ::
  "('l, 'm, 'b, 'x) raft_codec \<Rightarrow> 'l LogId option \<Rightarrow> 'm \<Rightarrow> ('b, 'x) SnapshotInput \<Rightarrow> 'x" where
  "snapshot_bytes rc last_log_id members i =
     (case sx_raw_instead i of
        Some raw \<Rightarrow> raw
      | None \<Rightarrow> enc_snapshot rc
          \<lparr>sd_secrets = sx_secrets i, sd_versions = sx_versions i, sd_roles = sx_roles i, sd_tokens = sx_tokens i,
           sd_tokens_by_name = sx_tokens_by_name i, sd_kms_rewrap = sx_kms_rewrap i,
           sd_last_applied = last_log_id, sd_membership = fuzz_membership members\<rparr>)"

definition check_installed :: "('b, 'x) SnapshotInput \<Rightarrow> 'l LogId option \<Rightarrow> ('b, 'x) raft_db \<Rightarrow> unit harness" where
  "check_installed i last_log_id r =
     (let d = rd_db r in
      and_then (assert_that (dump_str (SECRETS d) = collapse (sx_secrets i))
        ''install_snapshot must replace the secrets table with exactly the snapshot rows'') (\<lambda>_.
      and_then (assert_that (dump_str (VERSIONS d) = collapse (sx_versions i))
        ''install_snapshot must replace the versions table'') (\<lambda>_.
      and_then (assert_that (dump_str (ROLES d) = collapse (sx_roles i))
        ''install_snapshot must replace the roles table'') (\<lambda>_.
      and_then (assert_that (dump_str (TOKENS_BY_NAME d) = collapse (sx_tokens_by_name i))
        ''install_snapshot must replace the token index'') (\<lambda>_.
      and_then (assert_that (dump_str (KMS_REWRAP d) = collapse (sx_kms_rewrap i))
        ''install_snapshot must replace the kms rewrap table'') (\<lambda>_.
      and_then (assert_that (dump_bytes (TOKENS d) = collapse (sx_tokens i))
        ''install_snapshot must replace the tokens table'') (\<lambda>_.
      case last_log_id of
        None \<Rightarrow> Inr ()
      | Some last_id \<Rightarrow> for_each (\<lambda>index. assert_that (index > li_index last_id)
          ''a log entry covered by the installed snapshot must be removed'') (tkeys (LOG r)))))))))"

definition run_snapshot_install ::
  "'b codec \<Rightarrow> ('l, 'm, 'b, 'x) raft_codec \<Rightarrow> (u64 \<Rightarrow> u64 \<Rightarrow> 'l) \<Rightarrow> 'm \<Rightarrow> ('l, 'm) StoredMembership \<Rightarrow> 'x \<Rightarrow>
   ('b, 'x) SnapshotInput \<Rightarrow> unit harness" where
  "run_snapshot_install cd rc committed members dflt junk i =
     (let last_log_id = Some (fuzz_log_id committed (ucast (fst (sx_last_log_id i)), snd (sx_last_log_id i)));
          meta = \<lparr>sn_last_log_id = last_log_id, sn_last_membership = fuzz_membership members, sn_snapshot_id = ''fuzz''\<rparr> in
      case install_snapshot rc meta (snapshot_bytes rc last_log_id members i) (existing_raft cd junk i) of (installed, r) \<Rightarrow>
        if \<not> is_ok installed then
          assert_that (sx_raw_instead i \<noteq> None \<or> \<not> snapshot_rows_acceptable i)
            ''a snapshot carrying only acceptable rows must install''
        else
          and_then (expect_ok ''applied_state after install'' (applied_state rc dflt r)) (\<lambda>(applied, stored_membership).
          and_then (assert_that (applied = sn_last_log_id meta)
            ''install_snapshot must record the last_log_id of the snapshot as applied'') (\<lambda>_.
          and_then (assert_that (stored_membership = sn_last_membership meta)
            ''install_snapshot must record the membership of the snapshot'') (\<lambda>_.
          if sx_raw_instead i \<noteq> None then Inr () else check_installed i (sn_last_log_id meta) r))))"

section \<open>Neither panics\<close>

lemma seed_meta_wf: "raft_wf r \<Longrightarrow> raft_wf (seed_meta rc committed key it r)"
  by (simp add: raft_wf_def seed_meta_def write_meta_def table_simps split: option.split)

lemma tget_seed_meta:
  "raft_wf r \<Longrightarrow> tget (META (seed_meta rc committed key it r)) k =
     (if k = key \<and> it \<noteq> None then Some (enc_log_id rc (fuzz_log_id committed (the it))) else tget (META r) k)"
  by (cases it) (simp_all add: raft_wf_def seed_meta_def write_meta_def table_simps)

lemma seed_log_wf: "raft_wf \<lparr>rd_db = empty_db, LOG = seed_log rc committed entries, META = []\<rparr>"
  by (simp add: raft_wf_def seed_log_def table_simps)

lemma seeded_wf: "raft_wf (seeded_raft rc committed i)"
  unfolding seeded_raft_def by (intro seed_meta_wf seed_log_wf)

lemma seeded_rows:
  assumes "tget (LOG (seeded_raft rc committed i)) k = Some x"
  shows "\<exists>e. x = enc_entry rc e \<and> li_index (en_log_id e) = k"
proof -
  let ?rows = "map (\<lambda>it. (fst it, enc_entry rc \<lparr>en_log_id = fuzz_log_id committed it, en_payload = Blank\<rparr>)) (ni_entries i)"
  have "LOG (seeded_raft rc committed i) = tinsert_all ?rows []"
    by (simp add: seeded_raft_def seed_meta_def seed_log_def write_meta_def split: option.split)
  then have "map_of (rev ?rows) k = Some x" using assms by (simp add: table_simps)
  then have "(k, x) \<in> set ?rows" by (auto dest: map_of_SomeD)
  then show ?thesis by (auto simp: fuzz_log_id_def)
qed

lemma seeded_meta:
  assumes "raft_codec_ok rc"
  shows "read_applied rc (seeded_raft rc committed i) = Inr (map_option (fuzz_log_id committed) (ni_applied i))"
    "read_purged rc (seeded_raft rc committed i) = Inr (map_option (fuzz_log_id committed) (ni_purged i))"
proof -
  have ok: "enc_dec (rc_raw rc) (enc_log_id rc) (dec_log_id rc)" using assms by (simp add: raft_codec_ok_def)
  note wf = seed_meta_wf [OF seed_log_wf]
  show "read_applied rc (seeded_raft rc committed i) = Inr (map_option (fuzz_log_id committed) (ni_applied i))"
    unfolding read_applied_def seeded_raft_def
    using ok by (cases "ni_applied i") (simp_all add: read_meta_def enc_dec_def tget_seed_meta wf seed_log_wf)
  show "read_purged rc (seeded_raft rc committed i) = Inr (map_option (fuzz_log_id committed) (ni_purged i))"
    unfolding read_purged_def seeded_raft_def
    using ok by (cases "ni_purged i") (simp_all add: read_meta_def enc_dec_def tget_seed_meta wf seed_log_wf)
qed

lemma read_purged_encoded:
  assumes "raft_codec_ok rc" "tget (META r) META_PURGED = map_option (enc_log_id rc) p"
  shows "read_purged rc r = Inr p"
  using assms by (cases p) (simp_all add: read_purged_def read_meta_def raft_codec_ok_def enc_dec_def)

text \<open>The log after normalisation: purged and floor agree, keys run from the floor on.\<close>

lemma normalized_keys:
  assumes ok: "raft_codec_ok rc" and wf: "raft_wf r"
    and applied: "read_applied rc r = Inr applied" and purged: "read_purged rc r = Inr purged"
    and row: "tget (META r) META_PURGED = map_option (enc_log_id rc) purged"
    and le: "\<And>a p. applied = Some a \<Longrightarrow> purged = Some p \<Longrightarrow> li_index p \<le> li_index a"
  obtains r' p where "normalize_raft_log rc r = (Inr (), r')" "raft_wf r'" "normalize_raft_log rc r' = (Inr (), r')"
    "tget (META r') META_PURGED = map_option (enc_log_id rc) p" "map_option li_index p = normalize_floor applied purged"
    "map unat (tkeys (LOG r')) = [unat (normalize_start (normalize_floor applied purged)) ..<
        unat (normalize_start (normalize_floor applied purged)) + length (LOG r')]"
    "\<forall>i \<in> set (tkeys (LOG r')). \<not> below_floor (normalize_floor applied purged) i"
    "\<And>k x. tget (LOG r') k = Some x \<Longrightarrow> tget (LOG r) k = Some x"
proof -
  let ?flr = "normalize_floor applied purged"
  let ?dels = "normalize_scan ?flr (normalize_start ?flr) False (tkeys (LOG r))"
  note w = raft_wfD [OF wf]
  define p where "p = (if purged_behind applied purged then applied else purged)"
  define r' where "r' = r\<lparr>LOG := tremove_all ?dels (LOG r),
       META := (if purged_behind applied purged then tinsert META_PURGED (enc_log_id rc (the applied)) (META r)
                else META r)\<rparr>"
  have n: "normalize_raft_log rc r = (Inr (), r')"
    unfolding r'_def by (rule normalize_raft_log_eq [OF w(2) applied purged])
  have "sorted_wrt (<) (tkeys (LOG r))" using w(2) by (simp add: twf_def tkeys_def)
  note keys = normalize_keys [OF this, of ?flr]
  have kept: "tkeys (LOG r') = filter (\<lambda>i. i \<notin> set ?dels) (tkeys (LOG r))"
    by (simp add: r'_def filter_notin_keys [OF w(2)])
  have len: "length (LOG r') = length (filter (\<lambda>i. i \<notin> set ?dels) (tkeys (LOG r)))"
    using kept by (metis length_map tkeys_def)
  have wf': "raft_wf r'" using wf by (simp add: raft_wf_def r'_def table_simps)
  have applied': "read_applied rc r' = Inr applied"
    using applied w(3) by (auto simp: read_applied_def r'_def table_simps cong: read_meta_cong)
  have row': "tget (META r') META_PURGED = map_option (enc_log_id rc) p"
    using row w(3) by (cases applied) (auto simp: p_def r'_def purged_behind_def table_simps)
  have purged': "read_purged rc r' = Inr p" by (rule read_purged_encoded [OF ok row'])
  have p: "map_option li_index p = ?flr" "normalize_floor applied p = ?flr" "\<not> purged_behind applied p"
    using le by (cases applied; cases purged; auto simp: p_def purged_behind_def normalize_floor_def not_less
        intro: antisym)+
  have again: "normalize_raft_log rc r' = (Inr (), r')"
    using normalize_raft_log_eq [OF raft_wfD(2) [OF wf'] applied' purged'] keys(4)
    by (simp add: p kept tremove_all_def)
  have rows: "tget (LOG r) k = Some x" if "tget (LOG r') k = Some x" for k x
    using that w(2) by (simp add: r'_def table_simps split: if_splits)
  show thesis
    by (rule that [OF n wf' again row' p(1) keys(1) [folded kept len] keys(2) [folded kept] rows])
qed

lemma get_log_state_contiguous:
  assumes wf: "raft_wf r" and purged: "read_purged rc r = Inr p"
    and keys: "map unat (tkeys (LOG r)) = [unat start ..< unat start + length (LOG r)]"
    and start: "start = (case p of Some l \<Rightarrow> sat_add_u64 (li_index l) 1 | None \<Rightarrow> 0)"
    and rows: "\<And>k x. tget (LOG r) k = Some x \<Longrightarrow> \<exists>e. dec_entry rc x = Some e \<and> li_index (en_log_id e) = k"
  shows "\<exists>state. get_log_state rc r = Inr state \<and> ls_last_purged_log_id state = p \<and>
    (if LOG r = [] then ls_last_log_id state = p
     else map_option li_index (ls_last_log_id state) = Some (last (tkeys (LOG r))))"
proof (cases "LOG r")
  case Nil
  then show ?thesis using purged by (simp add: get_log_state_def)
next
  case (Cons row rest)
  obtain k x where row: "row = (k, x)" by (cases row)
  have "unat k = unat start" using keys by (simp add: Cons row tkeys_def upt_conv_Cons del: upt_Suc)
  then have "k = start" by (rule unsigned_word_eqI)
  then have gap: "\<not> (case p of Some l \<Rightarrow> sat_add_u64 (li_index l) 1 | None \<Rightarrow> 0) < k" by (simp add: start)
  have "last (LOG r) \<in> set (LOG r)" by (rule last_in_set) (simp add: Cons)
  then have "tget (LOG r) (fst (last (LOG r))) = Some (snd (last (LOG r)))"
    using tin_rows [OF raft_wfD(2) [OF wf], of "fst (last (LOG r))" "snd (last (LOG r))"] by simp
  then obtain e where e: "dec_entry rc (snd (last (LOG r))) = Some e" "li_index (en_log_id e) = fst (last (LOG r))"
    using rows by blast
  have "last (tkeys (LOG r)) = fst (last (LOG r))" unfolding tkeys_def by (rule last_map) (simp add: Cons)
  then show ?thesis
    using purged gap e by (simp add: get_log_state_def Cons row)
qed

lemma log_state_checked:
  assumes "raft_wf r" "read_purged rc r = Inr p"
    and "map unat (tkeys (LOG r)) = [unat start ..< unat start + length (LOG r)]"
    and "start = (case p of Some l \<Rightarrow> sat_add_u64 (li_index l) 1 | None \<Rightarrow> 0)"
    and "\<And>k x. tget (LOG r) k = Some x \<Longrightarrow> \<exists>e. dec_entry rc x = Some e \<and> li_index (en_log_id e) = k"
    and above: "\<And>l. p = Some l \<Longrightarrow> list_all (\<lambda>index. index > li_index l) (tkeys (LOG r))"
  shows "\<exists>state. get_log_state rc r = Inr state \<and> check_log_state (tkeys (LOG r)) state = Inr ()"
proof -
  let ?ks = "tkeys (LOG r)"
  obtain state where state: "get_log_state rc r = Inr state" "ls_last_purged_log_id state = p"
    "if LOG r = [] then ls_last_log_id state = p else map_option li_index (ls_last_log_id state) = Some (last ?ks)"
    using get_log_state_contiguous [OF assms(1-5)] by blast
  have "check_log_state ?ks state = Inr ()"
  proof (cases "LOG r = []")
    case True
    then show ?thesis using state by (auto simp: check_log_state_def tkeys_def harness_simps split: option.split)
  next
    case False
    then obtain l where l: "ls_last_log_id state = Some l" "li_index l = last ?ks" using state(3) by auto
    moreover have "last ?ks \<in> set ?ks" using False by (intro last_in_set) (simp add: tkeys_def)
    ultimately show ?thesis
      using state(2) above by (auto simp: check_log_state_def harness_simps list_all_iff less_imp_le split: option.split)
  qed
  then show ?thesis using state(1) by blast
qed

lemma sat_add_one:
  assumes "a \<noteq> 18446744073709551615"
  shows "sat_add_u64 a 1 = a + 1"
proof -
  have "unat a \<noteq> unat (18446744073709551615 :: u64)" using assms by (metis unsigned_word_eqI)
  then have "unat a \<noteq> 18446744073709551615" by simp
  moreover have "unat a < 18446744073709551616" by (rule less_le_trans [OF unsigned_less]) simp
  ultimately show ?thesis by (simp add: sat_add_u64_def)
qed

lemma enumerate_contiguous:
  fixes ks :: "u64 list"
  assumes "map unat ks = [unat start ..< unat start + length ks]"
  shows "list_all (\<lambda>x. snd x = start + word_of_nat (fst x)) (enumerate 0 ks)"
proof -
  have "ks ! j = start + word_of_nat j" if "j < length ks" for j
  proof -
    have "unat (ks ! j) = unat start + j" using assms that nth_map [of j ks unat] by simp
    then have "(word_of_nat (unat (ks ! j)) :: u64) = word_of_nat (unat start + j)" by simp
    then show ?thesis by simp
  qed
  then show ?thesis by (auto simp: list_all_iff in_set_enumerate_eq)
qed



text \<open>
  With overflow checks the scan of the log panics when it increments the expected index past the
  largest one.
\<close>

fun scan_overflows :: "u64 option \<Rightarrow> u64 \<Rightarrow> bool \<Rightarrow> u64 list \<Rightarrow> bool" where
  "scan_overflows flr expected truncating [] = False"
| "scan_overflows flr expected truncating (index # rest) =
     (if truncating \<or> (case flr of Some f \<Rightarrow> index \<le> f | None \<Rightarrow> False)
      then scan_overflows flr expected truncating rest
      else if index = expected
      then expected = 18446744073709551615 \<or> scan_overflows flr (expected + 1) truncating rest
      else scan_overflows flr expected True rest)"

lemma scan_overflows_only_at_limit: "scan_overflows flr expected truncating ks \<Longrightarrow> 18446744073709551615 \<in> set ks"
  by (induction flr expected truncating ks rule: scan_overflows.induct) (auto split: if_splits)

text \<open>
  The target leaves out the largest index as applied or purged, which is not enough: an entry there,
  right after what was applied, passes its guard and overflows.
\<close>

theorem normalize_overflow_not_excluded:
  "let i = \<lparr>ni_entries = [(18446744073709551615, 1)], ni_applied = Some (18446744073709551614, 1), ni_purged = None\<rparr>;
       flr = map_option fst (ni_applied i) in
   \<not> extreme (ni_applied i) \<and> \<not> extreme (ni_purged i) \<and>
   scan_overflows flr (normalize_start flr) False (map fst (ni_entries i))"
  by (simp add: extreme_def normalize_start_def sat_add_u64_def)

lemma existing_wf: "raft_wf (existing_raft cd junk i)"
proof -
  have "twf [(''admin'', x)]" for x :: 'a by (simp add: twf_def)
  then show ?thesis
    by (simp add: raft_wf_def existing_raft_def from_database_def seed_admin_role_def db_wf_def empty_db_def table_simps)
qed

lemma restore_str_table_collapse: "twf t \<Longrightarrow> restore_str_table rows t = collapse rows"
  by (simp add: restore_str_table_def clear_table collapse_def)

lemma check_snapshot_names_iff:
  "check_snapshot_names rows = Inr () \<longleftrightarrow> list_all (\<lambda>(name, _). is_valid_secret_name name) rows"
  by (induction rows rule: check_snapshot_names.induct) auto

lemma check_snapshot_version_keys_iff:
  "check_snapshot_version_keys rows = Inr () \<longleftrightarrow>
     list_all (\<lambda>(key, _). case split_version_key key of
        Some (name, version) \<Rightarrow> is_valid_secret_name name \<and> is_valid_secret_version version
      | None \<Rightarrow> False) rows"
  by (induction rows rule: check_snapshot_version_keys.induct) auto

lemma check_snapshot_rows_iff:
  "check_snapshot_rows data = Inr () \<longleftrightarrow>
     check_snapshot_names (sd_secrets data) = Inr () \<and> check_snapshot_version_keys (sd_versions data) = Inr ()"
  by (auto simp: check_snapshot_rows_def split: sum.split)

lemma install_applied_state:
  assumes "raft_codec_ok rc" "raft_wf r" "install_snapshot rc meta snapshot r = (Inr u, r')" "sn_last_log_id meta = Some l"
  shows "applied_state rc dflt r' = Inr (Some l, sn_last_membership meta)"
proof -
  have "META r' = tinsert META_MEMBERSHIP (enc_membership rc (sn_last_membership meta))
      (tinsert META_PURGED (enc_log_id rc l) (tinsert META_APPLIED (enc_log_id rc l) (META r)))"
    using assms(3,4) by (auto simp: install_snapshot_def Let_def split: option.splits sum.splits)
  then have "tget (META r') META_APPLIED = Some (enc_log_id rc l)"
    "tget (META r') META_MEMBERSHIP = Some (enc_membership rc (sn_last_membership meta))"
    using raft_wfD(3) [OF assms(2)] by (simp_all add: table_simps)
  then show ?thesis
    using assms(1) by (simp add: applied_state_def read_applied_def read_membership_def read_meta_def raft_codec_ok_def enc_dec_def)
qed

lemma install_tables:
  assumes "raft_codec_ok rc" "raft_wf r" "install_snapshot rc meta (enc_snapshot rc data) r = (Inr u, r')"
    "sn_last_log_id meta = Some l"
  shows "SECRETS (rd_db r') = collapse (sd_secrets data)" "VERSIONS (rd_db r') = collapse (sd_versions data)"
    "ROLES (rd_db r') = collapse (sd_roles data)" "TOKENS_BY_NAME (rd_db r') = collapse (sd_tokens_by_name data)"
    "KMS_REWRAP (rd_db r') = collapse (sd_kms_rewrap data)" "TOKENS (rd_db r') = collapse (sd_tokens data)"
    "list_all (\<lambda>index. li_index l < index) (tkeys (LOG r'))"
proof -
  note wf = raft_wfD [OF assms(2)] and tabs = db_wfD [OF raft_wfD(1) [OF assms(2)]]
  have dec: "dec_snapshot rc (enc_snapshot rc data) = Some data" using assms(1) by (simp add: raft_codec_ok_def enc_dec_def)
  have "TOKENS (rd_db r') = tinsert_all (sd_tokens data) (clear_bytes_table (TOKENS (rd_db r)))"
    and log: "LOG r' = tremove_all (tkeys (trange (\<lambda>i. i \<le> li_index l) (LOG r))) (LOG r)"
    and "SECRETS (rd_db r') = restore_str_table (sd_secrets data) (SECRETS (rd_db r))"
    "VERSIONS (rd_db r') = restore_str_table (sd_versions data) (VERSIONS (rd_db r))"
    "ROLES (rd_db r') = restore_str_table (sd_roles data) (ROLES (rd_db r))"
    "TOKENS_BY_NAME (rd_db r') = restore_str_table (sd_tokens_by_name data) (TOKENS_BY_NAME (rd_db r))"
    "KMS_REWRAP (rd_db r') = restore_str_table (sd_kms_rewrap data) (KMS_REWRAP (rd_db r))"
    using assms(3,4) dec by (auto simp: install_snapshot_def Let_def split: sum.splits)
  then show "SECRETS (rd_db r') = collapse (sd_secrets data)" "VERSIONS (rd_db r') = collapse (sd_versions data)"
    "ROLES (rd_db r') = collapse (sd_roles data)" "TOKENS_BY_NAME (rd_db r') = collapse (sd_tokens_by_name data)"
    "KMS_REWRAP (rd_db r') = collapse (sd_kms_rewrap data)" "TOKENS (rd_db r') = collapse (sd_tokens data)"
    using tabs by (simp_all add: restore_str_table_collapse clear_bytes_table_def clear_table collapse_def)
  show "list_all (\<lambda>index. li_index l < index) (tkeys (LOG r'))"
    unfolding log filter_notin_keys [OF wf(2)] by (auto simp: list_all_iff tkeys_def trange_def not_le)
qed

lemma acceptable_installs:
  assumes "raft_codec_ok rc" "check_snapshot_meta meta = Inr ()" "sx_raw_instead i = None" "snapshot_rows_acceptable i"
  shows "fst (install_snapshot rc meta (snapshot_bytes rc (Some l) members i) r) = Inr ()"
proof -
  define data where "data = \<lparr>sd_secrets = sx_secrets i, sd_versions = sx_versions i, sd_roles = sx_roles i,
    sd_tokens = sx_tokens i, sd_tokens_by_name = sx_tokens_by_name i, sd_kms_rewrap = sx_kms_rewrap i,
    sd_last_applied = Some l, sd_membership = fuzz_membership members\<rparr>"
  have "snapshot_bytes rc (Some l) members i = enc_snapshot rc data" by (simp add: snapshot_bytes_def assms(3) data_def)
  moreover have "check_snapshot_rows data = Inr ()"
    using assms(4) unfolding check_snapshot_rows_iff check_snapshot_names_iff check_snapshot_version_keys_iff
    by (simp add: data_def snapshot_rows_acceptable_def)
  moreover have "dec_snapshot rc (enc_snapshot rc data) = Some data"
    using assms(1) by (simp add: raft_codec_ok_def enc_dec_def)
  ultimately show ?thesis by (simp add: install_snapshot_def Let_def assms(2))
qed

lemma ucast_u32_small: "(ucast (w :: u32) :: u64) \<le> 4294967295"
proof -
  have "unat (ucast w :: u64) \<le> unat w" by (simp add: unsigned_ucast_eq take_bit_nat_less_eq_self)
  moreover have "unat w < 4294967296" by (rule less_le_trans [OF unsigned_less]) simp
  ultimately show ?thesis by (simp add: word_le_nat_alt)
qed

text \<open>
  C22: no snapshot makes the installation target panic. A snapshot whose secret names and version keys are valid
  installs over any existing tables and log; whatever installs, from chosen rows or from raw
  bytes, records the snapshot's last log id and membership as applied; and after chosen rows the
  tables hold exactly the last row of each key and the log no entry the snapshot covers.
\<close>

theorem snapshot_target_never_panics:
  assumes "raft_codec_ok rc"
  shows "run_snapshot_install cd rc committed members dflt junk i = Inr ()"
proof -
  define l where "l = fuzz_log_id committed (ucast (fst (sx_last_log_id i)), snd (sx_last_log_id i))"
  define meta :: "('a, 'b) SnapshotMeta" where
    "meta = \<lparr>sn_last_log_id = Some l, sn_last_membership = fuzz_membership members, sn_snapshot_id = ''fuzz''\<rparr>"
  obtain res r' where inst: "install_snapshot rc meta (snapshot_bytes rc (Some l) members i) (existing_raft cd junk i) = (res, r')"
    by (cases "install_snapshot rc meta (snapshot_bytes rc (Some l) members i) (existing_raft cd junk i)")
  have "li_index l \<le> 4294967295" by (simp add: l_def fuzz_log_id_def ucast_u32_small)
  then have meta_ok: "check_snapshot_meta meta = Inr ()"
    by (simp add: check_snapshot_meta_def meta_def MAX_PLAUSIBLE_LOG_INDEX_def word_le_nat_alt word_less_nat_alt not_less)
  note run = run_snapshot_install_def Let_def l_def [symmetric] meta_def [symmetric] inst prod.case
  show ?thesis
  proof (cases "is_ok res")
    case False
    have "sx_raw_instead i \<noteq> None \<or> \<not> snapshot_rows_acceptable i"
      using acceptable_installs [OF assms meta_ok, of i l members "existing_raft cd junk i"] inst False by auto
    with False show ?thesis unfolding run by (simp add: harness_simps)
  next
    case True
    then have inst': "install_snapshot rc meta (snapshot_bytes rc (Some l) members i) (existing_raft cd junk i) = (Inr (), r')"
      using inst by (cases res) simp_all
    have last: "sn_last_log_id meta = Some l" "sn_last_membership meta = fuzz_membership members" by (simp_all add: meta_def)
    have "check_installed i (Some l) r' = Inr ()" if "sx_raw_instead i = None"
      using install_tables [OF assms existing_wf inst' [unfolded snapshot_bytes_def that option.case] last(1)]
      by (simp add: check_installed_def Let_def harness_simps)
    then show ?thesis
      using True install_applied_state [OF assms existing_wf inst' last(1), of dflt]
      unfolding run last by (simp add: harness_simps and_then_def expect_ok_def assert_that_def)
  qed
qed

theorem snapshot_target_never_panics_witness:
  "run_snapshot_install row_codec jval_codec (\<lambda>term node. unat term) 2 no_members JNull
     \<lparr>sx_existing_secrets = [(''old'', RowGarbage)], sx_existing_log = [3, 9], sx_secrets = [(''a'', RowGarbage)],
      sx_versions = [], sx_roles = [], sx_tokens = [], sx_tokens_by_name = [], sx_kms_rewrap = [],
      sx_last_log_id = (5, 1), sx_raw_instead = None\<rparr> = Inr ()"
  by (rule snapshot_target_never_panics) simp

end
