(* ===== verification/Spec2Isabelle.thy ===== *)
theory Spec2Isabelle
  imports Rewrap_Laws Cluster_Api Pg_Connect Fuzz_Parsers Fuzz_Commands_Laws Fuzz_Raft
begin

text \<open>
  Verification of the HyperionDB vault (\<open>src/crates\<close>): a secrets store with an HTTP interface,
  encrypted values, rotation of database passwords, and replication by raft.

  \<^bold>\<open>The program and how its parts interact.\<close>
  A request reaches a handler of \<open>routes.rs\<close>. Its guard (\<open>guards.rs\<close>) admits it by bearer token or
  by client address and counts failures (\<open>lockout.rs\<close>); \<open>authz.rs\<close> compares the role's rules with
  the action; then \<open>service.rs\<close> (secrets) or \<open>manage.rs\<close> (roles, tokens, backups) does the work. Values
  are sealed under data keys (\<open>crypto.rs\<close>) which a key management provider (\<open>kms.rs\<close>) wraps and
  \<open>cache.rs\<close> caches. Every change is one \<open>Command\<close> (\<open>store/model.rs\<close>), applied in one transaction by
  \<open>store/apply.rs\<close> to the tables of an embedded key-value store (\<open>store/engine.rs\<close>). On a single node
  the store applies it directly; in a cluster it goes through the raft log (\<open>raft/node.rs\<close>,
  \<open>raft/store.rs\<close>), and nodes talk over a port of their own (\<open>raft/server.rs\<close>, \<open>raft/peer.rs\<close>,
  \<open>raft/network.rs\<close>). Two workers rotate due secrets (\<open>rotation_worker.rs\<close>, with \<open>pg_apply.rs\<close> for
  databases) and re-wrap data keys (\<open>rewrap_worker.rs\<close>). \<open>config.rs\<close> and \<open>lib.rs\<close> start all of it.

  \<^bold>\<open>Conventions.\<close>
  A Rust \<open>String\<close> is a \<open>string\<close> of its UTF-8 bytes, \<open>Vec<u8>\<close> is \<open>bytes\<close>; unsigned integers are words;
  \<open>i32\<close> and \<open>i64\<close> are integers with the wrapping or saturation written out; \<open>Result\<close> is a sum with the
  error on the left, and error messages are constructors. A redb table is the sorted list of its
  rows. Libraries are parameters: cipher, hash, base64, JSON, dates, address ranges, the AWS client,
  the Postgres driver, the TLS library, the name service, the HTTP client and the consensus engine.
  What the code relies on of them is named: \<open>aead_ok\<close>, \<open>codec_ok\<close>, \<open>raft_codec_ok\<close>, \<open>kms_contract\<close>,
  \<open>cert_lib_ok\<close> and the hypotheses of the theorems; the witnesses show that they can hold.

  \<^bold>\<open>Foundations.\<close>
  \<open>Vault_Prelude\<close> has the shared types and lemmas, \<open>Ordered_Table\<close> the tables with their interface as a
  locale, \<open>Rust_Strings\<close>, \<open>Ip_Addr\<close> and the first half of \<open>Ip_Parse\<close> the parts of Rust's standard library
  the sources use.

  \<^bold>\<open>Core library\<close> (\<open>hyperion-vault-core\<close>).
  \<open>Core_Types\<close> (\<open>types.rs\<close>), \<open>Core_Rbac\<close> (\<open>rbac.rs\<close>), \<open>Core_Rotation\<close> (\<open>rotation.rs\<close>), \<open>Core_Crypto\<close>
  (\<open>crypto.rs\<close>, \<open>auth.rs\<close>, \<open>error.rs\<close>) and \<open>Ip_Parse\<close> (\<open>ip_allowlist.rs\<close>), one definition per function.
  Shown: envelopes open to what was sealed, also after re-wrapping, and under no other associated
  data; the associated data tells names and versions apart; due times and grace periods saturate.

  \<^bold>\<open>Store.\<close>
  \<open>Store_Model\<close> (records, commands), \<open>Store_Keys\<close> (version keys and their scans, locale \<open>version_scan\<close>),
  \<open>Store_Backup\<close>, \<open>Store_Apply\<close> (one definition per command) and \<open>Store_Engine\<close> (readers, the
  single-node writer, locale \<open>vault_store\<close>). Shown in \<open>Store_Laws\<close>, \<open>Store_Access\<close>, \<open>Store_Invariant\<close>
  and \<open>Store_Replicas\<close>: the effect of each command on every branch; the invariant \<open>vault_inv\<close>, which
  every command issued by the program keeps; backups restore exactly or are refused; replicas that
  apply the same commands agree on everything replicated.

  \<^bold>\<open>Replication.\<close>
  \<open>Raft_Store\<close> (log, metadata, batches, snapshots of \<open>raft/store.rs\<close>), \<open>Raft_Peers\<close> (\<open>raft/peer.rs\<close>,
  \<open>raft/server.rs\<close>), \<open>Raft_Node\<close> (\<open>raft/node.rs\<close>, \<open>raft/network.rs\<close>). Shown in \<open>Raft_Laws\<close>,
  \<open>Raft_Snapshots\<close>, \<open>Raft_Port\<close>, \<open>Raft_Founding\<close> and \<open>Raft_Cluster\<close>: normalising a log leaves it
  contiguous; a snapshot and the rest of the log give the state of the whole log; only requests
  with the credential and from a peer reach the engine; a node that reaches no peer founds no
  cluster, and the first one does; a forwarded write has the effect of a write at the leader.

  \<^bold>\<open>Service.\<close>
  \<open>Kms\<close> (\<open>kms.rs\<close>, locale \<open>kms_contract\<close>), \<open>Dek_Cache\<close> (\<open>cache.rs\<close>), \<open>Pg_Targets\<close> and \<open>Pg_Connect\<close>
  (\<open>pg_apply.rs\<close>), \<open>Api_World\<close> (\<open>error.rs\<close>, \<open>clock.rs\<close>, \<open>state.rs\<close>, \<open>dto.rs\<close>), \<open>Lockout\<close>, \<open>Guards\<close>
  (\<open>guards.rs\<close>, \<open>authz.rs\<close>), \<open>Manage\<close>, \<open>Service\<close>, \<open>Rewrap\<close> (with both workers) and \<open>Routes\<close>. A handler
  is a state transformer on the world (store, cache, connection attempts, call counters); other
  requests act between any two of its calls. Invariants are proved once in the locales \<open>api_core\<close>,
  \<open>api_writer\<close>, \<open>api_target\<close> and \<open>api_invariant\<close> and interpreted for the store, the cache, the
  connections and the cluster. Shown in \<open>Service_Invariant\<close>, \<open>Api_Safety\<close>, \<open>Service_Laws\<close>, \<open>Access_Laws\<close>,
  \<open>Secret_Laws\<close>, \<open>Rewrap_Laws\<close> and \<open>Cluster_Api\<close>: every run keeps the store consistent, on one node and in
  a cluster; requests without the right change nothing; values go only to allowed addresses; what is
  read is what was stored; created, updated and rotated values are served next and verified; a
  rotation loses no password; a pass of re-wrapping changes only the wrapping and is complete.

  \<^bold>\<open>Start.\<close>
  \<open>Vault_Config\<close> (\<open>config.rs\<close>) and \<open>Startup\<close> (\<open>lib.rs\<close>), with laws in \<open>Startup_Laws\<close>: an accepted
  configuration is well formed, and a vault that starts is safe from its first request on.
  \<open>Pg_Connect\<close> adds the certificates, the single connection attempt and the log lines on rotation
  targets and peers: with verified TLS configured, passwords travel only over TLS to allowed hosts,
  checked against a store of certificates that is not empty.

  \<^bold>\<open>Fuzz targets\<close> (\<open>src/fuzz/fuzz_targets\<close>).
  A target is a function of its input that ends or panics (\<open>Fuzz_Harness\<close>). \<open>Fuzz_Parsers\<close> has the
  targets of single functions, \<open>Fuzz_Backup\<close> the one of backups, \<open>Fuzz_Commands\<close> the one of command
  sequences, \<open>Fuzz_Raft\<close> those of the log and of snapshots. Shown, there and in
  \<open>Fuzz_Commands_Laws\<close>: no assertion of these targets fails on any input. The target of the cipher
  panics only on a forgery against the cipher, as \<open>crypto_roundtrip_panics_on_forgery\<close> states; for the
  fingerprints and the base64 key the laws of hash and cipher are hypotheses.

  \<^bold>\<open>Bounds and fuel.\<close>
  Loops are recursion over what the code iterates on, or over the number of attempts the code itself
  bounds (retries of the key management service, ten rounds of discovery), so no fuel is added and
  every such operation is a total function. One loop has no bound of its own, the one over the pages
  of a key's rotations: \<open>aws_rotation_pages\<close> is a partial function whose value \<open>None\<close> is not to return,
  and it returns if the service at some call sends a last page. The command sequence target is proved
  for fewer than \<open>2 ^ 32\<close> commands, because the count of failures is a 32 bit number. Arithmetic wraps
  as in the release profile; \<open>scan_overflows\<close> in \<open>Fuzz_Raft\<close> describes the logs whose normalisation
  overflows in a build with overflow checks.

  \<^bold>\<open>Not modelled.\<close>
  The libraries above, which are parameters. Binding sockets, serving HTTP, spawning tasks, blocking
  threads, the waiting loops around the workers' ticks, the pacing sleep, the log subscriber and the
  remaining log lines: they have no effect on the modelled state. The declarations that only tie
  types together (traits of \<open>store/ports.rs\<close>, the type configuration of \<open>raft/types.rs\<close>, re-exports). The fuzz
  targets \<open>dto_decode.rs\<close>, \<open>raft_rpc_decode.rs\<close>, \<open>store_decode.rs\<close>, \<open>backup_decode.rs\<close>,
  \<open>envelope_unwrap.rs\<close> and \<open>rotation.rs\<close>: they look for a panic in the JSON library, the cipher or arithmetic
  that is total here, or assert that the JSON library reads back what it wrote, which is a hypothesis. Tests, scripts and documents.
\<close>

end
